(* ===== verification/Prelude.thy ===== *)
theory Prelude
  imports Main "HOL-Library.Char_ord" "HOL-Library.List_Lexorder"
begin

text \<open>
  The shared layer of the development.  A service method of the program is an \<open>act\<close>: a function
  from the state to either a thrown error or a result, together with the state after the call.
  This theory holds the combinators of that type (sequencing, throwing, guards, catching,
  transactions, loops), the rules that invert a successful or a failed run into its steps, a
  small calculus of preserved predicates, and the reading of the query vocabulary (\<open>where\<close>,
  \<open>orderBy\<close>, \<open>take\<close>, \<open>updateMany\<close>) on tables of rows, with the lemmas that all components use.
\<close>

section \<open>Actions: state and thrown errors\<close>

type_synonym ('w, 'e, 'a) act = "'w \<Rightarrow> ('e + 'a) \<times> 'w"

named_theorems act_simps "equations that run an action"
named_theorems ok_simps "inversion of a successful run into its steps"
named_theorems err_simps "inversion of a failed run into its steps"
named_theorems keeps_intros "introduction rules for predicates that an action keeps"

definition ret :: "'a \<Rightarrow> ('w, 'e, 'a) act" where
  "ret x = (\<lambda>w. (Inr x, w))"

definition throw :: "'e \<Rightarrow> ('w, 'e, 'a) act" where
  "throw e = (\<lambda>w. (Inl e, w))"

definition bnd :: "('w, 'e, 'a) act \<Rightarrow> ('a \<Rightarrow> ('w, 'e, 'b) act) \<Rightarrow> ('w, 'e, 'b) act" where
  "bnd m f = (\<lambda>w. case m w of (Inl e, w') \<Rightarrow> (Inl e, w') | (Inr x, w') \<Rightarrow> f x w')"

definition thn :: "('w, 'e, 'a) act \<Rightarrow> ('w, 'e, 'b) act \<Rightarrow> ('w, 'e, 'b) act" where
  "thn m k = bnd m (\<lambda>_. k)"

definition gets :: "('w \<Rightarrow> 'a) \<Rightarrow> ('w, 'e, 'a) act" where
  "gets f = (\<lambda>w. (Inr (f w), w))"

definition modify :: "('w \<Rightarrow> 'w) \<Rightarrow> ('w, 'e, unit) act" where
  "modify f = (\<lambda>w. (Inr (), f w))"

text \<open>\<open>if (!b) throw e\<close>\<close>

definition ensure :: "bool \<Rightarrow> 'e \<Rightarrow> ('w, 'e, unit) act" where
  "ensure b e = (if b then ret () else throw e)"

text \<open>\<open>if (!x) throw e\<close> for a lookup that may have found nothing\<close>

definition require :: "'a option \<Rightarrow> 'e \<Rightarrow> ('w, 'e, 'a) act" where
  "require x e = (case x of None \<Rightarrow> throw e | Some v \<Rightarrow> ret v)"

definition whenA :: "bool \<Rightarrow> ('w, 'e, unit) act \<Rightarrow> ('w, 'e, unit) act" where
  "whenA b m = (if b then m else ret ())"

text \<open>\<open>try m catch (e) h\<close>\<close>

definition catching :: "('w, 'e, 'a) act \<Rightarrow> ('e \<Rightarrow> ('w, 'e, 'a) act) \<Rightarrow> ('w, 'e, 'a) act" where
  "catching m h = (\<lambda>w. case m w of (Inl e, w') \<Rightarrow> h e w' | (Inr x, w') \<Rightarrow> (Inr x, w'))"

text \<open>
  A transaction: the body runs on the state, and when it throws, the part of the state that the
  transaction owns (\<open>restore old new\<close> puts it back into the new state) is as before.
\<close>

definition transact :: "('w \<Rightarrow> 'w \<Rightarrow> 'w) \<Rightarrow> ('w, 'e, 'a) act \<Rightarrow> ('w, 'e, 'a) act" where
  "transact restore m = (\<lambda>w. case m w of (Inl e, w') \<Rightarrow> (Inl e, restore w w') | (Inr x, w') \<Rightarrow> (Inr x, w'))"

text \<open>\<open>for (const x of xs) await f(x)\<close>\<close>

fun for_each :: "'a list \<Rightarrow> ('a \<Rightarrow> ('w, 'e, unit) act) \<Rightarrow> ('w, 'e, unit) act" where
  "for_each [] f = ret ()"
| "for_each (x # xs) f = thn (f x) (for_each xs f)"

text \<open>\<open>for (const x of xs) out.push(await f(x))\<close>\<close>

fun map_act :: "('a \<Rightarrow> ('w, 'e, 'b) act) \<Rightarrow> 'a list \<Rightarrow> ('w, 'e, 'b list) act" where
  "map_act f [] = ret []"
| "map_act f (x # xs) = bnd (f x) (\<lambda>y. bnd (map_act f xs) (\<lambda>ys. ret (y # ys)))"

subsection \<open>Running actions\<close>

lemma ret_run [act_simps]: "ret x w = (Inr x, w)"
  by (simp add: ret_def)

lemma throw_run [act_simps]: "throw e w = (Inl e, w)"
  by (simp add: throw_def)

lemma gets_run [act_simps]: "gets f w = (Inr (f w), w)"
  by (simp add: gets_def)

lemma modify_run [act_simps]: "modify f w = (Inr (), f w)"
  by (simp add: modify_def)

lemma ensure_run [act_simps]: "ensure b e w = (if b then (Inr (), w) else (Inl e, w))"
  by (simp add: ensure_def act_simps)

lemma require_run [act_simps]:
  "require x e w = (case x of None \<Rightarrow> (Inl e, w) | Some v \<Rightarrow> (Inr v, w))"
  by (simp add: require_def act_simps split: option.split)

lemma whenA_run [act_simps]: "whenA b m w = (if b then m w else (Inr (), w))"
  by (simp add: whenA_def act_simps)

lemma bnd_run [act_simps]:
  "bnd m f w = (case m w of (Inl e, w') \<Rightarrow> (Inl e, w') | (Inr x, w') \<Rightarrow> f x w')"
  by (simp add: bnd_def)

lemma thn_run [act_simps]:
  "thn m k w = (case m w of (Inl e, w') \<Rightarrow> (Inl e, w') | (Inr x, w') \<Rightarrow> k w')"
  by (simp add: thn_def bnd_def)

lemma catching_run [act_simps]:
  "catching m h w = (case m w of (Inl e, w') \<Rightarrow> h e w' | (Inr x, w') \<Rightarrow> (Inr x, w'))"
  by (simp add: catching_def)

lemma transact_run [act_simps]:
  "transact r m w = (case m w of (Inl e, w') \<Rightarrow> (Inl e, r w w') | (Inr x, w') \<Rightarrow> (Inr x, w'))"
  by (simp add: transact_def)

text \<open>A run that continues after a branch continues in each branch.\<close>

lemma case_prod_if: "case_prod h (if b then x else y) = (if b then case_prod h x else case_prod h y)"
  by simp

lemma case_prod_option:
  "case_prod h (case x of None \<Rightarrow> a | Some v \<Rightarrow> f v) = (case x of None \<Rightarrow> case_prod h a | Some v \<Rightarrow> case_prod h (f v))"
  by (simp split: option.split)

lemmas branch_simps = case_prod_if case_prod_option

subsection \<open>Inverting a successful run\<close>

lemma ret_ok [ok_simps]: "ret x w = (Inr y, w') \<longleftrightarrow> y = x \<and> w' = w"
  by (auto simp: act_simps)

lemma throw_ok [ok_simps]: "throw e w = (Inr y, w') \<longleftrightarrow> False"
  by (simp add: act_simps)

lemma gets_ok [ok_simps]: "gets f w = (Inr y, w') \<longleftrightarrow> y = f w \<and> w' = w"
  by (auto simp: act_simps)

lemma modify_ok [ok_simps]: "modify f w = (Inr y, w') \<longleftrightarrow> w' = f w"
  by (auto simp: act_simps)

lemma ensure_ok [ok_simps]: "ensure b e w = (Inr y, w') \<longleftrightarrow> b \<and> w' = w"
  by (auto simp: act_simps)

lemma require_ok [ok_simps]: "require x e w = (Inr y, w') \<longleftrightarrow> x = Some y \<and> w' = w"
  by (auto simp: act_simps split: option.split)

lemma whenA_ok [ok_simps]:
  "whenA b m w = (Inr y, w') \<longleftrightarrow> (if b then m w = (Inr y, w') else w' = w)"
  by (auto simp: act_simps)

lemma bnd_ok [ok_simps]:
  "bnd m f w = (Inr y, w'') \<longleftrightarrow> (\<exists>x w'. m w = (Inr x, w') \<and> f x w' = (Inr y, w''))"
  by (auto simp: act_simps split: prod.splits sum.splits)

lemma thn_ok [ok_simps]:
  "thn m k w = (Inr y, w'') \<longleftrightarrow> (\<exists>x w'. m w = (Inr x, w') \<and> k w' = (Inr y, w''))"
  by (auto simp: act_simps split: prod.splits sum.splits)

lemma transact_ok [ok_simps]: "transact r m w = (Inr y, w') \<longleftrightarrow> m w = (Inr y, w')"
  by (auto simp: act_simps split: prod.splits sum.splits)

lemma catching_ok [ok_simps]:
  "catching m h w = (Inr y, w'') \<longleftrightarrow>
     m w = (Inr y, w'') \<or> (\<exists>e w'. m w = (Inl e, w') \<and> h e w' = (Inr y, w''))"
  by (auto simp: act_simps split: prod.splits sum.splits)

subsection \<open>Inverting a failed run\<close>

lemma ret_err [err_simps]: "ret x w = (Inl e, w') \<longleftrightarrow> False"
  by (simp add: act_simps)

lemma throw_err [err_simps]: "throw e w = (Inl e', w') \<longleftrightarrow> e' = e \<and> w' = w"
  by (auto simp: act_simps)

lemma gets_err [err_simps]: "gets f w = (Inl e, w') \<longleftrightarrow> False"
  by (simp add: act_simps)

lemma modify_err [err_simps]: "modify f w = (Inl e, w') \<longleftrightarrow> False"
  by (simp add: act_simps)

lemma ensure_err [err_simps]: "ensure b e w = (Inl e', w') \<longleftrightarrow> \<not> b \<and> e' = e \<and> w' = w"
  by (auto simp: act_simps)

lemma require_err [err_simps]:
  "require x e w = (Inl e', w') \<longleftrightarrow> x = None \<and> e' = e \<and> w' = w"
  by (auto simp: act_simps split: option.split)

lemma bnd_err [err_simps]:
  "bnd m f w = (Inl e, w'') \<longleftrightarrow>
     m w = (Inl e, w'') \<or> (\<exists>x w'. m w = (Inr x, w') \<and> f x w' = (Inl e, w''))"
  by (auto simp: act_simps split: prod.splits sum.splits)

lemma thn_err [err_simps]:
  "thn m k w = (Inl e, w'') \<longleftrightarrow>
     m w = (Inl e, w'') \<or> (\<exists>x w'. m w = (Inr x, w') \<and> k w' = (Inl e, w''))"
  by (auto simp: act_simps split: prod.splits sum.splits)

lemma transact_err [err_simps]:
  "transact r m w = (Inl e, w'') \<longleftrightarrow> (\<exists>w'. m w = (Inl e, w') \<and> w'' = r w w')"
  by (auto simp: act_simps split: prod.splits sum.splits)

subsection \<open>Predicates that an action keeps\<close>

definition keeps :: "('w \<Rightarrow> bool) \<Rightarrow> ('w, 'e, 'a) act \<Rightarrow> bool" where
  "keeps P m \<longleftrightarrow> (\<forall>w. P w \<longrightarrow> P (snd (m w)))"

lemma keepsI: "(\<And>w. P w \<Longrightarrow> P (snd (m w))) \<Longrightarrow> keeps P m"
  by (simp add: keeps_def)

lemma keepsD: "keeps P m \<Longrightarrow> P w \<Longrightarrow> P (snd (m w))"
  by (simp add: keeps_def)

lemma keeps_result: "keeps P m \<Longrightarrow> P w \<Longrightarrow> m w = (r, w') \<Longrightarrow> P w'"
  by (metis keepsD snd_conv)

lemma keeps_ret [keeps_intros]: "keeps P (ret x)"
  by (simp add: keeps_def act_simps)

lemma keeps_throw [keeps_intros]: "keeps P (throw e)"
  by (simp add: keeps_def act_simps)

lemma keeps_gets [keeps_intros]: "keeps P (gets f)"
  by (simp add: keeps_def act_simps)

lemma keeps_ensure [keeps_intros]: "keeps P (ensure b e)"
  by (simp add: keeps_def act_simps)

lemma keeps_require [keeps_intros]: "keeps P (require x e)"
  by (simp add: keeps_def act_simps split: option.split)

lemma keeps_modify: "(\<And>w. P w \<Longrightarrow> P (f w)) \<Longrightarrow> keeps P (modify f)"
  by (simp add: keeps_def act_simps)

lemma keeps_whenA [keeps_intros]: "(b \<Longrightarrow> keeps P m) \<Longrightarrow> keeps P (whenA b m)"
  by (simp add: keeps_def act_simps)

lemma keeps_bnd [keeps_intros]: "keeps P m \<Longrightarrow> (\<And>x. keeps P (f x)) \<Longrightarrow> keeps P (bnd m f)"
  by (auto simp: keeps_def act_simps split: prod.splits sum.splits)

lemma keeps_thn [keeps_intros]: "keeps P m \<Longrightarrow> keeps P k \<Longrightarrow> keeps P (thn m k)"
  unfolding thn_def by (rule keeps_bnd)

lemma keeps_catching [keeps_intros]:
  "keeps P m \<Longrightarrow> (\<And>e. keeps P (h e)) \<Longrightarrow> keeps P (catching m h)"
  by (auto simp: keeps_def act_simps split: prod.splits sum.splits)

text \<open>
  Inside a transaction a predicate may fail for a while: only the committed state counts, and a
  rollback that restores what the predicate reads keeps it for free.
\<close>

lemma keeps_transact:
  assumes "\<And>w x w'. P w \<Longrightarrow> m w = (Inr x, w') \<Longrightarrow> P w'"
    and "\<And>w w'. P w \<Longrightarrow> P (r w w')"
  shows "keeps P (transact r m)"
  using assms by (auto simp: keeps_def act_simps split: prod.splits sum.splits)

lemma keeps_if [keeps_intros]:
  "(b \<Longrightarrow> keeps P m) \<Longrightarrow> (\<not> b \<Longrightarrow> keeps P k) \<Longrightarrow> keeps P (if b then m else k)"
  by simp

lemma keeps_option [keeps_intros]:
  "(x = None \<Longrightarrow> keeps P m) \<Longrightarrow> (\<And>v. x = Some v \<Longrightarrow> keeps P (k v)) \<Longrightarrow>
   keeps P (case x of None \<Rightarrow> m | Some v \<Rightarrow> k v)"
  by (cases x) auto

lemma keeps_let [keeps_intros]: "keeps P (f x) \<Longrightarrow> keeps P (let y = x in f y)"
  by simp

lemma keeps_pair [keeps_intros]:
  "(\<And>a b. p = (a, b) \<Longrightarrow> keeps P (f a b)) \<Longrightarrow> keeps P (case p of (a, b) \<Rightarrow> f a b)"
  by (cases p) auto

lemma keeps_for_each [keeps_intros]:
  "(\<And>x. x \<in> set xs \<Longrightarrow> keeps P (f x)) \<Longrightarrow> keeps P (for_each xs f)"
  by (induction xs) (auto intro: keeps_intros)

lemma keeps_map_act [keeps_intros]:
  "(\<And>x. x \<in> set xs \<Longrightarrow> keeps P (f x)) \<Longrightarrow> keeps P (map_act f xs)"
  by (induction xs) (auto intro!: keeps_intros)

lemma map_act_length:
  "map_act f xs w = (Inr ys, w') \<Longrightarrow> length ys = length xs"
  by (induction xs arbitrary: ys w w') (auto simp: ok_simps)

section \<open>Tables of rows\<close>

text \<open>
  A table is the list of its rows.  The program addresses it by predicates (\<open>where\<close>), orders and
  cuts results (\<open>orderBy\<close>, \<open>take\<close>) and rewrites rows (\<open>update\<close>, \<open>updateMany\<close>).
\<close>

definition update_where :: "('r \<Rightarrow> bool) \<Rightarrow> ('r \<Rightarrow> 'r) \<Rightarrow> 'r list \<Rightarrow> 'r list" where
  "update_where p f rs = map (\<lambda>r. if p r then f r else r) rs"

definition delete_where :: "('r \<Rightarrow> bool) \<Rightarrow> 'r list \<Rightarrow> 'r list" where
  "delete_where p rs = filter (\<lambda>r. \<not> p r) rs"

definition count_where :: "('r \<Rightarrow> bool) \<Rightarrow> 'r list \<Rightarrow> nat" where
  "count_where p rs = length (filter p rs)"

definition exists_where :: "('r \<Rightarrow> bool) \<Rightarrow> 'r list \<Rightarrow> bool" where
  "exists_where p rs = list_ex p rs"

definition order_asc :: "('r \<Rightarrow> int) \<Rightarrow> 'r list \<Rightarrow> 'r list" where
  "order_asc key rs = sort_key key rs"

definition order_desc :: "('r \<Rightarrow> int) \<Rightarrow> 'r list \<Rightarrow> 'r list" where
  "order_desc key rs = sort_key (\<lambda>r. - key r) rs"

definition first_of :: "'r list \<Rightarrow> 'r option" where
  "first_of rs = (case rs of [] \<Rightarrow> None | r # _ \<Rightarrow> Some r)"

text \<open>
  A comparison with a column that is \<open>NULL\<close> is never true: \<open>{ not: v }\<close> on a nullable column
  selects the rows that hold a value different from \<open>v\<close>, and not those that hold \<open>NULL\<close>.
\<close>

definition sql_not :: "'a option \<Rightarrow> 'a \<Rightarrow> bool" where
  "sql_not c v = (case c of None \<Rightarrow> False | Some x \<Rightarrow> x \<noteq> v)"

text \<open>\<open>a ?? b\<close>\<close>

definition coalesce :: "'a option \<Rightarrow> 'a \<Rightarrow> 'a" where
  "coalesce c d = (case c of None \<Rightarrow> d | Some x \<Rightarrow> x)"

lemma coalesce_simps [simp]: "coalesce None d = d" "coalesce (Some x) d = x"
  by (simp_all add: coalesce_def)

lemma sql_not_simps [simp]: "sql_not None v = False" "sql_not (Some x) v \<longleftrightarrow> x \<noteq> v"
  by (simp_all add: sql_not_def)

lemma exists_where_iff [simp]: "exists_where p rs \<longleftrightarrow> (\<exists>r\<in>set rs. p r)"
  by (auto simp: exists_where_def list_ex_iff)

lemma update_where_Nil [simp]: "update_where p f [] = []"
  by (simp add: update_where_def)

lemma update_where_Cons [simp]:
  "update_where p f (r # rs) = (if p r then f r else r) # update_where p f rs"
  by (simp add: update_where_def)

lemma update_where_append [simp]:
  "update_where p f (rs @ ss) = update_where p f rs @ update_where p f ss"
  by (simp add: update_where_def)

lemma length_update_where [simp]: "length (update_where p f rs) = length rs"
  by (simp add: update_where_def)

lemma set_update_where:
  "set (update_where p f rs) = (\<lambda>r. if p r then f r else r) ` set rs"
  by (simp add: update_where_def)

lemma in_update_whereE:
  assumes "x \<in> set (update_where p f rs)"
  obtains r where "r \<in> set rs" "x = (if p r then f r else r)"
  using assms by (auto simp: set_update_where)

lemma update_where_id: "(\<And>r. r \<in> set rs \<Longrightarrow> \<not> p r) \<Longrightarrow> update_where p f rs = rs"
  by (induction rs) auto

lemma map_update_where:
  "(\<And>r. p r \<Longrightarrow> g (f r) = g r) \<Longrightarrow> map g (update_where p f rs) = map g rs"
  by (induction rs) auto

lemma filter_update_where:
  "(\<And>r. p r \<Longrightarrow> q (f r) = q r) \<Longrightarrow>
   filter q (update_where p f rs) = update_where p f (filter q rs)"
  by (induction rs) auto

lemma filter_update_where_other:
  "(\<And>r. p r \<Longrightarrow> \<not> q r \<and> \<not> q (f r)) \<Longrightarrow> filter q (update_where p f rs) = filter q rs"
  by (induction rs) auto

lemma update_where_idem:
  "(\<And>r. p r \<Longrightarrow> p (f r) \<Longrightarrow> f (f r) = f r) \<Longrightarrow>
   update_where p f (update_where p f rs) = update_where p f rs"
  by (induction rs) auto

lemma find_update_where:
  "(\<And>r. p r \<Longrightarrow> q (f r) = q r) \<Longrightarrow>
   List.find q (update_where p f rs) = map_option (\<lambda>r. if p r then f r else r) (List.find q rs)"
  by (induction rs) auto

lemma delete_where_Nil [simp]: "delete_where p [] = []"
  by (simp add: delete_where_def)

lemma set_delete_where [simp]: "set (delete_where p rs) = {r \<in> set rs. \<not> p r}"
  by (auto simp: delete_where_def)

lemma distinct_map_delete_where: "distinct (map g rs) \<Longrightarrow> distinct (map g (delete_where p rs))"
  by (simp add: delete_where_def distinct_map_filter)

lemma count_where_0 [simp]: "count_where p rs = 0 \<longleftrightarrow> (\<forall>r\<in>set rs. \<not> p r)"
  by (auto simp: count_where_def filter_empty_conv)

lemma count_where_append [simp]: "count_where p (rs @ ss) = count_where p rs + count_where p ss"
  by (simp add: count_where_def)

lemma count_where_Cons [simp]:
  "count_where p (r # rs) = (if p r then Suc (count_where p rs) else count_where p rs)"
  by (simp add: count_where_def)

lemma count_where_Nil [simp]: "count_where p [] = 0"
  by (simp add: count_where_def)

lemma order_asc_set [simp]: "set (order_asc key rs) = set rs"
  by (simp add: order_asc_def)

lemma order_asc_length [simp]: "length (order_asc key rs) = length rs"
  by (simp add: order_asc_def)

lemma order_asc_sorted: "sorted (map key (order_asc key rs))"
  by (simp add: order_asc_def)

lemma order_desc_set [simp]: "set (order_desc key rs) = set rs"
  by (simp add: order_desc_def)

lemma order_desc_length [simp]: "length (order_desc key rs) = length rs"
  by (simp add: order_desc_def)

lemma order_desc_sorted: "sorted (map (\<lambda>r. - key r) (order_desc key rs))"
  by (simp add: order_desc_def)

lemma order_desc_rev_sorted: "sorted (rev (map key (order_desc key rs)))"
proof -
  have "sorted_wrt (\<lambda>x y. - key x \<le> - key y) (order_desc key rs)"
    using order_desc_sorted [of key rs] by (simp add: sorted_map)
  then have "sorted_wrt (\<lambda>x y. key x \<ge> key y) (order_desc key rs)"
    by (rule sorted_wrt_mono_rel [rotated]) simp
  then show ?thesis by (simp add: sorted_wrt_rev sorted_wrt_map)
qed

lemma first_of_None [simp]: "first_of rs = None \<longleftrightarrow> rs = []"
  by (simp add: first_of_def split: list.split)

lemma first_of_order_desc: "x \<in> set rs \<Longrightarrow> first_of (order_desc key rs) \<noteq> None"
  by (metis empty_iff first_of_None list.set(1) order_desc_set)

lemma first_of_in: "first_of rs = Some r \<Longrightarrow> r \<in> set rs"
  by (auto simp: first_of_def split: list.splits)

lemma first_of_Cons [simp]: "first_of (r # rs) = Some r"
  by (simp add: first_of_def)

text \<open>The first row in descending order has the greatest key.\<close>

lemma first_of_desc_greatest:
  assumes "first_of (order_desc key rs) = Some r" and "x \<in> set rs"
  shows "key x \<le> key r"
proof -
  from assms(1) obtain ss where ss: "order_desc key rs = r # ss"
    by (auto simp: first_of_def split: list.splits)
  have "x \<in> set (r # ss)" using assms(2) by (simp flip: ss)
  then show ?thesis using order_desc_sorted [of key rs] ss by auto
qed

lemma find_Some_in: "List.find p rs = Some r \<Longrightarrow> r \<in> set rs \<and> p r"
  by (auto simp: find_Some_iff)

lemma find_None_all: "List.find p rs = None \<longleftrightarrow> (\<forall>r\<in>set rs. \<not> p r)"
  by (auto simp: find_None_iff)

lemma find_append:
  "List.find p (rs @ ss) = (case List.find p rs of None \<Rightarrow> List.find p ss | Some r \<Rightarrow> Some r)"
  by (induction rs) auto

text \<open>With a unique key, a lookup by that key finds the row itself.\<close>

lemma find_unique:
  "distinct (map key rs) \<Longrightarrow> r \<in> set rs \<Longrightarrow> List.find (\<lambda>x. key x = key r) rs = Some r"
  by (induction rs) (auto simp: image_iff)

lemma unique_row:
  "distinct (map key rs) \<Longrightarrow> r \<in> set rs \<Longrightarrow> s \<in> set rs \<Longrightarrow> key r = key s \<Longrightarrow> r = s"
  by (auto simp: distinct_map inj_on_def)

section \<open>Strings\<close>

text \<open>\<open>`${n}`\<close> for a natural number and an integer\<close>

definition digit_char :: "nat \<Rightarrow> char" where
  "digit_char d = char_of (48 + d)"

fun show_nat :: "nat \<Rightarrow> string" where
  "show_nat n = (if n < 10 then [digit_char n] else show_nat (n div 10) @ [digit_char (n mod 10)])"

declare show_nat.simps [simp del]

definition show_int :: "int \<Rightarrow> string" where
  "show_int i = (if i < 0 then ''-'' @ show_nat (nat (- i)) else show_nat (nat i))"

definition is_digit :: "char \<Rightarrow> bool" where
  "is_digit c \<longleftrightarrow> 48 \<le> (of_char c :: nat) \<and> (of_char c :: nat) \<le> 57"

end
