(* ===== verification/Schema.thy ===== *)
theory Schema
  imports Prelude
begin

text \<open>
  The data of the program: the enumerations and tables of \<open>prisma/schema.prisma\<close> (one row record
  per model, with the model's columns), the events, queue jobs and publications that the services
  send, the errors they throw, and the world they run in.  The world is the database together
  with what a rollback does not undo: the supply of generated identifiers, the sequence behind
  \<open>envelopeSequence\<close>, the events emitted, the jobs enqueued and the Redis keys.

  Times are integers, milliseconds since the epoch; an ISO string of a time stands for the time.
  Ciphertexts and metadata blobs are opaque JSON values.
\<close>

type_synonym uuid = string
type_synonym time = int

datatype json = JNull | JBool bool | JStr string | JNum int | JFloat string | JTime time | JArr "json list" | JObj "(string \<times> json) list"

section \<open>Enumerations\<close>

datatype UserStatus = ACTIVE | SUSPENDED
datatype UserRole = USER | MODERATOR | ADMIN
datatype ReportReason = SPAM | HARASSMENT | HATE_SPEECH | SEXUAL_CONTENT | VIOLENCE | IMPERSONATION | OTHER
datatype ReportStatus = OPEN | IN_REVIEW | CLOSED
datatype ReportResolution = DISMISSED | AUTO_CLOSED_TOMBSTONED | AUTO_CLOSED_SUSPENDED
datatype AdminAuditAction =
    MESSAGE_TOMBSTONE | MESSAGE_UNTOMBSTONE | USER_SUSPEND | USER_UNSUSPEND | REPORT_DISMISS
  | REPORT_REVIEW_START | ROLE_PROMOTE | ROLE_DEMOTE | METRICS_ROLLUP | STRIKE_RESET
datatype AdminAuditTargetType = T_MESSAGE | T_USER | T_REPORT
datatype OtpStatus = UNUSED | USED | EXPIRED
datatype SmsProvider = SAYQAL | MOCK | TELEGRAM
datatype SmsType = OTP
datatype DailyMetricKind =
    MESSAGES_SENT_DIRECT | MESSAGES_SENT_GROUP | DAU | NEW_USERS | REPORTS_OPENED | REPORTS_RESOLVED
  | USERS_SUSPENDED
datatype DevicePlatform = ANDROID | IOS | WEB | MACOS | WINDOWS | LINUX
datatype PushPlatform = FCM | APNS | HMS
datatype EnvelopeStatus = PENDING | DELIVERED | READ
datatype MediaType = IMAGE | VIDEO | AUDIO | DOCUMENT
datatype UploadStatus = U_PENDING | U_COMPLETE | U_FAILED
datatype MessageContentType = TEXT | LOCATION | VENUE
datatype ThreadType = Direct | Grp
datatype GroupRole = G_ADMIN | G_MEMBER

section \<open>Tables\<close>

record user_row =
  u_id :: uuid
  u_phoneHash :: string
  u_phoneMasked :: "string option"
  u_status :: UserStatus
  u_role :: UserRole
  u_createdAt :: time
  u_updatedAt :: time
  u_username :: "string option"
  u_profileAvatarUrl :: "string option"
  u_encryptedProfile :: "json option"
  u_profileKeyHash :: "string option"
  u_strikeCount :: int
  u_lastStrikeAt :: "time option"

record device_row =
  d_id :: uuid
  d_userId :: uuid
  d_platform :: DevicePlatform
  d_displayName :: "string option"
  d_identityPublicKey :: string
  d_pushToken :: "string option"
  d_pushPlatform :: "PushPlatform option"
  d_pushActive :: bool
  d_active :: bool
  d_lastSeenAt :: "time option"
  d_createdAt :: time

record signed_prekey_row =
  sp_id :: uuid
  sp_deviceId :: uuid
  sp_keyId :: int
  sp_publicKey :: string
  sp_signature :: string
  sp_active :: bool
  sp_createdAt :: time

record one_time_prekey_row =
  ot_id :: uuid
  ot_deviceId :: uuid
  ot_keyId :: int
  ot_publicKey :: string
  ot_consumedAt :: "time option"
  ot_createdAt :: time

record thread_row =
  th_id :: uuid
  th_userAId :: uuid
  th_userBId :: uuid
  th_latestSequence :: int
  th_createdAt :: time
  th_updatedAt :: time

record message_row =
  m_id :: uuid
  m_threadId :: "uuid option"
  m_groupId :: "uuid option"
  m_senderUserId :: uuid
  m_senderDeviceId :: uuid
  m_idempotencyKey :: string
  m_threadSequence :: int
  m_contentType :: MessageContentType
  m_replyToMessageId :: "uuid option"
  m_forwarded :: bool
  m_createdAt :: time
  m_deletedAt :: "time option"
  m_editedAt :: "time option"
  m_lastEditIdempotencyKey :: "string option"

record media_row =
  md_id :: uuid
  md_userId :: uuid
  md_messageId :: "uuid option"
  md_mediaType :: MediaType
  md_bucketKey :: string
  md_mimeType :: string
  md_sizeBytes :: int
  md_filename :: string
  md_thumbnailBucketKey :: "string option"
  md_width :: "int option"
  md_height :: "int option"
  md_duration :: "int option"
  md_mediaCiphertextHash :: string
  md_thumbnailCiphertextHash :: "string option"
  md_uploadStatus :: UploadStatus
  md_uploadedAt :: "time option"
  md_createdAt :: time

record envelope_row =
  e_id :: uuid
  e_messageId :: uuid
  e_recipientUserId :: uuid
  e_recipientDeviceId :: uuid
  e_ciphertext :: json
  e_status :: EnvelopeStatus
  e_deliveredAt :: "time option"
  e_readAt :: "time option"
  e_envelopeSequence :: int
  e_envelopeVersion :: int
  e_createdAt :: time
  e_updatedAt :: time

record refresh_token_row =
  rt_id :: uuid
  rt_userId :: uuid
  rt_tokenHash :: string
  rt_familyId :: string
  rt_expiresAt :: time
  rt_revokedAt :: "time option"
  rt_userAgent :: "string option"
  rt_ipAddress :: "string option"
  rt_createdAt :: time

record socket_ticket_row =
  tk_id :: uuid
  tk_userId :: uuid
  tk_deviceId :: uuid
  tk_sessionId :: uuid
  tk_tokenHash :: string
  tk_expiresAt :: time
  tk_consumedAt :: "time option"
  tk_consumedBy :: "string option"

record backup_row =
  bb_userId :: uuid
  bb_bucketKey :: string
  bb_sha256 :: string
  bb_sizeBytes :: int
  bb_version :: int
  bb_uploadedAt :: time

record otp_row =
  o_id :: uuid
  o_phoneHash :: string
  o_code :: string
  o_status :: OtpStatus
  o_attempts :: int
  o_expiresAt :: time
  o_createdAt :: time

record sms_report_row =
  sr_id :: uuid
  sr_phoneHash :: string
  sr_type :: SmsType
  sr_provider :: SmsProvider
  sr_success :: bool
  sr_error :: "string option"
  sr_createdAt :: time

record telegram_link_row =
  tl_phoneHash :: string
  tl_chatId :: int
  tl_telegramUserId :: "int option"
  tl_username :: "string option"

record group_row =
  g_id :: uuid
  g_encryptedMetadata :: json
  g_createdAt :: time
  g_updatedAt :: time

record group_member_row =
  gm_groupId :: uuid
  gm_userId :: uuid
  gm_role :: GroupRole
  gm_joinedAt :: time

record unread_row =
  uc_userId :: uuid
  uc_threadType :: ThreadType
  uc_threadId :: uuid
  uc_count :: int

record hidden_row =
  hm_userId :: uuid
  hm_messageId :: uuid

record reaction_row =
  rx_id :: uuid
  rx_messageId :: uuid
  rx_userId :: uuid
  rx_emoji :: string
  rx_createdAt :: time

record report_row =
  rp_id :: uuid
  rp_reporterUserId :: uuid
  rp_messageId :: uuid
  rp_reason :: ReportReason
  rp_freeText :: "string option"
  rp_status :: ReportStatus
  rp_resolution :: "ReportResolution option"
  rp_reviewedByUserId :: "uuid option"
  rp_reviewedAt :: "time option"
  rp_createdAt :: time
  rp_updatedAt :: time

record suspension_row =
  su_id :: uuid
  su_userId :: uuid
  su_suspendedByUserId :: uuid
  su_reason :: string
  su_suspendedAt :: time
  su_expiresAt :: "time option"
  su_revokedAt :: "time option"
  su_revokedByUserId :: "uuid option"
  su_revokeReason :: "string option"

record audit_row =
  al_id :: uuid
  al_actorUserId :: "uuid option"
  al_action :: AdminAuditAction
  al_targetType :: AdminAuditTargetType
  al_targetId :: uuid
  al_reason :: "string option"
  al_metadata :: json
  al_createdAt :: time

record metric_row =
  dm_id :: uuid
  dm_date :: time
  dm_kind :: DailyMetricKind
  dm_dimension :: "string option"
  dm_value :: int

record db =
  users :: "user_row list"
  devices :: "device_row list"
  signedPrekeys :: "signed_prekey_row list"
  oneTimePrekeys :: "one_time_prekey_row list"
  directThreads :: "thread_row list"
  messages :: "message_row list"
  messageMedia :: "media_row list"
  messageEnvelopes :: "envelope_row list"
  refreshTokens :: "refresh_token_row list"
  socketTickets :: "socket_ticket_row list"
  backupBlobs :: "backup_row list"
  otps :: "otp_row list"
  smsReports :: "sms_report_row list"
  telegramLinks :: "telegram_link_row list"
  groups :: "group_row list"
  groupMembers :: "group_member_row list"
  unreadCounters :: "unread_row list"
  hiddenMessages :: "hidden_row list"
  messageReactions :: "reaction_row list"
  reports :: "report_row list"
  userSuspensions :: "suspension_row list"
  adminAuditLog :: "audit_row list"
  dailyMetrics :: "metric_row list"

definition empty_db :: db where
  "empty_db = \<lparr>users = [], devices = [], signedPrekeys = [], oneTimePrekeys = [], directThreads = [],
     messages = [], messageMedia = [], messageEnvelopes = [], refreshTokens = [], socketTickets = [],
     backupBlobs = [], otps = [], smsReports = [], telegramLinks = [], groups = [], groupMembers = [],
     unreadCounters = [], hiddenMessages = [], messageReactions = [], reports = [],
     userSuspensions = [], adminAuditLog = [], dailyMetrics = []\<rparr>"

section \<open>Errors\<close>

record suspended_body =
  sb_reason :: string
  sb_suspendedAt :: time
  sb_expiresAt :: "time option"
  sb_appealUrl :: "string option"

text \<open>The HTTP exceptions of the framework, the known request errors of the database client with
  their code (\<open>P2002\<close> a unique constraint, \<open>P2003\<close> a foreign key, \<open>P2025\<close> a record to update that
  does not exist), and every other thrown \<open>Error\<close>.\<close>

datatype error =
    BadRequest string
  | TelegramLinkRequired "string option"
  | Unauthorized string
  | Forbidden string
  | NotFound string
  | Conflict string
  | AccountSuspended suspended_body
  | PrismaError string
  | OtherError string

fun error_message :: "error \<Rightarrow> string" where
  "error_message (BadRequest s) = s"
| "error_message (TelegramLinkRequired l) =
     ''Open the BirGap Telegram bot and share your phone number to receive login codes.''"
| "error_message (Unauthorized s) = s"
| "error_message (Forbidden s) = s"
| "error_message (NotFound s) = s"
| "error_message (Conflict s) = s"
| "error_message (AccountSuspended b) = ''Account Suspended Exception''"
| "error_message (PrismaError c) = c"
| "error_message (OtherError s) = s"

section \<open>Events, jobs and publications\<close>

text \<open>What \<open>serializeMessage\<close> returns and \<open>message.created\<close> carries: the message with its envelopes
  and media.\<close>

record message_view =
  v_id :: uuid
  v_threadId :: "uuid option"
  v_groupId :: "uuid option"
  v_senderUserId :: uuid
  v_senderDeviceId :: uuid
  v_threadSequence :: int
  v_contentType :: MessageContentType
  v_replyToMessageId :: "uuid option"
  v_forwarded :: bool
  v_createdAt :: time
  v_envelopes :: "envelope_row list"
  v_media :: "media_row list"

record push_target =
  pt_recipientDeviceId :: uuid
  pt_recipientUserId :: uuid

record fanout_envelope =
  fe_messageId :: uuid
  fe_recipientUserId :: uuid
  fe_recipientDeviceId :: uuid
  fe_ciphertext :: json

record fanout_message =
  fm_id :: uuid
  fm_groupId :: uuid
  fm_senderUserId :: uuid
  fm_senderDeviceId :: uuid
  fm_threadSequence :: int
  fm_contentType :: MessageContentType
  fm_replyToMessageId :: "uuid option"
  fm_forwarded :: bool
  fm_createdAt :: time
  fm_media :: "media_row list"
  fm_envelopes :: "fanout_envelope list"

record fanout_job =
  fj_messageId :: uuid
  fj_groupId :: uuid
  fj_senderUserId :: uuid
  fj_senderDeviceId :: uuid
  fj_ciphertext :: json
  fj_threadSequence :: int
  fj_replyToMessageId :: "uuid option"
  fj_contentType :: MessageContentType
  fj_createdAt :: time
  fj_mediaIds :: "uuid list"
  fj_forwarded :: bool

record edit_fanout_job =
  ej_messageId :: uuid
  ej_groupId :: uuid
  ej_senderUserId :: uuid
  ej_senderDeviceId :: uuid
  ej_ciphertext :: json
  ej_editedAt :: time

record reaction_payload =
  rj_reactionId :: uuid
  rj_messageId :: uuid
  rj_groupId :: "uuid option"
  rj_threadId :: "uuid option"
  rj_userId :: uuid
  rj_emoji :: string
  rj_createdAt :: time
  rj_created :: bool

record unread_job =
  uj_userId :: uuid
  uj_threadId :: uuid
  uj_threadType :: ThreadType
  uj_reason :: string
  uj_jobId :: string

datatype PushType = P_new_message | P_edit | P_delete

datatype job =
    Fanout fanout_job
  | EditFanout edit_fanout_job
  | ReactionFanout reaction_payload
  | UnreadRecalc unread_job
  | PushNotification PushType "push_target list"
  | StorageCleanup string
  | TelegramOtp string string string

datatype queue_name =
  GROUP_FANOUT | GROUP_EDIT_FANOUT | REACTION_FANOUT | UNREAD_RECALC | PUSH_NOTIFICATIONS
  | STORAGE_CLEANUP | TELEGRAM_OTP

fun queue_of :: "job \<Rightarrow> queue_name" where
  "queue_of (Fanout j) = GROUP_FANOUT"
| "queue_of (EditFanout j) = GROUP_EDIT_FANOUT"
| "queue_of (ReactionFanout j) = REACTION_FANOUT"
| "queue_of (UnreadRecalc j) = UNREAD_RECALC"
| "queue_of (PushNotification t ts) = PUSH_NOTIFICATIONS"
| "queue_of (StorageCleanup k) = STORAGE_CLEANUP"
| "queue_of (TelegramOtp h p c) = TELEGRAM_OTP"

record ack_event =
  ak_messageId :: uuid
  ak_deviceId :: uuid
  ak_userId :: uuid
  ak_status :: EnvelopeStatus
  ak_threadId :: "uuid option"
  ak_groupId :: "uuid option"
  ak_threadSequence :: int
  ak_senderUserId :: uuid
  ak_senderDeviceId :: uuid

record edited_event =
  ee_messageId :: uuid
  ee_threadId :: "uuid option"
  ee_groupId :: "uuid option"
  ee_senderUserId :: uuid
  ee_senderDeviceId :: uuid
  ee_editedAt :: "time option"
  ee_envelopes :: "envelope_row list"

datatype DeletedBy = SENDER | GROUP_ADMIN

record deleted_event =
  de_messageId :: uuid
  de_threadId :: "uuid option"
  de_groupId :: "uuid option"
  de_senderUserId :: uuid
  de_deletedAt :: "time option"
  de_deletedBy :: DeletedBy
  de_deletedByUserId :: uuid

record tombstoned_event =
  te_messageId :: uuid
  te_threadId :: "uuid option"
  te_groupId :: "uuid option"
  te_senderUserId :: uuid
  te_tombstonedBy :: uuid
  te_at :: time

datatype event =
    EvMessageCreated message_view
  | EvGroupMessageCreated fanout_message
  | EvMessageAck ack_event
  | EvMarkedAllRead uuid uuid ThreadType
  | EvUnreadUpdated uuid uuid ThreadType int
  | EvMessageEdited edited_event "uuid list"
  | EvMessageEditedGroup edited_event
  | EvGroupFanoutEdited edit_fanout_job "fanout_envelope list"
  | EvMessageDeleted deleted_event "uuid list"
  | EvMessageDeletedGroup deleted_event
  | EvReaction reaction_payload "uuid list"
  | EvTombstonedPlatform tombstoned_event
  | EvError string string

datatype publication =
    PubUserKicked uuid string time
  | PubMessageTombstoned tombstoned_event

text \<open>The keys of Redis: the cached member sets of groups and reaction counts of messages, the counters, and the
  socket registry, whose entries carry the time at which they expire.\<close>

record redis_store =
  r_groupMembers :: "uuid \<Rightarrow> uuid list option"
  r_reactions :: "uuid \<Rightarrow> (string \<times> nat) list option"
  r_counters :: "string \<Rightarrow> nat"
  r_userSockets :: "uuid \<Rightarrow> (string list \<times> time) option"
  r_deviceSockets :: "uuid \<Rightarrow> (string list \<times> time) option"
  r_socketInfo :: "string \<Rightarrow> (uuid \<times> uuid \<times> time) option"

section \<open>The world and its environment\<close>

record world =
  w_db :: db
  w_supply :: nat
  w_envSeq :: int
  w_events :: "event list"
  w_jobs :: "job list"
  w_pubs :: "publication list"
  w_redis :: redis_store

type_synonym 'a svc = "(world, error, 'a) act"

text \<open>The configuration keys that the services read, absent when not set.\<close>

record config =
  REFRESH_TOKEN_TTL_DAYS :: "int option"
  REFRESH_REUSE_GRACE_SECONDS :: "int option"
  OTP_TTL_SECONDS :: "int option"
  OTP_RESEND_COOLDOWN_SECONDS :: "int option"
  OTP_MAX_ATTEMPTS :: "int option"
  OTP_LOCKOUT_SECONDS :: "int option"
  OTP_MOCK_CODE :: "string option"
  NODE_ENV :: "string option"
  TELEGRAM_BOT_USERNAME :: "string option"
  PHONE_HASH_PEPPER :: string
  MAX_ACTIVE_DEVICES :: "int option"
  PREKEY_MAX_TOTAL :: "int option"
  MEDIA_MAX_ATTACHMENTS_PER_MESSAGE :: "int option"
  ENABLE_MESSAGE_EDIT_DELETE_LIMIT :: "bool option"
  MESSAGE_EDIT_DELETE_LIMIT_HOURS :: "int option"
  SUSPENSION_APPEAL_URL :: "string option"
  WEBSOCKET_TICKET_TTL_SECONDS :: "int option"
  REPORTS_DAILY_LIMIT :: "int option"
  REPORTS_PER_IP_PER_MINUTE :: "int option"
  R2_PRESIGNED_GET_TTL_SECONDS :: "int option"
  PUSH_PROVIDER :: "string option"
  REPORT_RETENTION_DAYS :: "int option"
  DAILY_METRICS_RETENTION_DAYS :: "int option"
  MEDIA_PENDING_TIMEOUT_HOURS :: "int option"
  TELEGRAM_WEBHOOK_SECRET :: "string option"

definition default_config :: config where
  "default_config = \<lparr>REFRESH_TOKEN_TTL_DAYS = None, REFRESH_REUSE_GRACE_SECONDS = None,
     OTP_TTL_SECONDS = None, OTP_RESEND_COOLDOWN_SECONDS = None, OTP_MAX_ATTEMPTS = None,
     OTP_LOCKOUT_SECONDS = None, OTP_MOCK_CODE = None, NODE_ENV = None,
     TELEGRAM_BOT_USERNAME = None, PHONE_HASH_PEPPER = ''pepper'', MAX_ACTIVE_DEVICES = None,
     PREKEY_MAX_TOTAL = None, MEDIA_MAX_ATTACHMENTS_PER_MESSAGE = None,
     ENABLE_MESSAGE_EDIT_DELETE_LIMIT = None, MESSAGE_EDIT_DELETE_LIMIT_HOURS = None,
     SUSPENSION_APPEAL_URL = None, WEBSOCKET_TICKET_TTL_SECONDS = None,
     REPORTS_DAILY_LIMIT = None, REPORTS_PER_IP_PER_MINUTE = None,
     R2_PRESIGNED_GET_TTL_SECONDS = None, PUSH_PROVIDER = None, REPORT_RETENTION_DAYS = None,
     DAILY_METRICS_RETENTION_DAYS = None, MEDIA_PENDING_TIMEOUT_HOURS = None, TELEGRAM_WEBHOOK_SECRET = None\<rparr>"

text \<open>
  What one call of a service receives from outside: the clock (read once per call), the
  configuration, and the code that is not part of the repository: the generator of identifiers
  and random tokens, the hash functions, the signer of access tokens, and whether a queue accepts
  a job and Redis answers (\<open>None\<close>: it does; \<open>Some msg\<close>: the call rejects with that message).
\<close>

record env =
  now :: time
  cfg :: config
  mkId :: "nat \<Rightarrow> string"
  sha256 :: "string \<Rightarrow> string"
  hmacSha256 :: "string \<Rightarrow> string \<Rightarrow> string"
  signJwt :: "uuid \<Rightarrow> uuid \<Rightarrow> string"
  queueErr :: "queue_name \<Rightarrow> string option"
  redisErr :: "string option"

subsection \<open>Primitive actions on the world\<close>

definition dbget :: "(db \<Rightarrow> 'a) \<Rightarrow> 'a svc" where
  "dbget f = gets (\<lambda>w. f (w_db w))"

definition dbset :: "(db \<Rightarrow> db) \<Rightarrow> unit svc" where
  "dbset f = modify (\<lambda>w. w\<lparr>w_db := f (w_db w)\<rparr>)"

definition rollback :: "world \<Rightarrow> world \<Rightarrow> world" where
  "rollback old new = new\<lparr>w_db := w_db old\<rparr>"

definition tx :: "'a svc \<Rightarrow> 'a svc" where
  "tx m = transact rollback m"

definition fresh :: "env \<Rightarrow> string svc" where
  "fresh e = (\<lambda>w. (Inr (mkId e (w_supply w)), w\<lparr>w_supply := Suc (w_supply w)\<rparr>))"

definition next_env_seq :: "int svc" where
  "next_env_seq = (\<lambda>w. (Inr (w_envSeq w), w\<lparr>w_envSeq := w_envSeq w + 1\<rparr>))"

definition emit :: "event \<Rightarrow> unit svc" where
  "emit ev = modify (\<lambda>w. w\<lparr>w_events := w_events w @ [ev]\<rparr>)"

definition publish :: "env \<Rightarrow> publication \<Rightarrow> unit svc" where
  "publish e p = (case redisErr e of
     Some msg \<Rightarrow> throw (OtherError msg)
   | None \<Rightarrow> modify (\<lambda>w. w\<lparr>w_pubs := w_pubs w @ [p]\<rparr>))"

definition queue_add :: "env \<Rightarrow> job \<Rightarrow> unit svc" where
  "queue_add e j = (case queueErr e (queue_of j) of
     Some msg \<Rightarrow> throw (OtherError msg)
   | None \<Rightarrow> modify (\<lambda>w. w\<lparr>w_jobs := w_jobs w @ [j]\<rparr>))"

definition redis_set :: "env \<Rightarrow> (redis_store \<Rightarrow> redis_store) \<Rightarrow> unit svc" where
  "redis_set e f = (case redisErr e of
     Some msg \<Rightarrow> throw (OtherError msg)
   | None \<Rightarrow> modify (\<lambda>w. w\<lparr>w_redis := f (w_redis w)\<rparr>))"

definition redis_get :: "env \<Rightarrow> (redis_store \<Rightarrow> 'a) \<Rightarrow> 'a svc" where
  "redis_get e f = (case redisErr e of
     Some msg \<Rightarrow> throw (OtherError msg)
   | None \<Rightarrow> gets (\<lambda>w. f (w_redis w)))"

text \<open>\<open>.catch((error) => this.events.emit('error', ...))\<close>\<close>

definition catch_emit :: "string \<Rightarrow> unit svc \<Rightarrow> unit svc" where
  "catch_emit what m = catching m (\<lambda>err. emit (EvError what (error_message err)))"

text \<open>\<open>.catch(() => {})\<close> and handlers that only write to the log\<close>

definition catch_ignore :: "unit svc \<Rightarrow> unit svc" where
  "catch_ignore m = catching m (\<lambda>_. ret ())"

subsection \<open>How they run\<close>

lemma dbget_run [act_simps]: "dbget f w = (Inr (f (w_db w)), w)"
  by (simp add: dbget_def act_simps)

lemma dbset_run [act_simps]: "dbset f w = (Inr (), w\<lparr>w_db := f (w_db w)\<rparr>)"
  by (simp add: dbset_def act_simps)

lemma tx_run [act_simps]:
  "tx m w = (case m w of (Inl e, w') \<Rightarrow> (Inl e, w'\<lparr>w_db := w_db w\<rparr>) | (Inr x, w') \<Rightarrow> (Inr x, w'))"
  by (simp add: tx_def rollback_def act_simps split: prod.split sum.split)

lemma fresh_run [act_simps]: "fresh e w = (Inr (mkId e (w_supply w)), w\<lparr>w_supply := Suc (w_supply w)\<rparr>)"
  by (simp add: fresh_def)

lemma next_env_seq_run [act_simps]:
  "next_env_seq w = (Inr (w_envSeq w), w\<lparr>w_envSeq := w_envSeq w + 1\<rparr>)"
  by (simp add: next_env_seq_def)

lemma emit_run [act_simps]: "emit ev w = (Inr (), w\<lparr>w_events := w_events w @ [ev]\<rparr>)"
  by (simp add: emit_def act_simps)

lemma dbget_ok [ok_simps]: "dbget f w = (Inr y, w') \<longleftrightarrow> y = f (w_db w) \<and> w' = w"
  by (auto simp: act_simps)

lemma dbset_ok [ok_simps]: "dbset f w = (Inr y, w') \<longleftrightarrow> w' = w\<lparr>w_db := f (w_db w)\<rparr>"
  by (auto simp: act_simps)

lemma tx_ok [ok_simps]: "tx m w = (Inr y, w') \<longleftrightarrow> m w = (Inr y, w')"
  by (simp add: tx_def ok_simps)

lemma fresh_ok [ok_simps]:
  "fresh e w = (Inr y, w') \<longleftrightarrow> y = mkId e (w_supply w) \<and> w' = w\<lparr>w_supply := Suc (w_supply w)\<rparr>"
  by (auto simp: act_simps)

lemma next_env_seq_ok [ok_simps]:
  "next_env_seq w = (Inr y, w') \<longleftrightarrow> y = w_envSeq w \<and> w' = w\<lparr>w_envSeq := w_envSeq w + 1\<rparr>"
  by (auto simp: act_simps)

lemma emit_ok [ok_simps]: "emit ev w = (Inr y, w') \<longleftrightarrow> w' = w\<lparr>w_events := w_events w @ [ev]\<rparr>"
  by (auto simp: act_simps)

lemma dbget_err [err_simps]: "dbget f w = (Inl e, w') \<longleftrightarrow> False"
  by (simp add: act_simps)

lemma dbset_err [err_simps]: "dbset f w = (Inl e, w') \<longleftrightarrow> False"
  by (simp add: act_simps)

lemma fresh_err [err_simps]: "fresh e w = (Inl er, w') \<longleftrightarrow> False"
  by (simp add: act_simps)

lemma next_env_seq_err [err_simps]: "next_env_seq w = (Inl er, w') \<longleftrightarrow> False"
  by (simp add: act_simps)

lemma emit_err [err_simps]: "emit ev w = (Inl er, w') \<longleftrightarrow> False"
  by (simp add: act_simps)

lemma queue_add_ok [ok_simps]:
  "queue_add e j w = (Inr u, w') \<longleftrightarrow> queueErr e (queue_of j) = None \<and> w' = w\<lparr>w_jobs := w_jobs w @ [j]\<rparr>"
  by (auto simp: queue_add_def ok_simps split: option.split)

lemma queue_add_err [err_simps]:
  "queue_add e j w = (Inl er, w') \<longleftrightarrow> (\<exists>msg. queueErr e (queue_of j) = Some msg \<and> er = OtherError msg) \<and> w' = w"
  by (auto simp: queue_add_def err_simps split: option.split)

lemma publish_ok [ok_simps]:
  "publish e p w = (Inr u, w') \<longleftrightarrow> redisErr e = None \<and> w' = w\<lparr>w_pubs := w_pubs w @ [p]\<rparr>"
  by (auto simp: publish_def ok_simps split: option.split)

lemma redis_set_ok [ok_simps]:
  "redis_set e f w = (Inr u, w') \<longleftrightarrow> redisErr e = None \<and> w' = w\<lparr>w_redis := f (w_redis w)\<rparr>"
  by (auto simp: redis_set_def ok_simps split: option.split)

lemma redis_get_ok [ok_simps]:
  "redis_get e g w = (Inr y, w') \<longleftrightarrow> redisErr e = None \<and> y = g (w_redis w) \<and> w' = w"
  by (auto simp: redis_get_def ok_simps split: option.split)

text \<open>A failed transaction leaves the database as it was.\<close>

lemma tx_err_db: "tx m w = (Inl e, w') \<Longrightarrow> w_db w' = w_db w"
  by (auto simp: act_simps split: prod.splits sum.splits)

subsection \<open>Predicates on the database\<close>

text \<open>Most invariants speak of the database only.  \<open>kdb P m\<close>: the action keeps \<open>P\<close> of the database.\<close>

definition kdb :: "(db \<Rightarrow> bool) \<Rightarrow> 'a svc \<Rightarrow> bool" where
  "kdb P m \<longleftrightarrow> keeps (\<lambda>w. P (w_db w)) m"

named_theorems kdb_intros "introduction rules for database predicates that a service keeps"

lemma kdbD: "kdb P m \<Longrightarrow> P (w_db w) \<Longrightarrow> P (w_db (snd (m w)))"
  by (simp add: kdb_def keeps_def)

lemma kdb_result: "kdb P m \<Longrightarrow> P (w_db w) \<Longrightarrow> m w = (r, w') \<Longrightarrow> P (w_db w')"
  by (metis kdbD snd_conv)

lemma kdbI: "(\<And>w. P (w_db w) \<Longrightarrow> P (w_db (snd (m w)))) \<Longrightarrow> kdb P m"
  by (simp add: kdb_def keeps_def)

lemma kdb_ret [kdb_intros]: "kdb P (ret x)"
  unfolding kdb_def by (intro keeps_intros)

lemma kdb_throw [kdb_intros]: "kdb P (throw e)"
  unfolding kdb_def by (intro keeps_intros)

lemma kdb_ensure [kdb_intros]: "kdb P (ensure b e)"
  unfolding kdb_def by (intro keeps_intros)

lemma kdb_require [kdb_intros]: "kdb P (require x e)"
  unfolding kdb_def by (intro keeps_intros)

lemma kdb_gets [kdb_intros]: "kdb P (gets f)"
  unfolding kdb_def by (intro keeps_intros)

lemma kdb_dbget [kdb_intros]: "kdb P (dbget f)"
  unfolding kdb_def dbget_def by (intro keeps_intros)

lemma kdb_fresh [kdb_intros]: "kdb P (fresh e)"
  by (auto simp: act_simps intro: kdbI)

lemma kdb_next_env_seq [kdb_intros]: "kdb P next_env_seq"
  by (auto simp: act_simps intro: kdbI)

lemma kdb_emit [kdb_intros]: "kdb P (emit ev)"
  by (auto simp: act_simps intro: kdbI)

lemma kdb_publish [kdb_intros]: "kdb P (publish e p)"
  by (auto simp: act_simps publish_def split: option.split intro: kdbI)

lemma kdb_queue_add [kdb_intros]: "kdb P (queue_add e j)"
  by (auto simp: act_simps queue_add_def split: option.split intro: kdbI)

lemma kdb_redis_set [kdb_intros]: "kdb P (redis_set e f)"
  by (auto simp: act_simps redis_set_def split: option.split intro: kdbI)

lemma kdb_redis_get [kdb_intros]: "kdb P (redis_get e f)"
  by (auto simp: act_simps redis_get_def split: option.split intro: kdbI)

lemma kdb_bnd [kdb_intros]: "kdb P m \<Longrightarrow> (\<And>x. kdb P (f x)) \<Longrightarrow> kdb P (bnd m f)"
  unfolding kdb_def by (intro keeps_intros)

lemma kdb_thn [kdb_intros]: "kdb P m \<Longrightarrow> kdb P k \<Longrightarrow> kdb P (thn m k)"
  unfolding kdb_def by (intro keeps_intros)

lemma kdb_catching [kdb_intros]: "kdb P m \<Longrightarrow> (\<And>e. kdb P (h e)) \<Longrightarrow> kdb P (catching m h)"
  unfolding kdb_def by (intro keeps_intros)

lemma kdb_catch_emit [kdb_intros]: "kdb P m \<Longrightarrow> kdb P (catch_emit s m)"
  unfolding catch_emit_def by (intro kdb_intros)

lemma kdb_catch_ignore [kdb_intros]: "kdb P m \<Longrightarrow> kdb P (catch_ignore m)"
  unfolding catch_ignore_def by (intro kdb_intros)

lemma kdb_whenA [kdb_intros]: "(b \<Longrightarrow> kdb P m) \<Longrightarrow> kdb P (whenA b m)"
  unfolding kdb_def by (intro keeps_intros)

lemma kdb_if [kdb_intros]:
  "(b \<Longrightarrow> kdb P m) \<Longrightarrow> (\<not> b \<Longrightarrow> kdb P k) \<Longrightarrow> kdb P (if b then m else k)"
  by simp

lemma kdb_option [kdb_intros]:
  "(x = None \<Longrightarrow> kdb P m) \<Longrightarrow> (\<And>v. x = Some v \<Longrightarrow> kdb P (k v)) \<Longrightarrow>
   kdb P (case x of None \<Rightarrow> m | Some v \<Rightarrow> k v)"
  by (cases x) auto

lemma kdb_let [kdb_intros]: "kdb P (f x) \<Longrightarrow> kdb P (let y = x in f y)"
  by simp

lemma kdb_pair [kdb_intros]:
  "(\<And>a b. p = (a, b) \<Longrightarrow> kdb P (f a b)) \<Longrightarrow> kdb P (case p of (a, b) \<Rightarrow> f a b)"
  by (cases p) auto

lemma kdb_for_each [kdb_intros]:
  "(\<And>x. x \<in> set xs \<Longrightarrow> kdb P (f x)) \<Longrightarrow> kdb P (for_each xs f)"
  unfolding kdb_def by (rule keeps_for_each)

lemma kdb_map_act [kdb_intros]:
  "(\<And>x. x \<in> set xs \<Longrightarrow> kdb P (f x)) \<Longrightarrow> kdb P (map_act f xs)"
  unfolding kdb_def by (rule keeps_map_act)

text \<open>Writes and transactions have side conditions, so they are not in the collection.\<close>

lemma kdb_dbset: "(\<And>d. P d \<Longrightarrow> P (f d)) \<Longrightarrow> kdb P (dbset f)"
  by (auto simp: act_simps intro: kdbI)

lemma kdb_tx: "(\<And>w x w'. P (w_db w) \<Longrightarrow> m w = (Inr x, w') \<Longrightarrow> P (w_db w')) \<Longrightarrow> kdb P (tx m)"
  by (rule kdbI) (auto simp: act_simps split: prod.splits sum.splits)

lemma kdb_tx_body: "kdb P m \<Longrightarrow> kdb P (tx m)"
  by (rule kdb_tx) (auto dest: kdb_result)

subsection \<open>Actions that send nothing\<close>

text \<open>\<open>quiet m\<close>: whatever its outcome, the action emits no event, adds no job and publishes nothing.\<close>

definition quiet :: "'a svc \<Rightarrow> bool" where
  "quiet m \<longleftrightarrow> (\<forall>ev jb pb. keeps (\<lambda>w. w_events w = ev \<and> w_jobs w = jb \<and> w_pubs w = pb) m)"

named_theorems quiet_intros "introduction rules for actions that send nothing"

lemma quietI:
  "(\<And>w. w_events (snd (m w)) = w_events w \<and> w_jobs (snd (m w)) = w_jobs w \<and> w_pubs (snd (m w)) = w_pubs w) \<Longrightarrow> quiet m"
  by (simp add: quiet_def keeps_def)

lemma quiet_result:
  assumes "quiet m" and "m w = (r, w')"
  shows "w_events w' = w_events w" "w_jobs w' = w_jobs w" "w_pubs w' = w_pubs w"
  using assms keeps_result [of "\<lambda>x. w_events x = w_events w \<and> w_jobs x = w_jobs w \<and> w_pubs x = w_pubs w" m w r w']
  by (auto simp: quiet_def)

lemma quiet_basic [quiet_intros]:
  "quiet (ret x)" "quiet (throw er)" "quiet (ensure b er)" "quiet (require o' er)" "quiet (gets f)" "quiet (dbget f')"
  unfolding quiet_def dbget_def by (intro allI keeps_intros)+

lemma quiet_writes [quiet_intros]:
  "quiet (dbset g)" "quiet (fresh e)" "quiet next_env_seq"
  by (rule quietI; simp add: act_simps)+

lemma quiet_bnd [quiet_intros]: "quiet m \<Longrightarrow> (\<And>x. quiet (f x)) \<Longrightarrow> quiet (bnd m f)"
  unfolding quiet_def by (blast intro: keeps_bnd)

lemma quiet_thn [quiet_intros]: "quiet m \<Longrightarrow> quiet k \<Longrightarrow> quiet (thn m k)"
  unfolding quiet_def by (blast intro: keeps_thn)

lemma quiet_catching [quiet_intros]: "quiet m \<Longrightarrow> (\<And>x. quiet (h x)) \<Longrightarrow> quiet (catching m h)"
  unfolding quiet_def by (blast intro: keeps_catching)

lemma quiet_whenA [quiet_intros]: "(b \<Longrightarrow> quiet m) \<Longrightarrow> quiet (whenA b m)"
  unfolding quiet_def by (blast intro: keeps_whenA)

lemma quiet_if [quiet_intros]: "(b \<Longrightarrow> quiet m) \<Longrightarrow> (\<not> b \<Longrightarrow> quiet k) \<Longrightarrow> quiet (if b then m else k)"
  by simp

lemma quiet_option [quiet_intros]:
  "(x = None \<Longrightarrow> quiet m) \<Longrightarrow> (\<And>v. x = Some v \<Longrightarrow> quiet (k v)) \<Longrightarrow> quiet (case x of None \<Rightarrow> m | Some v \<Rightarrow> k v)"
  by (cases x) auto

lemma quiet_let [quiet_intros]: "quiet (f x) \<Longrightarrow> quiet (let y = x in f y)"
  by simp

lemma quiet_pair [quiet_intros]: "(\<And>a b. p = (a, b) \<Longrightarrow> quiet (f a b)) \<Longrightarrow> quiet (case p of (a, b) \<Rightarrow> f a b)"
  by (cases p) auto

lemma quiet_for_each [quiet_intros]: "(\<And>x. x \<in> set xs \<Longrightarrow> quiet (f x)) \<Longrightarrow> quiet (for_each xs f)"
  unfolding quiet_def by (blast intro: keeps_for_each)

lemma quiet_map_act [quiet_intros]: "(\<And>x. x \<in> set xs \<Longrightarrow> quiet (f x)) \<Longrightarrow> quiet (map_act f xs)"
  unfolding quiet_def by (blast intro: keeps_map_act)

lemma quiet_tx [quiet_intros]: "quiet m \<Longrightarrow> quiet (tx m)"
  by (rule quietI) (auto simp: act_simps split: prod.split sum.split dest: quiet_result)

text \<open>A transaction that sends nothing inside has no effect at all when it fails, except on the
  generators.\<close>

lemma quiet_tx_failed:
  assumes "quiet m" and "tx m w = (Inl er, w')"
  shows "w_db w' = w_db w" "w_events w' = w_events w" "w_jobs w' = w_jobs w" "w_pubs w' = w_pubs w"
  using tx_err_db [OF assms(2)] quiet_result [OF quiet_tx [OF assms(1)] assms(2)] by auto

end
