(* ===== verification/Store.thy ===== *)
theory Store
  imports Schema
begin

text \<open>
  Lookups by the keys of the schema, and the row insertions with the constraints that
  \<open>prisma/schema.prisma\<close> declares (\<open>@id\<close>, \<open>@@unique\<close>, foreign keys): an insertion that violates a
  unique key is rejected with \<open>P2002\<close>, one that violates a foreign key with \<open>P2003\<close>.  The message
  invariants of the schema and of the services are stated here, since several services write
  messages.
\<close>

section \<open>Lookups\<close>

definition find_user :: "db \<Rightarrow> uuid \<Rightarrow> user_row option" where
  "find_user d i = List.find (\<lambda>u. u_id u = i) (users d)"

definition find_device :: "db \<Rightarrow> uuid \<Rightarrow> device_row option" where
  "find_device d i = List.find (\<lambda>x. d_id x = i) (devices d)"

definition find_thread :: "db \<Rightarrow> uuid \<Rightarrow> thread_row option" where
  "find_thread d i = List.find (\<lambda>t. th_id t = i) (directThreads d)"

definition find_thread_by_pair :: "db \<Rightarrow> uuid \<Rightarrow> uuid \<Rightarrow> thread_row option" where
  "find_thread_by_pair d a b = List.find (\<lambda>t. th_userAId t = a \<and> th_userBId t = b) (directThreads d)"

definition find_message :: "db \<Rightarrow> uuid \<Rightarrow> message_row option" where
  "find_message d i = List.find (\<lambda>m. m_id m = i) (messages d)"

definition find_message_by_key :: "db \<Rightarrow> uuid \<Rightarrow> string \<Rightarrow> message_row option" where
  "find_message_by_key d dev key =
     List.find (\<lambda>m. m_senderDeviceId m = dev \<and> m_idempotencyKey m = key) (messages d)"

definition find_member :: "db \<Rightarrow> uuid \<Rightarrow> uuid \<Rightarrow> group_member_row option" where
  "find_member d g u = List.find (\<lambda>x. gm_groupId x = g \<and> gm_userId x = u) (groupMembers d)"

definition find_envelope :: "db \<Rightarrow> uuid \<Rightarrow> uuid \<Rightarrow> envelope_row option" where
  "find_envelope d mid dev =
     List.find (\<lambda>x. e_messageId x = mid \<and> e_recipientDeviceId x = dev) (messageEnvelopes d)"

definition envelopes_of :: "db \<Rightarrow> uuid \<Rightarrow> envelope_row list" where
  "envelopes_of d mid = filter (\<lambda>x. e_messageId x = mid) (messageEnvelopes d)"

definition media_of :: "db \<Rightarrow> uuid \<Rightarrow> media_row list" where
  "media_of d mid = order_asc md_createdAt (filter (\<lambda>x. md_messageId x = Some mid) (messageMedia d))"

lemmas find_defs = find_user_def find_device_def find_thread_def find_thread_by_pair_def
  find_message_def find_message_by_key_def find_member_def find_envelope_def

lemma find_messageD: "find_message d i = Some m \<Longrightarrow> m \<in> set (messages d) \<and> m_id m = i"
  by (auto simp: find_message_def dest: find_Some_in)

lemma find_message_id: "find_message d i = Some m \<Longrightarrow> i \<in> m_id ` set (messages d)"
  by (metis find_messageD image_eqI)

lemma find_userD: "find_user d i = Some u \<Longrightarrow> u \<in> set (users d) \<and> u_id u = i"
  by (auto simp: find_user_def dest: find_Some_in)

lemma find_memberD: "find_member d g u = Some m \<Longrightarrow> m \<in> set (groupMembers d) \<and> gm_groupId m = g \<and> gm_userId m = u"
  by (auto simp: find_member_def dest: find_Some_in)

lemma find_envelopeD: "find_envelope d mid dev = Some x \<Longrightarrow> x \<in> set (messageEnvelopes d) \<and> e_messageId x = mid \<and> e_recipientDeviceId x = dev"
  by (auto simp: find_envelope_def dest: find_Some_in)

lemma find_threadD: "find_thread d t = Some th \<Longrightarrow> th \<in> set (directThreads d) \<and> th_id th = t"
  by (auto simp: find_thread_def dest: find_Some_in)

section \<open>Insertions with their constraints\<close>

definition message_unique_ok :: "db \<Rightarrow> message_row \<Rightarrow> bool" where
  "message_unique_ok d m = (\<not> exists_where (\<lambda>x.
       m_id x = m_id m
     \<or> (m_senderDeviceId x = m_senderDeviceId m \<and> m_idempotencyKey x = m_idempotencyKey m)
     \<or> (m_threadId x \<noteq> None \<and> m_threadId x = m_threadId m \<and> m_threadSequence x = m_threadSequence m)
     \<or> (m_groupId x \<noteq> None \<and> m_groupId x = m_groupId m \<and> m_threadSequence x = m_threadSequence m))
     (messages d))"

definition message_fk_ok :: "db \<Rightarrow> message_row \<Rightarrow> bool" where
  "message_fk_ok d m =
     ((case m_threadId m of None \<Rightarrow> True | Some t \<Rightarrow> find_thread d t \<noteq> None)
    \<and> (case m_groupId m of None \<Rightarrow> True | Some g \<Rightarrow> exists_where (\<lambda>x. g_id x = g) (groups d))
    \<and> find_user d (m_senderUserId m) \<noteq> None
    \<and> find_device d (m_senderDeviceId m) \<noteq> None
    \<and> (case m_replyToMessageId m of None \<Rightarrow> True | Some r \<Rightarrow> find_message d r \<noteq> None))"

definition create_message :: "message_row \<Rightarrow> unit svc" where
  "create_message m = bnd (dbget id) (\<lambda>d.
     thn (ensure (message_unique_ok d m) (PrismaError ''P2002''))
    (thn (ensure (message_fk_ok d m) (PrismaError ''P2003''))
         (dbset (messages_update (\<lambda>ms. ms @ [m])))))"

definition new_envelope :: "env \<Rightarrow> uuid \<Rightarrow> int \<Rightarrow> uuid \<Rightarrow> uuid \<Rightarrow> uuid \<Rightarrow> json \<Rightarrow> envelope_row" where
  "new_envelope e i sq mid usr dev ct = \<lparr>e_id = i, e_messageId = mid, e_recipientUserId = usr,
     e_recipientDeviceId = dev, e_ciphertext = ct, e_status = PENDING, e_deliveredAt = None,
     e_readAt = None, e_envelopeSequence = sq, e_envelopeVersion = 1, e_createdAt = now e,
     e_updatedAt = now e\<rparr>"

definition create_envelope :: "env \<Rightarrow> uuid \<Rightarrow> uuid \<Rightarrow> uuid \<Rightarrow> json \<Rightarrow> envelope_row svc" where
  "create_envelope e mid usr dev ct =
     bnd (fresh e) (\<lambda>i. bnd next_env_seq (\<lambda>sq. bnd (dbget id) (\<lambda>d.
       let r = new_envelope e i sq mid usr dev ct in
       thn (ensure (find_envelope d mid dev = None) (PrismaError ''P2002''))
      (thn (ensure (find_device d dev \<noteq> None) (PrismaError ''P2003''))
      (thn (dbset (messageEnvelopes_update (\<lambda>xs. xs @ [r]))) (ret r))))))"

definition create_thread :: "env \<Rightarrow> uuid \<Rightarrow> uuid \<Rightarrow> thread_row svc" where
  "create_thread e a b = bnd (fresh e) (\<lambda>i. bnd (dbget id) (\<lambda>d.
     let t = \<lparr>th_id = i, th_userAId = a, th_userBId = b, th_latestSequence = 0,
              th_createdAt = now e, th_updatedAt = now e\<rparr> in
     thn (ensure (\<not> exists_where (\<lambda>x. th_id x = i \<or> (th_userAId x = a \<and> th_userBId x = b)) (directThreads d))
           (PrismaError ''P2002''))
    (thn (ensure (find_user d a \<noteq> None \<and> find_user d b \<noteq> None) (PrismaError ''P2003''))
    (thn (dbset (directThreads_update (\<lambda>ts. ts @ [t]))) (ret t)))))"

definition new_message ::
  "env \<Rightarrow> uuid \<Rightarrow> uuid option \<Rightarrow> uuid option \<Rightarrow> uuid \<Rightarrow> uuid \<Rightarrow> string \<Rightarrow> int \<Rightarrow> MessageContentType \<Rightarrow>
   uuid option \<Rightarrow> bool \<Rightarrow> message_row" where
  "new_message e i t g usr dev key sq ct rep fwd = \<lparr>m_id = i, m_threadId = t, m_groupId = g,
     m_senderUserId = usr, m_senderDeviceId = dev, m_idempotencyKey = key, m_threadSequence = sq,
     m_contentType = ct, m_replyToMessageId = rep, m_forwarded = fwd, m_createdAt = now e,
     m_deletedAt = None, m_editedAt = None, m_lastEditIdempotencyKey = None\<rparr>"

lemma new_message_simps [simp]:
  "m_id (new_message e i t g usr dev key sq ct rep fwd) = i"
  "m_threadId (new_message e i t g usr dev key sq ct rep fwd) = t"
  "m_groupId (new_message e i t g usr dev key sq ct rep fwd) = g"
  "m_senderUserId (new_message e i t g usr dev key sq ct rep fwd) = usr"
  "m_senderDeviceId (new_message e i t g usr dev key sq ct rep fwd) = dev"
  "m_idempotencyKey (new_message e i t g usr dev key sq ct rep fwd) = key"
  "m_threadSequence (new_message e i t g usr dev key sq ct rep fwd) = sq"
  "m_contentType (new_message e i t g usr dev key sq ct rep fwd) = ct"
  "m_replyToMessageId (new_message e i t g usr dev key sq ct rep fwd) = rep"
  "m_forwarded (new_message e i t g usr dev key sq ct rep fwd) = fwd"
  "m_deletedAt (new_message e i t g usr dev key sq ct rep fwd) = None"
  "m_editedAt (new_message e i t g usr dev key sq ct rep fwd) = None"
  "m_lastEditIdempotencyKey (new_message e i t g usr dev key sq ct rep fwd) = None"
  by (simp_all add: new_message_def)

lemma new_envelope_simps [simp]:
  "e_id (new_envelope e i sq mid usr dev ct) = i"
  "e_messageId (new_envelope e i sq mid usr dev ct) = mid"
  "e_recipientUserId (new_envelope e i sq mid usr dev ct) = usr"
  "e_recipientDeviceId (new_envelope e i sq mid usr dev ct) = dev"
  "e_ciphertext (new_envelope e i sq mid usr dev ct) = ct"
  "e_status (new_envelope e i sq mid usr dev ct) = PENDING"
  "e_envelopeVersion (new_envelope e i sq mid usr dev ct) = 1"
  by (simp_all add: new_envelope_def)

lemma create_message_ok [ok_simps]:
  "create_message m w = (Inr u, w') \<longleftrightarrow>
     message_unique_ok (w_db w) m \<and> message_fk_ok (w_db w) m \<and>
     w' = w\<lparr>w_db := messages_update (\<lambda>ms. ms @ [m]) (w_db w)\<rparr>"
  by (auto simp: create_message_def ok_simps)

lemma create_envelope_ok:
  "create_envelope e mid usr dev ct w = (Inr r, w') \<longleftrightarrow>
     r = new_envelope e (mkId e (w_supply w)) (w_envSeq w) mid usr dev ct \<and>
     find_envelope (w_db w) mid dev = None \<and> find_device (w_db w) dev \<noteq> None \<and>
     w' = w\<lparr>w_db := messageEnvelopes_update (\<lambda>xs. xs @ [r]) (w_db w),
            w_supply := Suc (w_supply w), w_envSeq := w_envSeq w + 1\<rparr>"
  by (auto simp: create_envelope_def ok_simps Let_def)

section \<open>Invariants of the message tables\<close>

definition thread_seqs :: "db \<Rightarrow> uuid \<Rightarrow> int list" where
  "thread_seqs d t = map m_threadSequence (filter (\<lambda>m. m_threadId m = Some t) (messages d))"

definition group_seqs :: "db \<Rightarrow> uuid \<Rightarrow> int list" where
  "group_seqs d g = map m_threadSequence (filter (\<lambda>m. m_groupId m = Some g) (messages d))"

text \<open>Every message has its own id, a device never uses an idempotency key twice, and a message
  belongs to one thread or to one group, never to both.\<close>

definition key_inv :: "db \<Rightarrow> bool" where
  "key_inv d \<longleftrightarrow> distinct (map m_id (messages d))
     \<and> distinct (map (\<lambda>m. (m_senderDeviceId m, m_idempotencyKey m)) (messages d))
     \<and> (\<forall>m\<in>set (messages d). (m_threadId m = None) \<noteq> (m_groupId m = None))"

text \<open>The messages of a direct thread are numbered \<open>1, 2, \<dots>, latestSequence\<close> in the order in which
  they were stored: no gap, no repetition.  Threads have one row per pair of users, in canonical
  order.\<close>

definition thread_inv :: "db \<Rightarrow> bool" where
  "thread_inv d \<longleftrightarrow> distinct (map th_id (directThreads d))
     \<and> distinct (map (\<lambda>t. (th_userAId t, th_userBId t)) (directThreads d))
     \<and> (\<forall>t\<in>set (directThreads d). th_userAId t < th_userBId t \<and> 0 \<le> th_latestSequence t
          \<and> thread_seqs d (th_id t) = [1..th_latestSequence t])
     \<and> (\<forall>m\<in>set (messages d). \<forall>t. m_threadId m = Some t \<longrightarrow> t \<in> th_id ` set (directThreads d))"

text \<open>The messages of a group are numbered \<open>1, 2, \<dots>\<close> in the order in which they were stored.\<close>

definition group_inv :: "db \<Rightarrow> bool" where
  "group_inv d \<longleftrightarrow> (\<forall>g. group_seqs d g = [1..int (length (group_seqs d g))])"

text \<open>Replies are one level deep and stay in their conversation.\<close>

definition reply_inv :: "db \<Rightarrow> bool" where
  "reply_inv d \<longleftrightarrow> (\<forall>m\<in>set (messages d). \<forall>r. m_replyToMessageId m = Some r \<longrightarrow>
     (\<exists>p\<in>set (messages d). m_id p = r \<and> m_replyToMessageId p = None
        \<and> m_threadId p = m_threadId m \<and> m_groupId p = m_groupId m))"

text \<open>A device has at most one envelope of a message, and an envelope belongs to a stored message.\<close>

definition envelope_inv :: "db \<Rightarrow> bool" where
  "envelope_inv d \<longleftrightarrow>
     distinct (map (\<lambda>x. (e_messageId x, e_recipientDeviceId x)) (messageEnvelopes d))
     \<and> (\<forall>x\<in>set (messageEnvelopes d). e_messageId x \<in> m_id ` set (messages d))"

definition chat_inv :: "db \<Rightarrow> bool" where
  "chat_inv d \<longleftrightarrow> key_inv d \<and> thread_inv d \<and> group_inv d \<and> reply_inv d \<and> envelope_inv d"

lemmas chat_inv_defs = key_inv_def thread_inv_def group_inv_def reply_inv_def envelope_inv_def
  thread_seqs_def group_seqs_def

subsection \<open>Writes that keep them\<close>

text \<open>The invariants read three tables, and of the message and envelope rows only the columns that
  are never rewritten.\<close>

definition msg_core :: "message_row \<Rightarrow> uuid \<times> uuid option \<times> uuid option \<times> uuid \<times> string \<times> int \<times> uuid option" where
  "msg_core m = (m_id m, m_threadId m, m_groupId m, m_senderDeviceId m, m_idempotencyKey m,
     m_threadSequence m, m_replyToMessageId m)"

definition env_core :: "envelope_row \<Rightarrow> uuid \<times> uuid" where
  "env_core x = (e_messageId x, e_recipientDeviceId x)"

definition same_chat :: "db \<Rightarrow> db \<Rightarrow> bool" where
  "same_chat d d' \<longleftrightarrow> map msg_core (messages d') = map msg_core (messages d)
     \<and> map env_core (messageEnvelopes d') = map env_core (messageEnvelopes d)
     \<and> directThreads d' = directThreads d"

lemma map_via_core:
  assumes "map f xs = map f ys" and "\<And>x. g x = h (f x)"
  shows "map g xs = map g ys"
proof -
  have "g = h \<circ> f" using assms(2) by (auto simp: fun_eq_iff)
  then show ?thesis using arg_cong [OF assms(1), of "map h"] by simp
qed

lemma filter_via_core:
  "map f xs = map f ys \<Longrightarrow> (\<And>x. p x = q (f x)) \<Longrightarrow> map f (filter p xs) = map f (filter p ys)"
proof (induction xs arbitrary: ys)
  case Nil
  then show ?case by simp
next
  case (Cons x xs)
  then obtain z zs where "ys = z # zs" "f z = f x" "map f xs = map f zs"
    by (auto simp: Cons_eq_map_conv)
  with Cons.IH [of zs] Cons.prems(2) show ?case by simp
qed

lemma image_via_core: "map f xs = map f ys \<Longrightarrow> x \<in> set xs \<Longrightarrow> \<exists>y\<in>set ys. f y = f x"
  by (metis image_eqI image_iff list.set_map)

lemma msg_core_simps:
  "m_id m = fst (msg_core m)" "m_threadId m = fst (snd (msg_core m))"
  "m_groupId m = fst (snd (snd (msg_core m)))"
  "m_senderDeviceId m = fst (snd (snd (snd (msg_core m))))"
  "m_idempotencyKey m = fst (snd (snd (snd (snd (msg_core m)))))"
  "m_threadSequence m = fst (snd (snd (snd (snd (snd (msg_core m))))))"
  "m_replyToMessageId m = snd (snd (snd (snd (snd (snd (msg_core m))))))"
  by (simp_all add: msg_core_def)

lemma same_chat_seqs:
  assumes "same_chat d d'"
  shows "thread_seqs d' t = thread_seqs d t" "group_seqs d' g = group_seqs d g"
proof -
  have *: "map msg_core (messages d') = map msg_core (messages d)"
    using assms by (simp add: same_chat_def)
  have "map msg_core (filter (\<lambda>m. m_threadId m = Some t) (messages d'))
      = map msg_core (filter (\<lambda>m. m_threadId m = Some t) (messages d))"
    by (rule filter_via_core [OF *, where q = "\<lambda>c. fst (snd c) = Some t"]) (simp add: msg_core_def)
  then show "thread_seqs d' t = thread_seqs d t"
    unfolding thread_seqs_def by (rule map_via_core) (rule msg_core_simps(6))
  have "map msg_core (filter (\<lambda>m. m_groupId m = Some g) (messages d'))
      = map msg_core (filter (\<lambda>m. m_groupId m = Some g) (messages d))"
    by (rule filter_via_core [OF *, where q = "\<lambda>c. fst (snd (snd c)) = Some g"]) (simp add: msg_core_def)
  then show "group_seqs d' g = group_seqs d g"
    unfolding group_seqs_def by (rule map_via_core) (rule msg_core_simps(6))
qed

lemma same_chat_messages:
  assumes "same_chat d d'"
  shows "m \<in> set (messages d') \<Longrightarrow> \<exists>n\<in>set (messages d). msg_core n = msg_core m"
    and "n \<in> set (messages d) \<Longrightarrow> \<exists>m\<in>set (messages d'). msg_core m = msg_core n"
  using assms image_via_core [of msg_core "messages d'" "messages d"]
    image_via_core [of msg_core "messages d" "messages d'"] by (auto simp: same_chat_def)

lemma same_chat_inv:
  assumes "same_chat d d'" and "chat_inv d"
  shows "chat_inv d'"
proof -
  have ms: "map msg_core (messages d') = map msg_core (messages d)"
    and es: "map env_core (messageEnvelopes d') = map env_core (messageEnvelopes d)"
    and ts: "directThreads d' = directThreads d"
    using assms(1) by (auto simp: same_chat_def)
  have ids: "map m_id (messages d') = map m_id (messages d)"
    by (rule map_via_core [OF ms]) (rule msg_core_simps(1))
  have keys: "map (\<lambda>m. (m_senderDeviceId m, m_idempotencyKey m)) (messages d')
      = map (\<lambda>m. (m_senderDeviceId m, m_idempotencyKey m)) (messages d)"
    by (rule map_via_core [OF ms, where h = "\<lambda>c. (fst (snd (snd (snd c))), fst (snd (snd (snd (snd c)))))"])
      (simp add: msg_core_def)
  have envs: "map (\<lambda>x. (e_messageId x, e_recipientDeviceId x)) (messageEnvelopes d')
      = map (\<lambda>x. (e_messageId x, e_recipientDeviceId x)) (messageEnvelopes d)"
    using es by (simp add: env_core_def [abs_def])
  have "key_inv d'" unfolding key_inv_def
  proof (intro conjI ballI)
    show "distinct (map m_id (messages d'))"
      using assms(2) by (simp add: ids chat_inv_def key_inv_def)
    show "distinct (map (\<lambda>m. (m_senderDeviceId m, m_idempotencyKey m)) (messages d'))"
      using assms(2) by (simp only: keys chat_inv_def key_inv_def)
    fix m assume "m \<in> set (messages d')"
    then obtain n where n: "n \<in> set (messages d)" "msg_core n = msg_core m"
      using same_chat_messages(1) [OF assms(1)] by blast
    then have "(m_threadId n = None) \<noteq> (m_groupId n = None)"
      using assms(2) by (simp add: chat_inv_def key_inv_def)
    with n(2) show "(m_threadId m = None) \<noteq> (m_groupId m = None)" by (simp add: msg_core_def)
  qed
  moreover have "thread_inv d'" unfolding thread_inv_def ts
  proof (intro conjI)
    show "distinct (map th_id (directThreads d))"
      "distinct (map (\<lambda>t. (th_userAId t, th_userBId t)) (directThreads d))"
      "\<forall>t\<in>set (directThreads d). th_userAId t < th_userBId t \<and> 0 \<le> th_latestSequence t
          \<and> thread_seqs d' (th_id t) = [1..th_latestSequence t]"
      using assms(2) by (simp_all add: chat_inv_def thread_inv_def same_chat_seqs [OF assms(1)])
    show "\<forall>m\<in>set (messages d'). \<forall>t. m_threadId m = Some t \<longrightarrow> t \<in> th_id ` set (directThreads d)"
    proof (intro ballI allI impI)
      fix m t assume "m \<in> set (messages d')" "m_threadId m = Some t"
      moreover from this obtain n where "n \<in> set (messages d)" "msg_core n = msg_core m"
        using same_chat_messages(1) [OF assms(1)] by blast
      ultimately show "t \<in> th_id ` set (directThreads d)"
        using assms(2) by (auto simp: chat_inv_def thread_inv_def msg_core_def)
    qed
  qed
  moreover have "group_inv d'"
    using assms(2) by (simp add: chat_inv_def group_inv_def same_chat_seqs [OF assms(1)])
  moreover have "reply_inv d'" unfolding reply_inv_def
  proof (intro ballI allI impI)
    fix m r assume m: "m \<in> set (messages d')" "m_replyToMessageId m = Some r"
    then obtain n where n: "n \<in> set (messages d)" "msg_core n = msg_core m"
      using same_chat_messages(1) [OF assms(1)] by blast
    with m have "m_replyToMessageId n = Some r" by (simp add: msg_core_def)
    with n(1) assms(2) obtain p where p: "p \<in> set (messages d)" "m_id p = r"
        "m_replyToMessageId p = None" "m_threadId p = m_threadId n" "m_groupId p = m_groupId n"
      unfolding chat_inv_def reply_inv_def by blast
    from same_chat_messages(2) [OF assms(1) p(1)] obtain q
      where q: "q \<in> set (messages d')" "msg_core q = msg_core p" by blast
    have "m_id q = r \<and> m_replyToMessageId q = None \<and> m_threadId q = m_threadId m \<and> m_groupId q = m_groupId m"
      using p q(2) n(2) by (simp add: msg_core_def)
    with q(1) show "\<exists>p\<in>set (messages d'). m_id p = r \<and> m_replyToMessageId p = None \<and>
        m_threadId p = m_threadId m \<and> m_groupId p = m_groupId m" by blast
  qed
  moreover have "envelope_inv d'"
  proof -
    have "e_messageId ` set (messageEnvelopes d') = e_messageId ` set (messageEnvelopes d)"
      using arg_cong [OF envs, of "\<lambda>xs. set (map fst xs)"] by (simp add: image_image)
    moreover have "m_id ` set (messages d') = m_id ` set (messages d)"
      using arg_cong [OF ids, of set] by simp
    ultimately show ?thesis
      using assms(2) by (fastforce simp: chat_inv_def envelope_inv_def envs)
  qed
  ultimately show ?thesis by (simp add: chat_inv_def)
qed

text \<open>A write to other tables, and a rewrite of other columns, keeps the chat invariant.\<close>

lemma same_chat_other:
  "messages (f d) = messages d \<Longrightarrow> messageEnvelopes (f d) = messageEnvelopes d \<Longrightarrow>
   directThreads (f d) = directThreads d \<Longrightarrow> same_chat d (f d)"
  by (simp add: same_chat_def)

lemma same_chat_update_messages:
  "(\<And>m. p m \<Longrightarrow> msg_core (f m) = msg_core m) \<Longrightarrow> same_chat d (messages_update (update_where p f) d)"
  by (simp add: same_chat_def map_update_where)

lemma same_chat_update_envelopes:
  "(\<And>m. p m \<Longrightarrow> env_core (f m) = env_core m) \<Longrightarrow>
   same_chat d (messageEnvelopes_update (update_where p f) d)"
  by (simp add: same_chat_def map_update_where)

lemma kdb_same_chat: "(\<And>d. same_chat d (f d)) \<Longrightarrow> kdb chat_inv (dbset f)"
  by (rule kdb_dbset) (rule same_chat_inv)

subsection \<open>Appending a message\<close>

lemma thread_seqs_append:
  "thread_seqs (messages_update (\<lambda>ms. ms @ [m]) d) t =
     thread_seqs d t @ (if m_threadId m = Some t then [m_threadSequence m] else [])"
  by (simp add: thread_seqs_def)

lemma group_seqs_append:
  "group_seqs (messages_update (\<lambda>ms. ms @ [m]) d) t =
     group_seqs d t @ (if m_groupId m = Some t then [m_threadSequence m] else [])"
  by (simp add: group_seqs_def)

lemma upto_snoc: "0 \<le> n \<Longrightarrow> [1..n] @ [n + 1] = [1..n + (1::int)]"
  by (simp add: upto_rec2 [of 1 "n + 1"])

lemma thread_seqs_max: "thread_inv d \<Longrightarrow> t \<in> set (directThreads d) \<Longrightarrow>
  length (thread_seqs d (th_id t)) = nat (th_latestSequence t)"
  by (simp add: thread_inv_def)

lemma empty_chat_inv: "chat_inv empty_db"
  by (simp add: chat_inv_def chat_inv_defs empty_db_def)

end
