(* ===== verification/Util.thy ===== *)
theory Util
  imports Prelude
begin

text \<open>
  The helper functions of \<open>src/common/utils/crypto.util.ts\<close> and \<open>src/messages/thread.util.ts\<close>, and
  the string functions of the language that they and the services use.  Strings are sequences of
  ASCII characters.
\<close>

section \<open>String functions of the language\<close>

text \<open>\<open>s.padStart(n, '0')\<close>\<close>

definition padStart0 :: "nat \<Rightarrow> string \<Rightarrow> string" where
  "padStart0 n s = replicate (n - length s) (CHR ''0'') @ s"

definition is_space :: "char \<Rightarrow> bool" where
  "is_space c \<longleftrightarrow> c = CHR '' '' \<or> (9 \<le> (of_char c :: nat) \<and> (of_char c :: nat) \<le> 13)"

definition trim :: "string \<Rightarrow> string" where
  "trim s = rev (dropWhile is_space (rev (dropWhile is_space s)))"

definition lower_char :: "char \<Rightarrow> char" where
  "lower_char c = (let n = (of_char c :: nat) in if 65 \<le> n \<and> n \<le> 90 then char_of (n + 32) else c)"

definition toLowerCase :: "string \<Rightarrow> string" where
  "toLowerCase s = map lower_char s"

fun starts_with :: "string \<Rightarrow> string \<Rightarrow> bool" where
  "starts_with s [] = True"
| "starts_with [] (p # ps) = False"
| "starts_with (c # s) (p # ps) = (c = p \<and> starts_with s ps)"

text \<open>\<open>s.split(c)\<close> for a one-character separator\<close>

fun split_on :: "char \<Rightarrow> string \<Rightarrow> string list" where
  "split_on c [] = [[]]"
| "split_on c (x # s) = (case split_on c s of
     [] \<Rightarrow> [[x]]
   | p # ps \<Rightarrow> if x = c then [] # p # ps else (x # p) # ps)"

text \<open>\<open>new Set(xs)\<close> keeps the first occurrence of every element, in order.\<close>

fun js_set :: "'a list \<Rightarrow> 'a list" where
  "js_set [] = []"
| "js_set (x # xs) = x # filter (\<lambda>y. y \<noteq> x) (js_set xs)"

lemma set_js_set [simp]: "set (js_set xs) = set xs"
  by (induction xs) auto

lemma distinct_js_set [simp]: "distinct (js_set xs)"
  by (induction xs) auto

lemma length_js_set_le: "length (js_set xs) \<le> length xs"
  by (induction xs) (auto intro: le_trans [OF length_filter_le])

lemma js_set_distinct: "distinct xs \<Longrightarrow> js_set xs = xs"
  by (induction xs) (auto simp: filter_id_conv)

lemma js_set_length_distinct: "length (js_set xs) = length xs \<longleftrightarrow> distinct xs"
proof
  assume "length (js_set xs) = length xs"
  then have "card (set xs) = length xs"
    by (metis distinct_card distinct_js_set set_js_set)
  then show "distinct xs" by (rule card_distinct)
qed (simp add: js_set_distinct)

lemma split_on_nonempty: "split_on c s \<noteq> []"
  by (induction s) (auto split: list.split)

section \<open>\<open>crypto.util.ts\<close>\<close>

definition normalizePhone :: "string \<Rightarrow> string" where
  "normalizePhone phone = (let digits = filter is_digit phone in
     if digits \<noteq> [] then CHR ''+'' # digits else [])"

definition maskPhone :: "string \<Rightarrow> string" where
  "maskPhone phone = (let normalized = normalizePhone phone in
     if length normalized \<le> 6 then ''***''
     else take 6 normalized @ ''****'' @ drop (length normalized - 2) normalized)"

text \<open>\<open>addDays\<close> steps the calendar date; the server clock runs in UTC, where a day is 24 hours.\<close>

definition addDays :: "int \<Rightarrow> int \<Rightarrow> int" where
  "addDays date days = date + days * 24 * 60 * 60 * 1000"

text \<open>\<open>String(randomInt(min, max))\<close>, for the value \<open>r\<close> that the generator drew between the bounds\<close>

definition randomDigits :: "nat \<Rightarrow> nat \<Rightarrow> string" where
  "randomDigits r len = show_nat (10 ^ (len - 1) + r mod (10 ^ len - 10 ^ (len - 1)))"

section \<open>\<open>thread.util.ts\<close>\<close>

definition canonicalDirectPair :: "string \<Rightarrow> string \<Rightarrow> string \<times> string" where
  "canonicalDirectPair a b = (if a = b then (a, b) else if a < b then (a, b) else (b, a))"

lemma canonicalDirectPair_commute: "canonicalDirectPair a b = canonicalDirectPair b a"
  by (auto simp: canonicalDirectPair_def)

lemma canonicalDirectPair_less: "a \<noteq> b \<Longrightarrow> fst (canonicalDirectPair a b) < snd (canonicalDirectPair a b)"
  by (auto simp: canonicalDirectPair_def)

lemma canonicalDirectPair_set:
  "{fst (canonicalDirectPair a b), snd (canonicalDirectPair a b)} = {a, b}"
  by (auto simp: canonicalDirectPair_def)

section \<open>Lemmas\<close>

lemma plus_not_digit [simp]: "\<not> is_digit (CHR ''+'')"
  by (simp add: is_digit_def)

lemma filter_digits_normalizePhone [simp]: "filter is_digit (normalizePhone p) = filter is_digit p"
  by (simp add: normalizePhone_def Let_def)

lemma normalizePhone_digits: "normalizePhone p = normalizePhone q \<longleftrightarrow> filter is_digit p = filter is_digit q"
  by (auto simp: normalizePhone_def Let_def)

lemma length_padStart0 [simp]: "length (padStart0 n s) = max n (length s)"
  by (simp add: padStart0_def)

lemma padStart0_id: "n \<le> length s \<Longrightarrow> padStart0 n s = s"
  by (simp add: padStart0_def)

end
