(* ===== verification/Media.thy ===== *)
theory Media
  imports Store Util
begin

text \<open>
  Media attachments and object storage: \<open>src/storage/r2.service.ts\<close> and
  \<open>src/messages/media.service.ts\<close>.  The S3 client is not part of the repository: what it answers
  (a signed URL, the length of a stored object or an error) is an argument of type \<open>r2_client\<close>.
\<close>

section \<open>\<open>R2Service\<close>\<close>

datatype r2_command =
    PutObject string int "string option"
  | GetObject string

record r2_client =
  r2_sign :: "r2_command \<Rightarrow> string"
  r2_head :: "string \<Rightarrow> error + int"
  r2_uuid :: string

datatype upload_purpose = Avatar | MediaUpload

definition ALLOWED_MEDIA_MIME :: "MediaType \<Rightarrow> string list" where
  "ALLOWED_MEDIA_MIME t = (case t of
     IMAGE \<Rightarrow> [''image/jpeg'', ''image/png'', ''image/webp'', ''image/gif'']
   | VIDEO \<Rightarrow> [''video/mp4'', ''video/quicktime'']
   | AUDIO \<Rightarrow> [''audio/mpeg'', ''audio/ogg'', ''audio/aac'', ''audio/mp4'']
   | DOCUMENT \<Rightarrow> [''application/pdf'', ''text/plain''])"

definition ALLOWED_AVATAR_MIME :: "string list" where
  "ALLOWED_AVATAR_MIME = [''image/jpeg'', ''image/png'', ''image/webp'', ''image/gif'']"

fun show_mediaType :: "MediaType \<Rightarrow> string" where
  "show_mediaType IMAGE = ''IMAGE''"
| "show_mediaType VIDEO = ''VIDEO''"
| "show_mediaType AUDIO = ''AUDIO''"
| "show_mediaType DOCUMENT = ''DOCUMENT''"

fun join_comma :: "string list \<Rightarrow> string" where
  "join_comma [] = []"
| "join_comma [s] = s"
| "join_comma (s # ss) = s @ '', '' @ join_comma ss"

definition is_alnum :: "char \<Rightarrow> bool" where
  "is_alnum c = (let n = (of_char c :: nat) in
     (48 \<le> n \<and> n \<le> 57) \<or> (65 \<le> n \<and> n \<le> 90) \<or> (97 \<le> n \<and> n \<le> 122))"

definition generateUploadUrl :: "r2_client \<Rightarrow> uuid \<Rightarrow> int \<Rightarrow> string \<times> string" where
  "generateUploadUrl c userId sizeBytes =
     (let bucketKey = ''backups/'' @ userId @ ''/'' @ r2_uuid c @ ''.bin'' in
      (r2_sign c (PutObject bucketKey sizeBytes None), bucketKey))"

definition generatePresignedUploadUrl ::
  "r2_client \<Rightarrow> uuid \<Rightarrow> string \<Rightarrow> string \<Rightarrow> int \<Rightarrow> upload_purpose \<Rightarrow> MediaType option \<Rightarrow> error + string \<times> string" where
  "generatePresignedUploadUrl c userId filename mimeType sizeBytes purpose mediaType =
     (let maxAvatarSize = 5 * 1024 * 1024; maxMediaSize = 100 * 1024 * 1024 in
      if purpose = Avatar \<and> sizeBytes > maxAvatarSize
        then Inl (BadRequest (''Avatar size exceeds limit of 5MB: got '' @ show_int sizeBytes @ '' bytes''))
      else if purpose = MediaUpload \<and> sizeBytes > maxMediaSize
        then Inl (BadRequest (''Media size exceeds limit of 100MB: got '' @ show_int sizeBytes @ '' bytes''))
      else if purpose = Avatar \<and> mimeType \<notin> set ALLOWED_AVATAR_MIME
        then Inl (BadRequest (''Invalid avatar mime type: '' @ mimeType @ ''. Only jpeg, png, webp, and gif are allowed.''))
      else
        (let bad = (if purpose = MediaUpload then
              (case mediaType of
                 None \<Rightarrow> Some (BadRequest ''mediaType is required for media uploads'')
               | Some t \<Rightarrow> (let allowed = ALLOWED_MEDIA_MIME t in
                   if mimeType \<notin> set allowed
                     then Some (BadRequest (''Invalid mime type for '' @ show_mediaType t @ '': '' @ mimeType
                            @ ''. Allowed: '' @ join_comma allowed))
                     else None))
              else None)
         in case bad of
              Some er \<Rightarrow> Inl er
            | None \<Rightarrow>
               (let extension = last (split_on (CHR ''.'') filename);
                    cleanExtension = filter is_alnum extension;
                    folder = (case purpose of Avatar \<Rightarrow> ''avatars'' | MediaUpload \<Rightarrow> ''media'');
                    bucketKey = folder @ ''/'' @ userId @ ''/'' @ r2_uuid c @ ''.'' @ cleanExtension
                in Inr (r2_sign c (PutObject bucketKey sizeBytes (Some mimeType)), bucketKey))))"

definition generateDownloadUrl :: "r2_client \<Rightarrow> string \<Rightarrow> string" where
  "generateDownloadUrl c bucketKey = r2_sign c (GetObject bucketKey)"

definition verifyObjectExists :: "r2_client \<Rightarrow> string \<Rightarrow> int \<Rightarrow> error + unit" where
  "verifyObjectExists c bucketKey expectedSize = (case r2_head c bucketKey of
     Inl er \<Rightarrow> Inl er
   | Inr len \<Rightarrow> if len \<noteq> expectedSize
       then Inl (OtherError (''Size mismatch: expected '' @ show_int expectedSize @ '', got '' @ show_int len))
       else Inr ())"

text \<open>Run a step that answers or rejects inside an action.\<close>

definition lift :: "error + 'a \<Rightarrow> 'a svc" where
  "lift r = (case r of Inl er \<Rightarrow> throw er | Inr x \<Rightarrow> ret x)"

lemma lift_ok [ok_simps]: "lift r w = (Inr y, w') \<longleftrightarrow> r = Inr y \<and> w' = w"
  by (auto simp: lift_def ok_simps split: sum.splits)

lemma lift_err [err_simps]: "lift r w = (Inl er, w') \<longleftrightarrow> r = Inl er \<and> w' = w"
  by (auto simp: lift_def err_simps split: sum.splits)

lemma lift_run [act_simps]: "lift r w = (r, w)"
  by (auto simp: lift_def act_simps split: sum.splits)

lemma kdb_lift [kdb_intros]: "kdb P (lift r)"
  by (auto simp: act_simps intro: kdbI)

lemma quiet_lift [quiet_intros]: "quiet (lift r)"
  by (rule quietI) (simp add: act_simps)

section \<open>\<open>MediaService\<close>\<close>

record init_media_dto =
  im_mediaType :: MediaType
  im_mimeType :: string
  im_sizeBytes :: int
  im_filename :: string
  im_mediaCiphertextHash :: string
  im_thumbnailCiphertextHash :: "string option"
  im_width :: "int option"
  im_height :: "int option"
  im_duration :: "int option"

fun show_uploadStatus :: "UploadStatus \<Rightarrow> string" where
  "show_uploadStatus U_PENDING = ''PENDING''"
| "show_uploadStatus U_COMPLETE = ''COMPLETE''"
| "show_uploadStatus U_FAILED = ''FAILED''"

definition find_media :: "db \<Rightarrow> uuid \<Rightarrow> media_row option" where
  "find_media d i = List.find (\<lambda>x. md_id x = i) (messageMedia d)"

definition initUpload :: "env \<Rightarrow> r2_client \<Rightarrow> uuid \<Rightarrow> init_media_dto \<Rightarrow> (uuid \<times> string \<times> string) svc" where
  "initUpload e c userId dto =
     bnd (lift (generatePresignedUploadUrl c userId (im_filename dto) (im_mimeType dto) (im_sizeBytes dto)
            MediaUpload (Some (im_mediaType dto)))) (\<lambda>(uploadUrl, bucketKey).
     bnd (fresh e) (\<lambda>i. bnd (dbget id) (\<lambda>d.
     thn (ensure (find_media d i = None) (PrismaError ''P2002''))
    (thn (ensure (find_user d userId \<noteq> None) (PrismaError ''P2003''))
    (thn (dbset (messageMedia_update (\<lambda>xs. xs @ [\<lparr>md_id = i, md_userId = userId, md_messageId = None,
            md_mediaType = im_mediaType dto, md_bucketKey = bucketKey, md_mimeType = im_mimeType dto,
            md_sizeBytes = im_sizeBytes dto, md_filename = im_filename dto, md_thumbnailBucketKey = None,
            md_width = im_width dto, md_height = im_height dto, md_duration = im_duration dto,
            md_mediaCiphertextHash = im_mediaCiphertextHash dto,
            md_thumbnailCiphertextHash = im_thumbnailCiphertextHash dto, md_uploadStatus = U_PENDING,
            md_uploadedAt = None, md_createdAt = now e\<rparr>])))
         (ret (i, uploadUrl, bucketKey)))))))"

definition completeUpload :: "env \<Rightarrow> r2_client \<Rightarrow> uuid \<Rightarrow> uuid \<Rightarrow> int \<Rightarrow> media_row svc" where
  "completeUpload e c userId mediaId sizeBytes =
     bnd (dbget (\<lambda>d. find_media d mediaId)) (\<lambda>found.
     bnd (require found (NotFound ''Media not found'')) (\<lambda>media.
     thn (ensure (md_userId media = userId) (Forbidden ''Not the owner of this media''))
    (thn (ensure (md_uploadStatus media = U_PENDING)
           (BadRequest (''Media is already '' @ toLowerCase (show_uploadStatus (md_uploadStatus media)))))
    (thn (lift (verifyObjectExists c (md_bucketKey media) sizeBytes))
    (let f = (\<lambda>x. x\<lparr>md_uploadStatus := U_COMPLETE, md_uploadedAt := Some (now e), md_sizeBytes := sizeBytes\<rparr>)
     in thn (dbset (messageMedia_update (update_where (\<lambda>x. md_id x = mediaId) f)))
            (ret (f media)))))))"

text \<open>The access rule that the message, reaction and media services share: a participant of the
  thread, or a member of the group, of the message.\<close>

definition can_access :: "db \<Rightarrow> uuid \<Rightarrow> message_row \<Rightarrow> bool" where
  "can_access d userId m = (case m_threadId m of
     Some t \<Rightarrow> (case find_thread d t of
         None \<Rightarrow> False
       | Some th \<Rightarrow> th_userAId th = userId \<or> th_userBId th = userId)
   | None \<Rightarrow> (case m_groupId m of
         Some g \<Rightarrow> find_member d g userId \<noteq> None
       | None \<Rightarrow> True))"

definition getDownloadUrl :: "env \<Rightarrow> r2_client \<Rightarrow> uuid \<Rightarrow> uuid \<Rightarrow> (string \<times> int) svc" where
  "getDownloadUrl e c userId mediaId =
     bnd (dbget (\<lambda>d. find_media d mediaId)) (\<lambda>found.
     bnd (require found (NotFound ''Media not found'')) (\<lambda>media.
     bnd (require (md_messageId media) (BadRequest ''Media has not been attached to a message yet'')) (\<lambda>mid.
     thn (ensure (md_uploadStatus media = U_COMPLETE) (Forbidden ''Media upload is not complete''))
    (bnd (dbget (\<lambda>d. find_message d mid)) (\<lambda>foundMsg.
     bnd (require foundMsg (NotFound ''Parent message not found'')) (\<lambda>message.
     thn (ensure (m_deletedAt message = None) (Forbidden ''Message has been deleted''))
    (bnd (dbget (\<lambda>d. can_access d userId message)) (\<lambda>allowed.
     thn (ensure allowed (case m_threadId message of
            Some _ \<Rightarrow> Forbidden ''Not a participant in this thread''
          | None \<Rightarrow> Forbidden ''Not a member of this group''))
         (ret (generateDownloadUrl c (md_bucketKey media),
               coalesce (R2_PRESIGNED_GET_TTL_SECONDS (cfg e)) 300))))))))))"

definition maxAttachments :: "env \<Rightarrow> int" where
  "maxAttachments e = coalesce (MEDIA_MAX_ATTACHMENTS_PER_MESSAGE (cfg e)) 10"

text \<open>The loop over the rows: the first row that is not usable decides the error.\<close>

fun attachment_error :: "uuid \<Rightarrow> media_row list \<Rightarrow> error option" where
  "attachment_error userId [] = None"
| "attachment_error userId (row # rows) =
     (if md_userId row \<noteq> userId then Some (Forbidden ''Not the owner of one or more attachments'')
      else if md_messageId row \<noteq> None
        then Some (BadRequest ''One or more attachments are already attached to a message'')
      else if md_uploadStatus row \<noteq> U_COMPLETE
        then Some (BadRequest (''One or more attachments are not fully uploaded (status: ''
               @ show_uploadStatus (md_uploadStatus row) @ '')''))
      else attachment_error userId rows)"

definition assertAttachmentsOwned :: "env \<Rightarrow> uuid \<Rightarrow> uuid list \<Rightarrow> media_row list svc" where
  "assertAttachmentsOwned e userId mediaIds =
     (if mediaIds = [] then ret []
      else
        thn (ensure (int (length mediaIds) \<le> maxAttachments e)
              (BadRequest (''Too many attachments: '' @ show_nat (length mediaIds) @ '' > max '' @ show_int (maxAttachments e))))
       (let uniqueIds = js_set mediaIds in
        thn (ensure (length uniqueIds = length mediaIds) (BadRequest ''Duplicate mediaIds in request''))
       (bnd (dbget (\<lambda>d. filter (\<lambda>x. md_id x \<in> set uniqueIds) (messageMedia d))) (\<lambda>rows.
        thn (ensure (length rows = length uniqueIds) (BadRequest ''One or more mediaIds do not exist''))
            (case attachment_error userId rows of
               Some er \<Rightarrow> throw er
             | None \<Rightarrow> ret rows)))))"

text \<open>\<open>tx.messageMedia.updateMany\<close> of the send paths: bind the attachments to the message.\<close>

definition attach_media :: "uuid \<Rightarrow> uuid list \<Rightarrow> uuid \<Rightarrow> unit svc" where
  "attach_media senderUserId mediaIds mid = dbset (messageMedia_update (update_where
     (\<lambda>x. md_id x \<in> set mediaIds \<and> md_userId x = senderUserId \<and> md_messageId x = None)
     (\<lambda>x. x\<lparr>md_messageId := Some mid\<rparr>)))"

definition cloneMediaForForward :: "env \<Rightarrow> uuid \<Rightarrow> uuid \<Rightarrow> media_row list \<Rightarrow> unit svc" where
  "cloneMediaForForward e forwarderUserId newMessageId sourceMedia =
     for_each sourceMedia (\<lambda>m. bnd (fresh e) (\<lambda>i. bnd (dbget id) (\<lambda>d.
       thn (ensure (find_media d i = None) (PrismaError ''P2002''))
      (dbset (messageMedia_update (\<lambda>xs. xs @ [m\<lparr>md_id := i, md_userId := forwarderUserId,
         md_messageId := Some newMessageId, md_uploadStatus := U_COMPLETE,
         md_uploadedAt := Some (now e), md_createdAt := now e\<rparr>]))))))"

text \<open>Whether another message still refers to an object: the count with \<open>messageId: { not: id }\<close>
  looks at the \<open>bucketKey\<close> column only, also for the key of a thumbnail.\<close>

definition other_refs :: "db \<Rightarrow> uuid \<Rightarrow> string \<Rightarrow> nat" where
  "other_refs d mid key = count_where (\<lambda>x. md_bucketKey x = key \<and> sql_not (md_messageId x) mid) (messageMedia d)"

definition cleanupMessageMedia :: "env \<Rightarrow> uuid \<Rightarrow> unit svc" where
  "cleanupMessageMedia e mid =
     bnd (dbget (\<lambda>d. filter (\<lambda>x. md_messageId x = Some mid) (messageMedia d))) (\<lambda>media.
     for_each media (\<lambda>m.
       thn (bnd (dbget (\<lambda>d. other_refs d mid (md_bucketKey m))) (\<lambda>otherRefs.
              whenA (otherRefs = 0) (catch_ignore (queue_add e (StorageCleanup (md_bucketKey m))))))
           (case md_thumbnailBucketKey m of
              None \<Rightarrow> ret ()
            | Some tk \<Rightarrow> bnd (dbget (\<lambda>d. other_refs d mid tk)) (\<lambda>thumbRefs.
                whenA (thumbRefs = 0) (catch_ignore (queue_add e (StorageCleanup tk)))))))"

end
