(* ===== verification/Unread.thy ===== *)
theory Unread
  imports Store Util
begin

text \<open>
  Unread counters and push wake-ups: \<open>src/unread/unread.service.ts\<close>, the recalculation worker
  \<open>src/unread/queue/unread-recalc.processor.ts\<close> and \<open>src/push/push.service.ts\<close>.
\<close>

section \<open>\<open>UnreadService\<close>\<close>

fun show_threadType :: "ThreadType \<Rightarrow> string" where
  "show_threadType Direct = ''direct''"
| "show_threadType Grp = ''group''"

definition enqueueRecalc :: "env \<Rightarrow> uuid \<Rightarrow> uuid \<Rightarrow> ThreadType \<Rightarrow> string \<Rightarrow> unit svc" where
  "enqueueRecalc e userId threadId threadType reason = queue_add e (UnreadRecalc
     \<lparr>uj_userId = userId, uj_threadId = threadId, uj_threadType = threadType, uj_reason = reason,
      uj_jobId = userId @ '':'' @ show_threadType threadType @ '':'' @ threadId\<rparr>)"

definition getCounts :: "uuid \<Rightarrow> (ThreadType \<times> uuid \<times> int) list svc" where
  "getCounts userId = dbget (\<lambda>d. map (\<lambda>c. (uc_threadType c, uc_threadId c, uc_count c))
     (filter (\<lambda>c. uc_userId c = userId) (unreadCounters d)))"

text \<open>\<open>message: { threadId }\<close> or \<open>message: { groupId: threadId }\<close> of a relation filter on an envelope\<close>

definition in_conversation :: "db \<Rightarrow> ThreadType \<Rightarrow> uuid \<Rightarrow> uuid \<Rightarrow> bool" where
  "in_conversation d threadType threadId mid = (case find_message d mid of
     None \<Rightarrow> False
   | Some m \<Rightarrow> (case threadType of Direct \<Rightarrow> m_threadId m = Some threadId | Grp \<Rightarrow> m_groupId m = Some threadId))"

definition counter_key :: "uuid \<Rightarrow> ThreadType \<Rightarrow> uuid \<Rightarrow> unread_row \<Rightarrow> bool" where
  "counter_key userId threadType threadId c \<longleftrightarrow>
     uc_userId c = userId \<and> uc_threadType c = threadType \<and> uc_threadId c = threadId"

definition upsert_counter :: "uuid \<Rightarrow> ThreadType \<Rightarrow> uuid \<Rightarrow> int \<Rightarrow> db \<Rightarrow> db" where
  "upsert_counter userId threadType threadId n d =
     (if exists_where (counter_key userId threadType threadId) (unreadCounters d)
      then unreadCounters_update (update_where (counter_key userId threadType threadId)
             (\<lambda>c. c\<lparr>uc_count := n\<rparr>)) d
      else unreadCounters_update (\<lambda>cs. cs @ [\<lparr>uc_userId = userId, uc_threadType = threadType,
             uc_threadId = threadId, uc_count = n\<rparr>]) d)"

definition markAllRead :: "env \<Rightarrow> uuid \<Rightarrow> uuid \<Rightarrow> ThreadType \<Rightarrow> unit svc" where
  "markAllRead e userId threadId threadType = tx
     (thn (dbset (\<lambda>d. messageEnvelopes_update (update_where
            (\<lambda>x. e_recipientUserId x = userId \<and> in_conversation d threadType threadId (e_messageId x)
               \<and> e_status x \<noteq> READ)
            (\<lambda>x. x\<lparr>e_status := READ, e_readAt := Some (now e), e_updatedAt := now e\<rparr>)) d))
          (dbset (upsert_counter userId threadType threadId 0)))"

section \<open>\<open>UnreadRecalcProcessor\<close>\<close>

text \<open>The query of the worker: the distinct messages, not sent by the user, of which the user has an
  envelope that is not read.\<close>

definition unread_count :: "db \<Rightarrow> uuid \<Rightarrow> ThreadType \<Rightarrow> uuid \<Rightarrow> nat" where
  "unread_count d userId threadType threadId = length (remdups (map e_messageId
     (filter (\<lambda>x. e_recipientUserId x = userId
        \<and> (case find_message d (e_messageId x) of None \<Rightarrow> False | Some m \<Rightarrow> m_senderUserId m \<noteq> userId)
        \<and> in_conversation d threadType threadId (e_messageId x)
        \<and> e_status x \<noteq> READ) (messageEnvelopes d))))"

definition processUnreadRecalc :: "unread_job \<Rightarrow> unit svc" where
  "processUnreadRecalc j = bnd (dbget (\<lambda>d. int (unread_count d (uj_userId j) (uj_threadType j) (uj_threadId j)))) (\<lambda>count.
     thn (dbset (upsert_counter (uj_userId j) (uj_threadType j) (uj_threadId j) count))
         (emit (EvUnreadUpdated (uj_userId j) (uj_threadId j) (uj_threadType j) count)))"

definition lookup_counter :: "db \<Rightarrow> uuid \<Rightarrow> ThreadType \<Rightarrow> uuid \<Rightarrow> int option" where
  "lookup_counter d userId threadType threadId =
     map_option uc_count (List.find (counter_key userId threadType threadId) (unreadCounters d))"

section \<open>\<open>PushService\<close>\<close>

definition sendMessageWakeup :: "env \<Rightarrow> push_target list \<Rightarrow> unit svc" where
  "sendMessageWakeup e envelopes = queue_add e (PushNotification P_new_message envelopes)"

definition sendEditWakeup :: "env \<Rightarrow> push_target list \<Rightarrow> unit svc" where
  "sendEditWakeup e envelopes = queue_add e (PushNotification P_edit envelopes)"

definition sendDeleteWakeup :: "env \<Rightarrow> push_target list \<Rightarrow> unit svc" where
  "sendDeleteWakeup e envelopes = queue_add e (PushNotification P_delete envelopes)"

definition push_target_of :: "envelope_row \<Rightarrow> push_target" where
  "push_target_of x = \<lparr>pt_recipientDeviceId = e_recipientDeviceId x, pt_recipientUserId = e_recipientUserId x\<rparr>"

lemma kdb_enqueueRecalc [kdb_intros]: "kdb P (enqueueRecalc e u t ty r)"
  unfolding enqueueRecalc_def by (intro kdb_intros)

lemma kdb_wakeups [kdb_intros]:
  "kdb P (sendMessageWakeup e ts)" "kdb P (sendEditWakeup e ts)" "kdb P (sendDeleteWakeup e ts)"
  unfolding sendMessageWakeup_def sendEditWakeup_def sendDeleteWakeup_def by (intro kdb_intros)+

section \<open>Counter lemmas\<close>

lemma find_upsert_counter:
  "List.find (counter_key u ty t) (unreadCounters (upsert_counter u' ty' t' n d)) =
     (if (u, ty, t) = (u', ty', t')
      then Some (case List.find (counter_key u ty t) (unreadCounters d) of
             Some c \<Rightarrow> c\<lparr>uc_count := n\<rparr>
           | None \<Rightarrow> \<lparr>uc_userId = u, uc_threadType = ty, uc_threadId = t, uc_count = n\<rparr>)
      else List.find (counter_key u ty t) (unreadCounters d))"
proof (cases "(u, ty, t) = (u', ty', t')")
  case True
  let ?k = "counter_key u ty t"
  have keep: "?k (c\<lparr>uc_count := n\<rparr>) = ?k c" for c
    by (simp add: counter_key_def)
  show ?thesis
  proof (cases "List.find ?k (unreadCounters d)")
    case None
    then have "\<not> exists_where ?k (unreadCounters d)" by (simp add: find_None_all)
    with True None show ?thesis by (auto simp: upsert_counter_def find_append counter_key_def)
  next
    case (Some c)
    then have "exists_where ?k (unreadCounters d)" "?k c"
      using find_Some_in [OF Some] by auto
    moreover from this Some have "List.find ?k (update_where ?k (\<lambda>c. c\<lparr>uc_count := n\<rparr>) (unreadCounters d))
        = Some (c\<lparr>uc_count := n\<rparr>)"
      by (subst find_update_where) (auto simp: keep)
    ultimately show ?thesis using True Some by (simp add: upsert_counter_def)
  qed
next
  case False
  have "List.find (counter_key u ty t) (update_where (counter_key u' ty' t') (\<lambda>c. c\<lparr>uc_count := n\<rparr>) cs)
      = List.find (counter_key u ty t) cs" for cs
    using False by (induction cs) (auto simp: counter_key_def)
  with False show ?thesis
    by (auto simp: upsert_counter_def find_append counter_key_def split: option.split)
qed

lemma lookup_upsert_counter:
  "lookup_counter (upsert_counter u' ty' t' n d) u ty t =
     (if (u, ty, t) = (u', ty', t') then Some n else lookup_counter d u ty t)"
  by (auto simp: lookup_counter_def find_upsert_counter split: option.split)

lemma upsert_counter_frame [simp]:
  "messages (upsert_counter u ty t n d) = messages d"
  "messageEnvelopes (upsert_counter u ty t n d) = messageEnvelopes d"
  "directThreads (upsert_counter u ty t n d) = directThreads d"
  by (simp_all add: upsert_counter_def)

lemma find_message_frame: "messages d' = messages d \<Longrightarrow> find_message d' i = find_message d i"
  by (simp add: find_message_def)

lemma in_conversation_frame: "messages d' = messages d \<Longrightarrow> in_conversation d' ty t i = in_conversation d ty t i"
  by (simp add: in_conversation_def find_message_frame [of d' d])

section \<open>Properties\<close>

lemma same_chat_markAllRead:
  "markAllRead e u t ty w = (Inr x, w') \<Longrightarrow> same_chat (w_db w) (w_db w')"
  by (auto simp: markAllRead_def ok_simps same_chat_def map_update_where env_core_def)

lemma kdb_markAllRead [kdb_intros]: "kdb chat_inv (markAllRead e u t ty)"
  unfolding markAllRead_def
  by (rule kdb_tx, rule same_chat_inv [OF same_chat_markAllRead [of e u t ty]])
    (simp_all add: markAllRead_def tx_ok)

lemma kdb_processUnreadRecalc [kdb_intros]: "kdb chat_inv (processUnreadRecalc j)"
  unfolding processUnreadRecalc_def
  by (intro kdb_intros kdb_same_chat) (simp add: same_chat_def)

end
