(* ===== verification/Messages.thy ===== *)
theory Messages
  imports Media Unread
begin

text \<open>
  \<open>src/messages/messages.service.ts\<close>: sending, forwarding, fetching, acknowledging, editing and
  deleting messages.  Every method of the service is one definition; the parts of \<open>send\<close> that the
  code runs inside \<open>$transaction\<close> are one action under \<open>tx\<close>.
\<close>

section \<open>Requests\<close>

record envelope_dto =
  ed_recipientDeviceId :: uuid
  ed_ciphertext :: json

record send_dto =
  s_senderDeviceId :: uuid
  s_recipientUserId :: uuid
  s_idempotencyKey :: string
  s_contentType :: "MessageContentType option"
  s_replyToMessageId :: "uuid option"
  s_mediaIds :: "uuid list option"
  s_envelopes :: "envelope_dto list"

record forward_target =
  ft_type :: ThreadType
  ft_recipientUserId :: "uuid option"
  ft_groupId :: "uuid option"
  ft_envelopes :: "envelope_dto list option"
  ft_ciphertext :: "json option"

record forward_dto =
  f_sourceMessageId :: uuid
  f_senderDeviceId :: uuid
  f_idempotencyKey :: string
  f_targets :: "forward_target list"

record forward_result =
  fr_targetType :: ThreadType
  fr_targetId :: uuid
  fr_success :: bool
  fr_messageId :: "uuid option"
  fr_error :: "string option"

record edit_dto =
  ed_senderDeviceId :: uuid
  ed_idempotencyKey :: string
  ed_envelopes :: "envelope_dto list"

datatype AckStatus = AckDelivered | AckRead

datatype DeleteScope = FOR_ME | FOR_EVERYONE

section \<open>Serialisation and access\<close>

definition serializeMessage :: "message_row \<Rightarrow> envelope_row list \<Rightarrow> media_row list \<Rightarrow> message_view" where
  "serializeMessage m es md = \<lparr>v_id = m_id m, v_threadId = m_threadId m, v_groupId = m_groupId m,
     v_senderUserId = m_senderUserId m, v_senderDeviceId = m_senderDeviceId m,
     v_threadSequence = m_threadSequence m, v_contentType = m_contentType m,
     v_replyToMessageId = m_replyToMessageId m, v_forwarded = m_forwarded m,
     v_createdAt = m_createdAt m, v_envelopes = es, v_media = md\<rparr>"

text \<open>\<open>include: { envelopes: true, media: { orderBy: { createdAt: 'asc' } } }\<close>\<close>

definition view_of :: "db \<Rightarrow> message_row \<Rightarrow> message_view" where
  "view_of d m = serializeMessage m (envelopes_of d (m_id m)) (media_of d (m_id m))"

definition isUniqueConstraint :: "error \<Rightarrow> bool" where
  "isUniqueConstraint er \<longleftrightarrow> er = PrismaError ''P2002''"

definition active_device :: "db \<Rightarrow> uuid \<Rightarrow> uuid \<Rightarrow> bool" where
  "active_device d userId deviceId =
     exists_where (\<lambda>x. d_id x = deviceId \<and> d_userId x = userId \<and> d_active x) (devices d)"

definition assertActiveDevice :: "uuid \<Rightarrow> uuid \<Rightarrow> unit svc" where
  "assertActiveDevice userId deviceId = bnd (dbget (\<lambda>d. active_device d userId deviceId)) (\<lambda>found.
     ensure found (Forbidden ''Device is not active for this user''))"

definition assertMessageAccess :: "uuid \<Rightarrow> uuid \<Rightarrow> message_row svc" where
  "assertMessageAccess userId messageId = bnd (dbget (\<lambda>d. find_message d messageId)) (\<lambda>found.
     bnd (require found (NotFound ''Message not found'')) (\<lambda>message.
     bnd (dbget (\<lambda>d. can_access d userId message)) (\<lambda>allowed.
     thn (ensure allowed (case m_threadId message of
            Some _ \<Rightarrow> Forbidden ''Not a participant in this thread''
          | None \<Rightarrow> Forbidden ''Not a member of this group''))
         (ret message))))"

section \<open>Sending to a direct thread\<close>

text \<open>The devices that the transaction loads.\<close>

definition direct_devices :: "db \<Rightarrow> uuid \<Rightarrow> uuid \<Rightarrow> uuid \<Rightarrow> device_row list" where
  "direct_devices d senderUserId senderDeviceId recipientUserId = filter (\<lambda>x. d_active x \<and>
     (d_id x = senderDeviceId \<or> d_userId x = recipientUserId
      \<or> (d_userId x = senderUserId \<and> d_id x \<noteq> senderDeviceId))) (devices d)"

text \<open>The checks of the transaction on devices and envelopes, in their order; the result is the list
  of the recipient's device ids.\<close>

definition check_direct ::
  "db \<Rightarrow> uuid \<Rightarrow> uuid \<Rightarrow> uuid \<Rightarrow> envelope_dto list \<Rightarrow> error + uuid list" where
  "check_direct d senderUserId senderDeviceId recipientUserId envs =
     (let allDevices = direct_devices d senderUserId senderDeviceId recipientUserId in
      if (case List.find (\<lambda>x. d_id x = senderDeviceId) allDevices of
            None \<Rightarrow> True
          | Some sd \<Rightarrow> d_userId sd \<noteq> senderUserId)
        then Inl (Forbidden ''Sender device is not active for this user'')
      else if senderUserId = recipientUserId
        then Inl (BadRequest ''Recipient must be another user'')
      else
        (let recipientDevices = filter (\<lambda>x. d_userId x = recipientUserId) allDevices in
         if recipientDevices = []
           then Inl (NotFound ''Recipient has no active devices'')
         else
           (let senderSyncDeviceIds = map d_id (filter (\<lambda>x. d_userId x = senderUserId \<and> d_id x \<noteq> senderDeviceId) allDevices);
                recipientDeviceIds = map d_id recipientDevices;
                allowedDeviceIds = recipientDeviceIds @ senderSyncDeviceIds;
                envelopeDeviceIds = map ed_recipientDeviceId envs in
            if \<not> list_all (\<lambda>i. i \<in> set envelopeDeviceIds) recipientDeviceIds
              then Inl (BadRequest ''Missing envelope for active recipient device'')
            else if \<not> list_all (\<lambda>x. ed_recipientDeviceId x \<in> set allowedDeviceIds) envs
              then Inl (BadRequest ''Envelope recipient device is not part of this direct message'')
            else Inr recipientDeviceIds)))"

definition upsert_thread :: "env \<Rightarrow> uuid \<Rightarrow> uuid \<Rightarrow> thread_row svc" where
  "upsert_thread e a b = bnd (dbget (\<lambda>d. find_thread_by_pair d a b)) (\<lambda>found. case found of
     Some t \<Rightarrow> ret t
   | None \<Rightarrow> create_thread e a b)"

definition bump_thread :: "env \<Rightarrow> uuid \<Rightarrow> thread_row list \<Rightarrow> thread_row list" where
  "bump_thread e tid = update_where (\<lambda>t. th_id t = tid)
     (\<lambda>t. t\<lparr>th_latestSequence := th_latestSequence t + 1, th_updatedAt := now e\<rparr>)"

definition increment_thread :: "env \<Rightarrow> uuid \<Rightarrow> thread_row svc" where
  "increment_thread e tid =
     thn (dbset (directThreads_update (bump_thread e tid)))
    (bnd (dbget (\<lambda>d. find_thread d tid)) (\<lambda>found. require found (PrismaError ''P2025'')))"

definition check_reply_thread :: "db \<Rightarrow> uuid \<Rightarrow> uuid option \<Rightarrow> error + uuid option" where
  "check_reply_thread d threadId replyTo = (case replyTo of
     None \<Rightarrow> Inr None
   | Some r \<Rightarrow> (case find_message d r of
       None \<Rightarrow> Inl (NotFound ''Reply target message not found'')
     | Some target \<Rightarrow>
         if m_threadId target \<noteq> Some threadId then Inl (BadRequest ''Reply target is not in the same thread'')
         else if m_replyToMessageId target \<noteq> None
           then Inl (BadRequest ''Cannot reply to a message that is itself a reply'')
         else Inr (Some (m_id target))))"

definition create_direct_envelopes ::
  "env \<Rightarrow> uuid \<Rightarrow> uuid list \<Rightarrow> uuid \<Rightarrow> uuid \<Rightarrow> envelope_dto list \<Rightarrow> envelope_row list svc" where
  "create_direct_envelopes e mid recipientDeviceIds recipientUserId senderUserId envs =
     map_act (\<lambda>x. create_envelope e mid
        (if ed_recipientDeviceId x \<in> set recipientDeviceIds then recipientUserId else senderUserId)
        (ed_recipientDeviceId x) (ed_ciphertext x)) envs"

definition send_tx :: "env \<Rightarrow> uuid \<Rightarrow> send_dto \<Rightarrow> (message_row \<times> envelope_row list) svc" where
  "send_tx e senderUserId dto =
     bnd (dbget (\<lambda>d. check_direct d senderUserId (s_senderDeviceId dto) (s_recipientUserId dto) (s_envelopes dto))) (\<lambda>chk.
     bnd (lift chk) (\<lambda>recipientDeviceIds.
     bnd (upsert_thread e (fst (canonicalDirectPair senderUserId (s_recipientUserId dto)))
                          (snd (canonicalDirectPair senderUserId (s_recipientUserId dto)))) (\<lambda>thread.
     bnd (increment_thread e (th_id thread)) (\<lambda>sequencedThread.
     bnd (dbget (\<lambda>d. check_reply_thread d (th_id thread) (s_replyToMessageId dto))) (\<lambda>rep.
     bnd (lift rep) (\<lambda>replyToMessageId.
     bnd (assertAttachmentsOwned e senderUserId (coalesce (s_mediaIds dto) [])) (\<lambda>_.
     bnd (fresh e) (\<lambda>i.
     let message = new_message e i (Some (th_id thread)) None senderUserId (s_senderDeviceId dto)
           (s_idempotencyKey dto) (th_latestSequence sequencedThread)
           (coalesce (s_contentType dto) TEXT) replyToMessageId False in
     thn (create_message message)
    (bnd (create_direct_envelopes e i recipientDeviceIds (s_recipientUserId dto) senderUserId (s_envelopes dto)) (\<lambda>envelopes.
     thn (whenA (coalesce (s_mediaIds dto) [] \<noteq> []) (attach_media senderUserId (coalesce (s_mediaIds dto) []) i))
         (ret (message, envelopes))))))))))))"

text \<open>What follows the transaction: the event, the recalculation of the recipient's counter, the
  answer.  The message was read back when it was created, before its attachments were bound.\<close>

definition send_committed :: "env \<Rightarrow> uuid \<Rightarrow> message_row \<times> envelope_row list \<Rightarrow> message_view svc" where
  "send_committed e recipientUserId created =
     (let v = serializeMessage (fst created) (snd created) [] in
      thn (emit (EvMessageCreated v))
     (thn (case m_threadId (fst created) of
             None \<Rightarrow> ret ()
           | Some t \<Rightarrow> catch_emit ''Failed to enqueue unread recalc'' (enqueueRecalc e recipientUserId t Direct ''new_message''))
          (ret v)))"

definition send_duplicate :: "uuid \<Rightarrow> string \<Rightarrow> error \<Rightarrow> message_view svc" where
  "send_duplicate dev key er =
     (if isUniqueConstraint er then
        bnd (dbget (\<lambda>d. map_option (view_of d) (find_message_by_key d dev key))) (\<lambda>duplicate.
          case duplicate of Some v \<Rightarrow> ret v | None \<Rightarrow> throw er)
      else throw er)"

text \<open>The part of \<open>send\<close> after the first lookup.  Another request may have run in between.\<close>

definition send_attempt :: "env \<Rightarrow> uuid \<Rightarrow> send_dto \<Rightarrow> message_view svc" where
  "send_attempt e senderUserId dto =
     catching (bnd (tx (send_tx e senderUserId dto)) (send_committed e (s_recipientUserId dto)))
              (send_duplicate (s_senderDeviceId dto) (s_idempotencyKey dto))"

definition send :: "env \<Rightarrow> uuid \<Rightarrow> send_dto \<Rightarrow> message_view svc" where
  "send e senderUserId dto =
     bnd (dbget (\<lambda>d. map_option (view_of d)
            (find_message_by_key d (s_senderDeviceId dto) (s_idempotencyKey dto)))) (\<lambda>existing.
     case existing of
       Some v \<Rightarrow> ret v
     | None \<Rightarrow> send_attempt e senderUserId dto)"

section \<open>Forwarding\<close>

definition validateDirectTarget :: "forward_target \<Rightarrow> error option" where
  "validateDirectTarget t =
     (if ft_recipientUserId t = None
        then Some (BadRequest ''recipientUserId is required for direct targets'')
      else if coalesce (ft_envelopes t) [] = []
        then Some (BadRequest ''envelopes are required for direct targets'')
      else None)"

definition validateGroupTarget :: "forward_target \<Rightarrow> error option" where
  "validateGroupTarget t =
     (if ft_groupId t = None then Some (BadRequest ''groupId is required for group targets'')
      else if ft_ciphertext t = None \<or> ft_ciphertext t = Some JNull
        then Some (BadRequest ''ciphertext is required for group targets'')
      else None)"

definition forward_direct_tx ::
  "env \<Rightarrow> uuid \<Rightarrow> uuid \<Rightarrow> string \<Rightarrow> uuid \<Rightarrow> envelope_dto list \<Rightarrow> media_row list \<Rightarrow> MessageContentType \<Rightarrow>
   (message_row \<times> envelope_row list) svc" where
  "forward_direct_tx e senderUserId senderDeviceId key recipientUserId envs sourceMedia contentType =
     bnd (dbget (\<lambda>d. check_direct d senderUserId senderDeviceId recipientUserId envs)) (\<lambda>chk.
     bnd (lift chk) (\<lambda>recipientDeviceIds.
     bnd (upsert_thread e (fst (canonicalDirectPair senderUserId recipientUserId))
                          (snd (canonicalDirectPair senderUserId recipientUserId))) (\<lambda>thread.
     bnd (increment_thread e (th_id thread)) (\<lambda>sequencedThread.
     bnd (fresh e) (\<lambda>i.
     let message = new_message e i (Some (th_id thread)) None senderUserId senderDeviceId key
           (th_latestSequence sequencedThread) contentType None True in
     thn (create_message message)
    (bnd (create_direct_envelopes e i recipientDeviceIds recipientUserId senderUserId envs) (\<lambda>envelopes.
     thn (whenA (sourceMedia \<noteq> []) (cloneMediaForForward e senderUserId i sourceMedia))
         (ret (message, envelopes)))))))))"

definition forwardToDirect ::
  "env \<Rightarrow> uuid \<Rightarrow> uuid \<Rightarrow> string \<Rightarrow> forward_target \<Rightarrow> media_row list \<Rightarrow> MessageContentType \<Rightarrow> uuid svc" where
  "forwardToDirect e senderUserId senderDeviceId key target sourceMedia contentType =
     (let recipientUserId = coalesce (ft_recipientUserId target) [] in
      bnd (dbget (\<lambda>d. find_message_by_key d senderDeviceId key)) (\<lambda>existing.
      case existing of
        Some m \<Rightarrow> ret (m_id m)
      | None \<Rightarrow>
          catching
            (bnd (tx (forward_direct_tx e senderUserId senderDeviceId key recipientUserId
                   (coalesce (ft_envelopes target) []) sourceMedia contentType)) (\<lambda>created.
             bnd (send_committed e recipientUserId created) (\<lambda>v. ret (v_id v))))
            (\<lambda>er. bnd (send_duplicate senderDeviceId key er) (\<lambda>v. ret (v_id v)))))"

text \<open>\<open>findFirst({ where: { groupId }, orderBy: { threadSequence: 'desc' } })\<close> and the number after it\<close>

definition last_group_message :: "db \<Rightarrow> uuid \<Rightarrow> message_row option" where
  "last_group_message d g = first_of (order_desc m_threadSequence (filter (\<lambda>m. m_groupId m = Some g) (messages d)))"

definition next_group_sequence :: "db \<Rightarrow> uuid \<Rightarrow> int" where
  "next_group_sequence d g = (case last_group_message d g of None \<Rightarrow> 0 | Some m \<Rightarrow> m_threadSequence m) + 1"

definition forward_group_tx ::
  "env \<Rightarrow> uuid \<Rightarrow> uuid \<Rightarrow> string \<Rightarrow> uuid \<Rightarrow> media_row list \<Rightarrow> MessageContentType \<Rightarrow> message_row svc" where
  "forward_group_tx e senderUserId senderDeviceId key groupId sourceMedia contentType =
     bnd (dbget (\<lambda>d. find_message_by_key d senderDeviceId key)) (\<lambda>existingTx.
     case existingTx of
       Some m \<Rightarrow> ret m
     | None \<Rightarrow>
         bnd (dbget (\<lambda>d. next_group_sequence d groupId)) (\<lambda>nextSequence.
         bnd (fresh e) (\<lambda>i.
         let created = new_message e i None (Some groupId) senderUserId senderDeviceId key
               nextSequence contentType None True in
         thn (create_message created)
        (thn (whenA (sourceMedia \<noteq> []) (cloneMediaForForward e senderUserId i sourceMedia))
             (ret created)))))"

definition forwardToGroup ::
  "env \<Rightarrow> uuid \<Rightarrow> uuid \<Rightarrow> string \<Rightarrow> forward_target \<Rightarrow> media_row list \<Rightarrow> MessageContentType \<Rightarrow> uuid svc" where
  "forwardToGroup e senderUserId senderDeviceId key target sourceMedia contentType =
     (let groupId = coalesce (ft_groupId target) [] in
      bnd (dbget (\<lambda>d. find_member d groupId senderUserId)) (\<lambda>member.
      thn (ensure (member \<noteq> None) (Forbidden ''You are not a member of this group''))
     (bnd (dbget (\<lambda>d. find_message_by_key d senderDeviceId key)) (\<lambda>existing.
      case existing of
        Some m \<Rightarrow> ret (m_id m)
      | None \<Rightarrow>
          bnd (tx (forward_group_tx e senderUserId senderDeviceId key groupId sourceMedia contentType)) (\<lambda>message.
          thn (queue_add e (Fanout \<lparr>fj_messageId = m_id message, fj_groupId = groupId,
                 fj_senderUserId = senderUserId, fj_senderDeviceId = senderDeviceId,
                 fj_ciphertext = coalesce (ft_ciphertext target) JNull,
                 fj_threadSequence = m_threadSequence message, fj_replyToMessageId = None,
                 fj_contentType = contentType, fj_createdAt = m_createdAt message,
                 fj_mediaIds = map md_id sourceMedia, fj_forwarded = True\<rparr>))
              (ret (m_id message)))))))"

definition forward_one ::
  "env \<Rightarrow> uuid \<Rightarrow> forward_dto \<Rightarrow> media_row list \<Rightarrow> MessageContentType \<Rightarrow> nat \<times> forward_target \<Rightarrow> forward_result svc" where
  "forward_one e userId dto sourceMedia contentType it =
     (let (i, target) = it; key = f_idempotencyKey dto @ '':'' @ show_nat i in
      case ft_type target of
        Direct \<Rightarrow>
          catching
            (thn (case validateDirectTarget target of Some er \<Rightarrow> throw er | None \<Rightarrow> ret ())
            (bnd (forwardToDirect e userId (f_senderDeviceId dto) key target sourceMedia contentType) (\<lambda>mid.
             ret \<lparr>fr_targetType = Direct, fr_targetId = coalesce (ft_recipientUserId target) [],
                  fr_success = True, fr_messageId = Some mid, fr_error = None\<rparr>)))
            (\<lambda>er. ret \<lparr>fr_targetType = Direct, fr_targetId = coalesce (ft_recipientUserId target) [],
                  fr_success = False, fr_messageId = None, fr_error = Some (error_message er)\<rparr>)
      | Grp \<Rightarrow>
          catching
            (thn (case validateGroupTarget target of Some er \<Rightarrow> throw er | None \<Rightarrow> ret ())
            (bnd (forwardToGroup e userId (f_senderDeviceId dto) key target sourceMedia contentType) (\<lambda>mid.
             ret \<lparr>fr_targetType = Grp, fr_targetId = coalesce (ft_groupId target) [],
                  fr_success = True, fr_messageId = Some mid, fr_error = None\<rparr>)))
            (\<lambda>er. ret \<lparr>fr_targetType = Grp, fr_targetId = coalesce (ft_groupId target) [],
                  fr_success = False, fr_messageId = None, fr_error = Some (error_message er)\<rparr>))"

definition forward :: "env \<Rightarrow> uuid \<Rightarrow> forward_dto \<Rightarrow> forward_result list svc" where
  "forward e userId dto =
     thn (assertActiveDevice userId (f_senderDeviceId dto))
    (bnd (assertMessageAccess userId (f_sourceMessageId dto)) (\<lambda>sourceMessage.
     thn (ensure (m_deletedAt sourceMessage = None) (Forbidden ''Cannot forward a deleted message''))
    (bnd (dbget (\<lambda>d. media_of d (f_sourceMessageId dto))) (\<lambda>sourceMedia.
     map_act (forward_one e userId dto sourceMedia (m_contentType sourceMessage))
       (enumerate 0 (f_targets dto))))))"

section \<open>Fetching\<close>

definition pending_rows :: "db \<Rightarrow> uuid \<Rightarrow> int option \<Rightarrow> envelope_row list" where
  "pending_rows d deviceId after = order_asc e_envelopeSequence (filter (\<lambda>x.
     e_recipientDeviceId x = deviceId \<and> (e_status x = PENDING \<or> e_status x = DELIVERED)
     \<and> (case after of None \<Rightarrow> True | Some a \<Rightarrow> a < e_envelopeSequence x)) (messageEnvelopes d))"

definition getPending :: "uuid \<Rightarrow> uuid \<Rightarrow> int option \<Rightarrow> nat \<Rightarrow> (envelope_row list \<times> bool) svc" where
  "getPending userId deviceId after limit =
     thn (assertActiveDevice userId deviceId)
    (bnd (dbget (\<lambda>d. take limit (pending_rows d deviceId after))) (\<lambda>envs.
     ret (envs, length envs = limit)))"

record sync_result =
  sy_requiresFullReload :: bool
  sy_envelopes :: "(envelope_row \<times> bool) list"
  sy_deletedMessages :: "message_row list"
  sy_hasMore :: bool

definition sync_isEdit :: "db \<Rightarrow> envelope_row \<Rightarrow> bool" where
  "sync_isEdit d x = (e_envelopeVersion x > 1 \<or>
     (case find_message d (e_messageId x) of
        None \<Rightarrow> False
      | Some m \<Rightarrow> (case m_editedAt m of None \<Rightarrow> False | Some t \<Rightarrow> e_updatedAt x \<ge> t)))"

definition visible_to :: "db \<Rightarrow> uuid \<Rightarrow> message_row \<Rightarrow> bool" where
  "visible_to d userId m =
     ((case m_threadId m of None \<Rightarrow> False | Some t \<Rightarrow> (case find_thread d t of None \<Rightarrow> False
        | Some th \<Rightarrow> th_userAId th = userId \<or> th_userBId th = userId))
    \<or> (case m_groupId m of None \<Rightarrow> False | Some g \<Rightarrow> find_member d g userId \<noteq> None))"

text \<open>\<open>since\<close> is the parsed timestamp, \<open>None\<close> when \<open>new Date(since)\<close> is not a date.\<close>

definition sync :: "env \<Rightarrow> uuid \<Rightarrow> uuid \<Rightarrow> time option \<Rightarrow> nat \<Rightarrow> sync_result svc" where
  "sync e userId deviceId since limit =
     thn (assertActiveDevice userId deviceId)
    (bnd (require since (BadRequest ''Invalid since timestamp'')) (\<lambda>sinceDate.
     let windowStart = now e - 14 * 24 * 60 * 60 * 1000 in
     if sinceDate < windowStart
     then ret \<lparr>sy_requiresFullReload = True, sy_envelopes = [], sy_deletedMessages = [], sy_hasMore = False\<rparr>
     else
       (let lim = min limit 500 in
        bnd (dbget (\<lambda>d. take (lim + 1) (order_asc e_updatedAt (filter (\<lambda>x.
               e_recipientDeviceId x = deviceId \<and> sinceDate < e_updatedAt x) (messageEnvelopes d))))) (\<lambda>envs.
        let hasMore = length envs > lim; slicedEnvelopes = (if hasMore then take lim envs else envs) in
        bnd (dbget (\<lambda>d. take 200 (order_asc (\<lambda>m. coalesce (m_deletedAt m) 0) (filter (\<lambda>m.
               (case m_deletedAt m of None \<Rightarrow> False | Some t \<Rightarrow> sinceDate < t) \<and> visible_to d userId m) (messages d))))) (\<lambda>deletedMessages.
        bnd (dbget (\<lambda>d. map (\<lambda>x. (x, sync_isEdit d x)) slicedEnvelopes)) (\<lambda>es.
        ret \<lparr>sy_requiresFullReload = False, sy_envelopes = es, sy_deletedMessages = deletedMessages,
             sy_hasMore = hasMore\<rparr>))))))"

section \<open>Acknowledging\<close>

definition ack_all :: "env \<Rightarrow> uuid \<Rightarrow> uuid \<Rightarrow> time option \<Rightarrow> envelope_row list \<Rightarrow> envelope_row list" where
  "ack_all e messageId userId deliveredAt = update_where
     (\<lambda>x. e_messageId x = messageId \<and> e_recipientUserId x = userId \<and> e_status x \<noteq> READ)
     (\<lambda>x. x\<lparr>e_status := READ, e_readAt := Some (now e),
            e_deliveredAt := Some (coalesce deliveredAt (now e)), e_updatedAt := now e\<rparr>)"

definition ack_one :: "env \<Rightarrow> uuid \<Rightarrow> uuid \<Rightarrow> AckStatus \<Rightarrow> time option \<Rightarrow> envelope_row list \<Rightarrow> envelope_row list" where
  "ack_one e messageId deviceId status deliveredAt = update_where
     (\<lambda>x. e_messageId x = messageId \<and> e_recipientDeviceId x = deviceId)
     (\<lambda>x. case status of
        AckRead \<Rightarrow> x\<lparr>e_status := READ, e_deliveredAt := Some (coalesce deliveredAt (now e)),
                     e_readAt := Some (now e), e_updatedAt := now e\<rparr>
      | AckDelivered \<Rightarrow> x\<lparr>e_status := DELIVERED, e_deliveredAt := Some (coalesce deliveredAt (now e)),
                     e_updatedAt := now e\<rparr>)"

definition ack :: "env \<Rightarrow> uuid \<Rightarrow> uuid \<Rightarrow> uuid \<Rightarrow> AckStatus \<Rightarrow> envelope_row svc" where
  "ack e userId messageId deviceId status =
     thn (assertActiveDevice userId deviceId)
    (bnd (dbget (\<lambda>d. find_envelope d messageId deviceId)) (\<lambda>found.
     bnd (require found (NotFound ''Message envelope not found for device'')) (\<lambda>envelope.
     thn (ensure (e_recipientUserId envelope = userId) (NotFound ''Message envelope not found for device''))
    (thn (whenA (status = AckRead)
           (dbset (messageEnvelopes_update (ack_all e messageId userId (e_deliveredAt envelope)))))
    (thn (dbset (messageEnvelopes_update (ack_one e messageId deviceId status (e_deliveredAt envelope))))
    (bnd (dbget (\<lambda>d. find_envelope d messageId deviceId)) (\<lambda>foundUpdated.
     bnd (require foundUpdated (PrismaError ''P2025'')) (\<lambda>updated.
     bnd (dbget (\<lambda>d. find_message d messageId)) (\<lambda>foundMessage.
     bnd (require foundMessage (PrismaError ''P2025'')) (\<lambda>message.
     thn (emit (EvMessageAck \<lparr>ak_messageId = messageId, ak_deviceId = deviceId, ak_userId = userId,
            ak_status = e_status updated, ak_threadId = m_threadId message, ak_groupId = m_groupId message,
            ak_threadSequence = m_threadSequence message, ak_senderUserId = m_senderUserId message,
            ak_senderDeviceId = m_senderDeviceId message\<rparr>))
    (thn (whenA (status = AckRead)
           (case m_threadId message of
              Some t \<Rightarrow> catch_emit ''Failed to enqueue unread recalc'' (enqueueRecalc e userId t Direct ''ack_read'')
            | None \<Rightarrow> (case m_groupId message of
                Some g \<Rightarrow> catch_emit ''Failed to enqueue unread recalc'' (enqueueRecalc e userId g Grp ''ack_read'')
              | None \<Rightarrow> ret ())))
         (ret updated))))))))))))"

definition markAllReadMessages :: "env \<Rightarrow> uuid \<Rightarrow> uuid \<Rightarrow> uuid \<Rightarrow> ThreadType \<Rightarrow> unit svc" where
  "markAllReadMessages e userId deviceId threadId threadType =
     thn (assertActiveDevice userId deviceId)
    (thn (markAllRead e userId threadId threadType)
         (emit (EvMarkedAllRead userId threadId threadType)))"

section \<open>Editing and deleting\<close>

definition within_limit :: "env \<Rightarrow> message_row \<Rightarrow> bool" where
  "within_limit e m =
     (let limitEnabled = coalesce (ENABLE_MESSAGE_EDIT_DELETE_LIMIT (cfg e)) True;
          limitHours = coalesce (MESSAGE_EDIT_DELETE_LIMIT_HOURS (cfg e)) 48 in
      \<not> limitEnabled \<or> now e - m_createdAt m \<le> limitHours * 60 * 60 * 1000)"

definition limit_error :: "env \<Rightarrow> string \<Rightarrow> error" where
  "limit_error e what = Forbidden (what @ '' is only allowed within ''
     @ show_int (coalesce (MESSAGE_EDIT_DELETE_LIMIT_HOURS (cfg e)) 48) @ '' hours'')"

text \<open>\<open>updateMany({ where: { id, lastEditIdempotencyKey: { not: key } } })\<close>: which row it selects, and
  the write.\<close>

definition edit_selects :: "uuid \<Rightarrow> string \<Rightarrow> message_row \<Rightarrow> bool" where
  "edit_selects messageId key m \<longleftrightarrow> m_id m = messageId \<and> sql_not (m_lastEditIdempotencyKey m) key"

definition mark_edited :: "env \<Rightarrow> uuid \<Rightarrow> string \<Rightarrow> nat svc" where
  "mark_edited e messageId key =
     bnd (dbget (\<lambda>d. count_where (edit_selects messageId key) (messages d))) (\<lambda>count.
     thn (dbset (messages_update (update_where (edit_selects messageId key)
           (\<lambda>m. m\<lparr>m_editedAt := Some (now e), m_lastEditIdempotencyKey := Some key\<rparr>))))
         (ret count))"

definition refresh_envelope :: "env \<Rightarrow> uuid \<Rightarrow> envelope_dto \<Rightarrow> envelope_row list \<Rightarrow> envelope_row list" where
  "refresh_envelope e messageId x = update_where
     (\<lambda>r. e_messageId r = messageId \<and> e_recipientDeviceId r = ed_recipientDeviceId x)
     (\<lambda>r. r\<lparr>e_ciphertext := ed_ciphertext x, e_envelopeVersion := e_envelopeVersion r + 1, e_updatedAt := now e\<rparr>)"

definition thread_others :: "db \<Rightarrow> message_row \<Rightarrow> uuid \<Rightarrow> uuid list option" where
  "thread_others d m userId = (case m_threadId m of
     None \<Rightarrow> None
   | Some t \<Rightarrow> map_option (\<lambda>th. filter (\<lambda>i. i \<noteq> userId) [th_userAId th, th_userBId th]) (find_thread d t))"

definition edit :: "env \<Rightarrow> uuid \<Rightarrow> uuid \<Rightarrow> edit_dto \<Rightarrow> message_view svc" where
  "edit e userId messageId dto =
     thn (assertActiveDevice userId (ed_senderDeviceId dto))
    (bnd (assertMessageAccess userId messageId) (\<lambda>message.
     thn (ensure (m_senderUserId message = userId) (Forbidden ''Only the sender can edit a message''))
    (thn (ensure (m_deletedAt message = None) (Forbidden ''Cannot edit a deleted message''))
    (thn (ensure (within_limit e message) (limit_error e ''Edit''))
    (bnd (mark_edited e messageId (ed_idempotencyKey dto)) (\<lambda>count.
     if count = 0 then
       bnd (dbget (\<lambda>d. find_message d messageId)) (\<lambda>found.
       bnd (require found (NotFound ''Message not found'')) (\<lambda>existing.
       dbget (\<lambda>d. serializeMessage existing (envelopes_of d messageId) [])))
     else
       thn (for_each (ed_envelopes dto) (\<lambda>x. dbset (messageEnvelopes_update (refresh_envelope e messageId x))))
      (bnd (dbget (\<lambda>d. find_message d messageId)) (\<lambda>found.
       bnd (require found (NotFound ''Message not found after edit'')) (\<lambda>updated.
       bnd (dbget (\<lambda>d. filter (\<lambda>x. e_recipientDeviceId x \<in> set (map ed_recipientDeviceId (ed_envelopes dto)))
              (envelopes_of d messageId))) (\<lambda>envs.
       bnd (dbget (\<lambda>d. thread_others d updated userId)) (\<lambda>targets.
       let ev = \<lparr>ee_messageId = m_id updated, ee_threadId = m_threadId updated, ee_groupId = m_groupId updated,
             ee_senderUserId = m_senderUserId updated, ee_senderDeviceId = m_senderDeviceId updated,
             ee_editedAt = m_editedAt updated, ee_envelopes = envs\<rparr> in
       thn (if m_groupId updated \<noteq> None then emit (EvMessageEditedGroup ev)
            else (case targets of Some ts \<Rightarrow> emit (EvMessageEdited ev ts) | None \<Rightarrow> ret ()))
      (thn (catch_emit ''Failed to enqueue edit push wakeup'' (sendEditWakeup e (map push_target_of envs)))
           (ret (serializeMessage updated envs []))))))))))))))"

definition upsert_hidden :: "uuid \<Rightarrow> uuid \<Rightarrow> db \<Rightarrow> db" where
  "upsert_hidden userId messageId d =
     (if exists_where (\<lambda>h. hm_userId h = userId \<and> hm_messageId h = messageId) (hiddenMessages d) then d
      else hiddenMessages_update (\<lambda>hs. hs @ [\<lparr>hm_userId = userId, hm_messageId = messageId\<rparr>]) d)"

definition audit_write ::
  "env \<Rightarrow> uuid option \<Rightarrow> AdminAuditAction \<Rightarrow> AdminAuditTargetType \<Rightarrow> uuid \<Rightarrow> string option \<Rightarrow> json \<Rightarrow> audit_row svc" where
  "audit_write e actor action targetType targetId reason metadata = bnd (fresh e) (\<lambda>i.
     let row = \<lparr>al_id = i, al_actorUserId = actor, al_action = action, al_targetType = targetType,
           al_targetId = targetId, al_reason = reason, al_metadata = metadata, al_createdAt = now e\<rparr> in
     thn (dbset (adminAuditLog_update (\<lambda>xs. xs @ [row]))) (ret row))"

text \<open>Who deletes: the sender, or an administrator of the group.\<close>

definition delete_authority :: "db \<Rightarrow> uuid \<Rightarrow> message_row \<Rightarrow> error + DeletedBy" where
  "delete_authority d userId message =
     (if m_senderUserId message = userId then Inr SENDER
      else (case m_groupId message of
        None \<Rightarrow> Inl (Forbidden ''Only the sender can delete a direct message for everyone'')
      | Some g \<Rightarrow> (case find_member d g userId of
          None \<Rightarrow> Inl (Forbidden ''Only the sender or a group admin can delete this message'')
        | Some member \<Rightarrow>
            if gm_role member \<noteq> G_ADMIN
              then Inl (Forbidden ''Only the sender or a group admin can delete this message'')
            else Inr GROUP_ADMIN)))"

definition tombstone :: "time \<Rightarrow> uuid \<Rightarrow> message_row list \<Rightarrow> message_row list" where
  "tombstone t messageId = update_where (\<lambda>m. m_id m = messageId) (\<lambda>m. m\<lparr>m_deletedAt := Some t\<rparr>)"

definition delete_tx :: "env \<Rightarrow> uuid \<Rightarrow> uuid \<Rightarrow> DeletedBy \<Rightarrow> message_row svc" where
  "delete_tx e userId messageId deletedBy =
     thn (dbset (messages_update (tombstone (now e) messageId)))
    (bnd (dbget (\<lambda>d. find_message d messageId)) (\<lambda>found.
     bnd (require found (PrismaError ''P2025'')) (\<lambda>tombstoned.
     thn (whenA (deletedBy = GROUP_ADMIN)
           (bnd (audit_write e (Some userId) MESSAGE_TOMBSTONE T_MESSAGE messageId (Some ''group_admin_delete'')
             (JObj [(''scope'', JStr ''group'')])) (\<lambda>_. ret ())))
         (ret tombstoned))))"

text \<open>What follows the transaction: the event to the other participants or to the group, the wake-ups, and the
  clean-up of the stored media.\<close>

definition delete_committed :: "env \<Rightarrow> uuid \<Rightarrow> uuid \<Rightarrow> DeletedBy \<Rightarrow> message_row \<Rightarrow> DeletedBy option svc" where
  "delete_committed e userId messageId deletedBy updated =
     bnd (dbget (\<lambda>d. (thread_others d updated userId, envelopes_of d messageId))) (\<lambda>(targets, envs).
     let ev = \<lparr>de_messageId = m_id updated, de_threadId = m_threadId updated, de_groupId = m_groupId updated,
           de_senderUserId = m_senderUserId updated, de_deletedAt = m_deletedAt updated,
           de_deletedBy = deletedBy, de_deletedByUserId = userId\<rparr> in
     thn (if m_groupId updated \<noteq> None then emit (EvMessageDeletedGroup ev)
          else (case targets of Some ts \<Rightarrow> emit (EvMessageDeleted ev ts) | None \<Rightarrow> ret ()))
    (thn (catch_emit ''Failed to enqueue delete push wakeup'' (sendDeleteWakeup e (map push_target_of envs)))
    (thn (catch_emit ''Failed to enqueue media cleanup'' (cleanupMessageMedia e messageId))
         (ret (Some deletedBy)))))"

definition delete :: "env \<Rightarrow> uuid \<Rightarrow> uuid \<Rightarrow> uuid \<Rightarrow> DeleteScope \<Rightarrow> DeletedBy option svc" where
  "delete e userId messageId deviceId scope =
     thn (assertActiveDevice userId deviceId)
    (bnd (assertMessageAccess userId messageId) (\<lambda>message.
     case scope of
       FOR_ME \<Rightarrow> thn (dbset (upsert_hidden userId messageId)) (ret None)
     | FOR_EVERYONE \<Rightarrow>
         bnd (dbget (\<lambda>d. delete_authority d userId message)) (\<lambda>auth.
         bnd (lift auth) (\<lambda>deletedBy.
         thn (ensure (within_limit e message) (limit_error e ''Delete for everyone''))
        (bnd (tx (delete_tx e userId messageId deletedBy)) (\<lambda>updated.
         delete_committed e userId messageId deletedBy updated))))))"

end
