(* ===== verification/Demo.thy ===== *)
theory Demo
  imports Messages
begin

text \<open>
  A small concrete deployment on which the operations are run: two users, Ann with two devices and
  Bob with one, a group of both with Ann as its administrator, an identifier generator that counts,
  hash functions that only tag their input, queues and Redis that answer.
\<close>

definition demo_env :: env where
  "demo_env = \<lparr>now = 1000000, cfg = default_config, mkId = (\<lambda>n. ''i'' @ show_nat n),
     sha256 = (\<lambda>s. ''h'' @ s), hmacSha256 = (\<lambda>k s. k @ ''#'' @ s), signJwt = (\<lambda>u i. u @ ''.'' @ i),
     queueErr = (\<lambda>_. None), redisErr = None\<rparr>"

definition demo_user :: "uuid \<Rightarrow> UserRole \<Rightarrow> user_row" where
  "demo_user i r = \<lparr>u_id = i, u_phoneHash = ''p'' @ i, u_phoneMasked = None, u_status = ACTIVE, u_role = r,
     u_createdAt = 0, u_updatedAt = 0, u_username = None, u_profileAvatarUrl = None,
     u_encryptedProfile = None, u_profileKeyHash = None, u_strikeCount = 0, u_lastStrikeAt = None\<rparr>"

definition demo_device :: "uuid \<Rightarrow> uuid \<Rightarrow> device_row" where
  "demo_device i u = \<lparr>d_id = i, d_userId = u, d_platform = IOS, d_displayName = None,
     d_identityPublicKey = ''k'' @ i, d_pushToken = None, d_pushPlatform = None, d_pushActive = True,
     d_active = True, d_lastSeenAt = None, d_createdAt = 0\<rparr>"

definition demo_db :: db where
  "demo_db = empty_db\<lparr>
     users := [demo_user ''ann'' ADMIN, demo_user ''bob'' USER],
     devices := [demo_device ''a1'' ''ann'', demo_device ''a2'' ''ann'', demo_device ''b1'' ''bob''],
     groups := [\<lparr>g_id = ''g'', g_encryptedMetadata = JNull, g_createdAt = 0, g_updatedAt = 0\<rparr>],
     groupMembers := [\<lparr>gm_groupId = ''g'', gm_userId = ''ann'', gm_role = G_ADMIN, gm_joinedAt = 0\<rparr>,
                      \<lparr>gm_groupId = ''g'', gm_userId = ''bob'', gm_role = G_MEMBER, gm_joinedAt = 0\<rparr>]\<rparr>"

definition demo_redis :: redis_store where
  "demo_redis = \<lparr>r_groupMembers = (\<lambda>_. None), r_reactions = (\<lambda>_. None), r_counters = (\<lambda>_. 0),
     r_userSockets = (\<lambda>_. None), r_deviceSockets = (\<lambda>_. None), r_socketInfo = (\<lambda>_. None)\<rparr>"

definition demo_world :: world where
  "demo_world = \<lparr>w_db = demo_db, w_supply = 0, w_envSeq = 1, w_events = [], w_jobs = [], w_pubs = [],
     w_redis = demo_redis\<rparr>"

definition demo_send :: send_dto where
  "demo_send = \<lparr>s_senderDeviceId = ''a1'', s_recipientUserId = ''bob'', s_idempotencyKey = ''k'',
     s_contentType = None, s_replyToMessageId = None, s_mediaIds = None,
     s_envelopes = [\<lparr>ed_recipientDeviceId = ''b1'', ed_ciphertext = JStr ''x''\<rparr>,
                    \<lparr>ed_recipientDeviceId = ''a2'', ed_ciphertext = JStr ''y''\<rparr>]\<rparr>"

text \<open>A run that was computed to succeed has a result.\<close>

lemma run_okE:
  assumes "\<not> isl (fst (m w))"
  obtains x w' where "m w = (Inr x, w')"
  using assms by (cases "m w"; cases "fst (m w)") auto

lemma run_errE:
  assumes "isl (fst (m w))"
  obtains x w' where "m w = (Inl x, w')"
  using assms by (cases "m w"; cases "fst (m w)") auto

lemma demo_chat_inv: "chat_inv demo_db"
  by (simp add: chat_inv_def chat_inv_defs empty_db_def demo_db_def)

lemma demo_world_db [simp]: "w_db demo_world = demo_db"
  by (simp add: demo_world_def)

lemma demo_send_runs: "\<not> isl (fst (send demo_env ''ann'' demo_send demo_world))"
  by code_simp

end
