(* ===== verification/Messages_Send.thy ===== *)
theory Messages_Send
  imports Demo
begin

text \<open>
  Correctness of the sending paths of \<open>messages.service.ts\<close>: what a committed transaction has done
  to the tables, that it keeps the chat invariant, and that sending is idempotent per device and
  idempotency key.
\<close>

section \<open>Steps of the transaction\<close>

lemma bump_thread_map [simp]:
  "map th_id (bump_thread e i ts) = map th_id ts"
  "map (\<lambda>t. (th_userAId t, th_userBId t)) (bump_thread e i ts) = map (\<lambda>t. (th_userAId t, th_userBId t)) ts"
  by (simp_all add: bump_thread_def map_update_where)

lemma bump_thread_ids: "th_id ` set (bump_thread e i ts) = th_id ` set ts"
  by (metis bump_thread_map(1) set_map)

lemma in_bump_thread:
  assumes "x \<in> set (bump_thread e i ts)"
  obtains t where "t \<in> set ts" "th_id x = th_id t" "th_userAId x = th_userAId t" "th_userBId x = th_userBId t"
    "th_latestSequence x = th_latestSequence t + (if th_id t = i then 1 else 0)"
  using assms unfolding bump_thread_def by (auto elim!: in_update_whereE split: if_splits)

lemma find_bump_thread:
  assumes "distinct (map th_id (directThreads d))" and "t \<in> set (directThreads d)"
  shows "find_thread (directThreads_update (bump_thread e (th_id t)) d) (th_id t)
    = Some (t\<lparr>th_latestSequence := th_latestSequence t + 1, th_updatedAt := now e\<rparr>)"
proof -
  have "List.find (\<lambda>x. th_id x = th_id t) (directThreads d) = Some t"
    using find_unique [OF assms] by simp
  then show ?thesis
    by (simp add: find_thread_def bump_thread_def find_update_where)
qed

text \<open>One new message in a thread, with the next number.\<close>

lemma append_direct_inv:
  assumes inv: "chat_inv d" and t: "t \<in> set (directThreads d)"
    and m: "m_threadId m = Some (th_id t)" "m_groupId m = None"
      "m_threadSequence m = th_latestSequence t + 1"
    and uniq: "message_unique_ok d m"
    and rep: "\<And>r. m_replyToMessageId m = Some r \<Longrightarrow>
      \<exists>p\<in>set (messages d). m_id p = r \<and> m_replyToMessageId p = None \<and> m_threadId p = Some (th_id t)"
  shows "chat_inv (messages_update (\<lambda>ms. ms @ [m]) (directThreads_update (bump_thread e (th_id t)) d))"
    (is "chat_inv ?d")
proof -
  have ki: "key_inv d" and ti: "thread_inv d" and gi: "group_inv d" and ri: "reply_inv d" and ei: "envelope_inv d"
    using inv by (simp_all add: chat_inv_def)
  have seqs: "thread_seqs ?d x = thread_seqs d x @ (if x = th_id t then [th_latestSequence t + 1] else [])" for x
    by (simp add: thread_seqs_def m)
  have "key_inv ?d"
    using ki uniq m by (auto simp: key_inv_def message_unique_ok_def)
  moreover have "thread_inv ?d"
  proof -
    have "\<forall>x\<in>set (bump_thread e (th_id t) (directThreads d)). th_userAId x < th_userBId x \<and> 0 \<le> th_latestSequence x
          \<and> thread_seqs ?d (th_id x) = [1..th_latestSequence x]"
    proof
      fix x assume "x \<in> set (bump_thread e (th_id t) (directThreads d))"
      then obtain y where y: "y \<in> set (directThreads d)" "th_id x = th_id y" "th_userAId x = th_userAId y"
          "th_userBId x = th_userBId y" "th_latestSequence x = th_latestSequence y + (if th_id y = th_id t then 1 else 0)"
        by (rule in_bump_thread)
      have yi: "th_userAId y < th_userBId y" "0 \<le> th_latestSequence y" "thread_seqs d (th_id y) = [1..th_latestSequence y]"
        using ti y(1) by (auto simp: thread_inv_def)
      have "th_id y = th_id t \<Longrightarrow> y = t"
        using unique_row [of th_id "directThreads d" y t] ti y(1) t by (simp add: thread_inv_def)
      then show "th_userAId x < th_userBId x \<and> 0 \<le> th_latestSequence x \<and> thread_seqs ?d (th_id x) = [1..th_latestSequence x]"
        using yi by (auto simp: y seqs upto_snoc)
    qed
    moreover have "th_id ` set (bump_thread e (th_id t) (directThreads d)) = th_id ` set (directThreads d)"
      by (rule bump_thread_ids)
    ultimately show ?thesis
      using ti t m(1) by (auto simp: thread_inv_def)
  qed
  moreover have "group_inv ?d"
  proof -
    have "group_seqs ?d g = group_seqs d g" for g by (simp add: group_seqs_def m)
    then show ?thesis using gi by (simp add: group_inv_def)
  qed
  moreover have "reply_inv ?d"
  proof -
    have "\<exists>p\<in>set (messages d). m_id p = r \<and> m_replyToMessageId p = None \<and> m_threadId p = m_threadId m \<and> m_groupId p = m_groupId m"
      if "m_replyToMessageId m = Some r" for r
      using rep [OF that] ki m by (fastforce simp: key_inv_def)
    with ri show ?thesis by (fastforce simp: reply_inv_def)
  qed
  moreover have "envelope_inv ?d" using ei by (auto simp: envelope_inv_def)
  ultimately show ?thesis by (simp add: chat_inv_def)
qed

lemma upsert_thread_ok:
  assumes "upsert_thread e a b w = (Inr t, w')"
  shows "w_db w' = w_db w \<and> find_thread_by_pair (w_db w) a b = Some t
     \<or> find_thread_by_pair (w_db w) a b = None
       \<and> t = \<lparr>th_id = mkId e (w_supply w), th_userAId = a, th_userBId = b, th_latestSequence = 0,
              th_createdAt = now e, th_updatedAt = now e\<rparr>
       \<and> (\<forall>x\<in>set (directThreads (w_db w)). th_id x \<noteq> th_id t)
       \<and> w_db w' = directThreads_update (\<lambda>ts. ts @ [t]) (w_db w)"
  using assms by (auto simp: upsert_thread_def create_thread_def ok_simps Let_def split: option.splits)

text \<open>After the upsert the thread of the pair is there, the invariant holds, and nothing else has
  changed.\<close>

lemma upsert_thread_inv:
  assumes "upsert_thread e a b w = (Inr t, w')" and "chat_inv (w_db w)" and "a < b"
  shows "chat_inv (w_db w')" "t \<in> set (directThreads (w_db w'))" "th_userAId t = a" "th_userBId t = b"
    "\<exists>ts. w_db w' = directThreads_update (\<lambda>_. ts) (w_db w)"
proof -
  consider (old) "w_db w' = w_db w" "find_thread_by_pair (w_db w) a b = Some t"
    | (new) "t = \<lparr>th_id = mkId e (w_supply w), th_userAId = a, th_userBId = b, th_latestSequence = 0,
              th_createdAt = now e, th_updatedAt = now e\<rparr>"
      "find_thread_by_pair (w_db w) a b = None"
      "\<forall>x\<in>set (directThreads (w_db w)). th_id x \<noteq> th_id t"
      "w_db w' = directThreads_update (\<lambda>ts. ts @ [t]) (w_db w)"
    using upsert_thread_ok [OF assms(1)] by (elim disjE conjE) auto
  then have "chat_inv (w_db w') \<and> t \<in> set (directThreads (w_db w')) \<and> th_userAId t = a \<and> th_userBId t = b
    \<and> (\<exists>ts. w_db w' = directThreads_update (\<lambda>_. ts) (w_db w))"
  proof cases
    case old
    moreover from old have "\<exists>ts. w_db w' = directThreads_update (\<lambda>_. ts) (w_db w)"
      by (intro exI [of _ "directThreads (w_db w)"]) simp
    ultimately show ?thesis
      using assms(2) find_Some_in [of "\<lambda>t. th_userAId t = a \<and> th_userBId t = b" "directThreads (w_db w)" t]
      by (simp add: find_thread_by_pair_def)
  next
    case new
    have none: "thread_seqs (w_db w) (th_id t) = []"
    proof -
      have "\<forall>m\<in>set (messages (w_db w)). m_threadId m \<noteq> Some (th_id t)"
        using assms(2) new(3) by (fastforce simp: chat_inv_def thread_inv_def)
      then show ?thesis by (simp add: thread_seqs_def filter_empty_conv)
    qed
    have "\<forall>x\<in>set (directThreads (w_db w)). th_userAId x = a \<longrightarrow> th_userBId x \<noteq> b"
      using new(2) by (simp add: find_thread_by_pair_def find_None_all)
    then have "chat_inv (w_db w')"
      using assms(2,3) new none unfolding new(4) chat_inv_def
      by (auto simp: key_inv_def thread_inv_def group_inv_def reply_inv_def envelope_inv_def
          thread_seqs_def group_seqs_def)
    moreover have "w_db w' = directThreads_update (\<lambda>_. directThreads (w_db w) @ [t]) (w_db w)"
      unfolding new(4) by (cases "w_db w") simp
    moreover have "t \<in> set (directThreads (w_db w'))" by (simp add: new(4))
    moreover have "th_userAId t = a" "th_userBId t = b" by (simp_all add: new(1))
    ultimately show ?thesis by blast
  qed
  then show "chat_inv (w_db w')" "t \<in> set (directThreads (w_db w'))" "th_userAId t = a" "th_userBId t = b"
    "\<exists>ts. w_db w' = directThreads_update (\<lambda>_. ts) (w_db w)" by auto
qed

lemma increment_thread_ok:
  assumes "increment_thread e (th_id t) w = (Inr s, w')" and "thread_inv (w_db w)"
    and "t \<in> set (directThreads (w_db w))"
  shows "s = t\<lparr>th_latestSequence := th_latestSequence t + 1, th_updatedAt := now e\<rparr>"
    "w' = w\<lparr>w_db := directThreads_update (bump_thread e (th_id t)) (w_db w)\<rparr>"
  using assms find_bump_thread [of "w_db w" t e]
  by (auto simp: increment_thread_def ok_simps thread_inv_def)

text \<open>The envelopes of a new message: one row per request envelope, in order.\<close>

lemma create_direct_envelopes_ok:
  assumes "create_direct_envelopes e mid rds rcp snd0 envs w = (Inr es, w')"
  shows "w_db w' = messageEnvelopes_update (\<lambda>xs. xs @ es) (w_db w)
    \<and> map e_recipientDeviceId es = map ed_recipientDeviceId envs
    \<and> map e_ciphertext es = map ed_ciphertext envs
    \<and> map e_recipientUserId es = map (\<lambda>x. if ed_recipientDeviceId x \<in> set rds then rcp else snd0) envs
    \<and> (\<forall>x\<in>set es. e_messageId x = mid \<and> e_status x = PENDING)
    \<and> distinct (map ed_recipientDeviceId envs)
    \<and> (\<forall>x\<in>set envs. find_envelope (w_db w) mid (ed_recipientDeviceId x) = None)
    \<and> w_events w' = w_events w \<and> w_jobs w' = w_jobs w"
  using assms unfolding create_direct_envelopes_def
proof (induction envs arbitrary: w es)
  case Nil
  then show ?case by (simp add: ok_simps)
next
  case (Cons x envs)
  then obtain r rs w1 where r: "create_envelope e mid (if ed_recipientDeviceId x \<in> set rds then rcp else snd0)
        (ed_recipientDeviceId x) (ed_ciphertext x) w = (Inr r, w1)"
      and rs: "map_act (\<lambda>x. create_envelope e mid
        (if ed_recipientDeviceId x \<in> set rds then rcp else snd0) (ed_recipientDeviceId x) (ed_ciphertext x)) envs w1 = (Inr rs, w')"
      and es: "es = r # rs"
    by (auto simp: ok_simps)
  note IH = Cons.IH [OF rs]
  have w1: "w_db w1 = messageEnvelopes_update (\<lambda>xs. xs @ [r]) (w_db w)" "w_events w1 = w_events w" "w_jobs w1 = w_jobs w"
      "e_recipientDeviceId r = ed_recipientDeviceId x" "e_messageId r = mid" "e_ciphertext r = ed_ciphertext x"
      "e_status r = PENDING" "e_recipientUserId r = (if ed_recipientDeviceId x \<in> set rds then rcp else snd0)"
      "find_envelope (w_db w) mid (ed_recipientDeviceId x) = None"
    using r by (auto simp: create_envelope_ok)
  have new: "find_envelope (w_db w) mid (ed_recipientDeviceId y) = None \<and> ed_recipientDeviceId y \<noteq> ed_recipientDeviceId x"
    if "y \<in> set envs" for y
  proof -
    have "find_envelope (w_db w1) mid (ed_recipientDeviceId y) = None" using IH that by blast
    then show ?thesis using w1 by (auto simp: find_envelope_def find_None_all)
  qed
  then have "ed_recipientDeviceId x \<notin> ed_recipientDeviceId ` set envs" by fastforce
  with new IH w1 es show ?case by (auto simp: comp_def)
qed

lemma append_envelopes_inv:
  assumes "chat_inv d" and "mid \<in> m_id ` set (messages d)"
    and "\<forall>x\<in>set es. e_messageId x = mid" and "distinct (map e_recipientDeviceId es)"
    and "\<forall>x\<in>set es. find_envelope d mid (e_recipientDeviceId x) = None"
  shows "chat_inv (messageEnvelopes_update (\<lambda>xs. xs @ es) d)"
proof -
  have "distinct (map (\<lambda>x. (e_messageId x, e_recipientDeviceId x)) es)"
    using assms(4) by (induction es) (auto simp: image_iff)
  with assms show ?thesis
    by (auto simp: chat_inv_def key_inv_def thread_inv_def group_inv_def reply_inv_def envelope_inv_def
        thread_seqs_def group_seqs_def find_envelope_def find_None_all)
qed

lemma assertAttachmentsOwned_ok:
  "assertAttachmentsOwned e u ids w = (Inr rows, w') \<Longrightarrow> w' = w"
  by (auto simp: assertAttachmentsOwned_def ok_simps Let_def split: if_splits option.splits)

lemma check_direct_distinct_users: "check_direct d s dev r envs = Inr rds \<Longrightarrow> s \<noteq> r"
  by (auto simp: check_direct_def Let_def split: if_splits option.splits)

lemma check_reply_thread_frame: "messages d' = messages d \<Longrightarrow> check_reply_thread d' t r = check_reply_thread d t r"
  by (auto simp: check_reply_thread_def find_message_def split: option.split)

lemma check_reply_thread_ok:
  "check_reply_thread d t rep = Inr (Some r) \<Longrightarrow>
   \<exists>p\<in>set (messages d). m_id p = r \<and> m_replyToMessageId p = None \<and> m_threadId p = Some t"
  by (auto simp: check_reply_thread_def find_message_def split: option.splits if_splits dest!: find_Some_in)

section \<open>The committed transaction\<close>

text \<open>What a committed send has done: the checks passed, the thread of the pair exists, and the
  tables are the old ones with the thread's counter bumped and the message and its envelopes
  appended.\<close>

lemma send_tx_summary:
  assumes "send_tx e s dto w = (Inr (m, es), w')" and "chat_inv (w_db w)"
  obtains rds t d1 rep where
    "check_direct (w_db w) s (s_senderDeviceId dto) (s_recipientUserId dto) (s_envelopes dto) = Inr rds"
    "chat_inv d1" "\<exists>ts. d1 = directThreads_update (\<lambda>_. ts) (w_db w)" "t \<in> set (directThreads d1)"
    "{th_userAId t, th_userBId t} = {s, s_recipientUserId dto}"
    "check_reply_thread (w_db w) (th_id t) (s_replyToMessageId dto) = Inr rep"
    "m = new_message e (m_id m) (Some (th_id t)) None s (s_senderDeviceId dto) (s_idempotencyKey dto)
       (th_latestSequence t + 1) (coalesce (s_contentType dto) TEXT) rep False"
    "message_unique_ok (w_db w) m"
    "map e_recipientDeviceId es = map ed_recipientDeviceId (s_envelopes dto)"
    "map e_ciphertext es = map ed_ciphertext (s_envelopes dto)"
    "map e_recipientUserId es = map (\<lambda>x. if ed_recipientDeviceId x \<in> set rds then s_recipientUserId dto else s) (s_envelopes dto)"
    "\<forall>x\<in>set es. e_messageId x = m_id m \<and> e_status x = PENDING"
    "distinct (map ed_recipientDeviceId (s_envelopes dto))"
    "\<forall>x\<in>set es. find_envelope (w_db w) (m_id m) (e_recipientDeviceId x) = None"
    "messages (w_db w') = messages (w_db w) @ [m]"
    "messageEnvelopes (w_db w') = messageEnvelopes (w_db w) @ es"
    "directThreads (w_db w') = bump_thread e (th_id t) (directThreads d1)"
    "devices (w_db w') = devices (w_db w)"
    "w_events w' = w_events w"
proof -
  let ?a = "fst (canonicalDirectPair s (s_recipientUserId dto))"
  let ?b = "snd (canonicalDirectPair s (s_recipientUserId dto))"
  obtain rds t w1 sq w2 rep w3 where
      chk: "check_direct (w_db w) s (s_senderDeviceId dto) (s_recipientUserId dto) (s_envelopes dto) = Inr rds"
    and up: "upsert_thread e ?a ?b w = (Inr t, w1)"
    and inc: "increment_thread e (th_id t) w1 = (Inr sq, w2)"
    and rep: "check_reply_thread (w_db w2) (th_id t) (s_replyToMessageId dto) = Inr rep"
    and m: "m = new_message e (mkId e (w_supply w2)) (Some (th_id t)) None s (s_senderDeviceId dto)
           (s_idempotencyKey dto) (th_latestSequence sq) (coalesce (s_contentType dto) TEXT) rep False"
    and uniq: "message_unique_ok (w_db w2) m"
    and envs: "create_direct_envelopes e (mkId e (w_supply w2)) rds (s_recipientUserId dto) s (s_envelopes dto)
          (w2\<lparr>w_supply := Suc (w_supply w2), w_db := messages_update (\<lambda>ms. ms @ [m]) (w_db w2)\<rparr>) = (Inr es, w3)"
    and att2: "whenA (coalesce (s_mediaIds dto) [] \<noteq> []) (attach_media s (coalesce (s_mediaIds dto) []) (mkId e (w_supply w2))) w3 = (Inr (), w')"
    using assms(1) unfolding send_tx_def
    by (auto simp: ok_simps Let_def dest!: assertAttachmentsOwned_ok)
  have ne: "s \<noteq> s_recipientUserId dto" using chk by (rule check_direct_distinct_users)
  have ab: "?a < ?b" "{?a, ?b} = {s, s_recipientUserId dto}"
    using canonicalDirectPair_less [OF ne] canonicalDirectPair_set by auto
  note t = upsert_thread_inv [OF up assms(2) ab(1)]
  have ti: "thread_inv (w_db w1)" using t(1) by (simp add: chat_inv_def)
  note inc' = increment_thread_ok [OF inc ti t(2)]
  from t(5) obtain ts where ts: "w_db w1 = directThreads_update (\<lambda>_. ts) (w_db w)" by blast
  have ev1: "w_events w1 = w_events w"
    using up by (auto simp: upsert_thread_def create_thread_def ok_simps Let_def split: option.splits)
  have msgs: "messages (w_db w2) = messages (w_db w)" "messageEnvelopes (w_db w2) = messageEnvelopes (w_db w)"
      "devices (w_db w2) = devices (w_db w)" "directThreads (w_db w2) = bump_thread e (th_id t) (directThreads (w_db w1))"
    by (simp_all add: inc'(2) ts)
  note es = create_direct_envelopes_ok [OF envs]
  have fin: "messages (w_db w') = messages (w_db w3)" "messageEnvelopes (w_db w') = messageEnvelopes (w_db w3)"
      "directThreads (w_db w') = directThreads (w_db w3)" "devices (w_db w') = devices (w_db w3)"
      "w_events w' = w_events w3"
    using att2 by (auto simp: attach_media_def ok_simps split: if_splits)
  show ?thesis
  proof (rule that [of rds "w_db w1" t rep])
    show "check_reply_thread (w_db w) (th_id t) (s_replyToMessageId dto) = Inr rep"
      using rep check_reply_thread_frame [of "w_db w2" "w_db w"] msgs(1) by simp
    show "message_unique_ok (w_db w) m" using uniq by (simp add: message_unique_ok_def msgs)
    show "m = new_message e (m_id m) (Some (th_id t)) None s (s_senderDeviceId dto) (s_idempotencyKey dto)
       (th_latestSequence t + 1) (coalesce (s_contentType dto) TEXT) rep False"
      by (simp add: m inc'(1))
    have mid: "m_id m = mkId e (w_supply w2)" by (simp add: m)
    show "\<forall>x\<in>set es. find_envelope (w_db w) (m_id m) (e_recipientDeviceId x) = None"
    proof
      fix x assume "x \<in> set es"
      then have "e_recipientDeviceId x \<in> set (map ed_recipientDeviceId (s_envelopes dto))"
        by (metis es image_eqI set_map)
      then show "find_envelope (w_db w) (m_id m) (e_recipientDeviceId x) = None"
        using es by (auto simp: mid find_envelope_def msgs)
    qed
    show "\<forall>x\<in>set es. e_messageId x = m_id m \<and> e_status x = PENDING" using es by (simp add: mid)
    show "{th_userAId t, th_userBId t} = {s, s_recipientUserId dto}" using t(3,4) ab(2) by simp
    show "\<exists>ts. w_db w1 = directThreads_update (\<lambda>_. ts) (w_db w)" by (rule t(5))
    show "messages (w_db w') = messages (w_db w) @ [m]" using es fin(1) msgs(1) by simp
    show "messageEnvelopes (w_db w') = messageEnvelopes (w_db w) @ es" using es fin(2) msgs(2) by simp
    show "directThreads (w_db w') = bump_thread e (th_id t) (directThreads (w_db w1))" using es fin(3) msgs(4) by simp
    show "devices (w_db w') = devices (w_db w)" using es fin(4) msgs(3) by simp
    show "w_events w' = w_events w" using es fin(5) inc'(2) ev1 by simp
  qed (use chk t(1,2) es in \<open>blast+\<close>)
qed

lemma send_tx_inv:
  assumes "send_tx e s dto w = (Inr (m, es), w')" and "chat_inv (w_db w)"
  shows "chat_inv (w_db w')"
  using send_tx_summary [OF assms]
proof cases
  case (1 rds t d1 rep)
  obtain ts where ts: "d1 = directThreads_update (\<lambda>_. ts) (w_db w)" using 1(3) by blast
  let ?d2 = "messages_update (\<lambda>ms. ms @ [m]) (directThreads_update (bump_thread e (th_id t)) d1)"
  have m: "m_threadId m = Some (th_id t)" "m_groupId m = None" "m_threadSequence m = th_latestSequence t + 1"
      "m_replyToMessageId m = rep"
    by (subst 1(7), simp)+
  have "chat_inv ?d2"
  proof (rule append_direct_inv [OF 1(2) 1(4) m(1-3)])
    show "message_unique_ok d1 m" using 1(8) by (simp add: message_unique_ok_def ts)
    fix r assume "m_replyToMessageId m = Some r"
    with 1(6) m(4) show "\<exists>p\<in>set (messages d1). m_id p = r \<and> m_replyToMessageId p = None \<and> m_threadId p = Some (th_id t)"
      by (auto simp: ts dest!: check_reply_thread_ok)
  qed
  then have "chat_inv (messageEnvelopes_update (\<lambda>xs. xs @ es) ?d2)"
    by (rule append_envelopes_inv [where mid = "m_id m"])
      (use 1(9,12-14) in \<open>auto simp: ts find_envelope_def\<close>)
  moreover have "same_chat (messageEnvelopes_update (\<lambda>xs. xs @ es) ?d2) (w_db w')"
    using 1(15-17) by (simp add: same_chat_def ts)
  ultimately show ?thesis by (rule same_chat_inv [rotated])
qed

lemma kdb_send_duplicate [kdb_intros]: "kdb P (send_duplicate dev key er)"
  unfolding send_duplicate_def by (intro kdb_intros)

lemma kdb_send_committed [kdb_intros]: "kdb P (send_committed e r c)"
  unfolding send_committed_def by (intro kdb_intros)

lemma kdb_send_attempt: "kdb chat_inv (send_attempt e s dto)"
  unfolding send_attempt_def by (intro kdb_intros kdb_tx) (auto dest: send_tx_inv)

lemma kdb_send: "kdb chat_inv (send e s dto)"
  unfolding send_def by (intro kdb_intros kdb_send_attempt)

section \<open>Runs of \<open>send\<close>\<close>

lemma send_committed_run:
  "\<exists>w'. send_committed e r (m, es) w = (Inr (serializeMessage m es []), w') \<and> w_db w' = w_db w"
  by (auto simp: send_committed_def catch_emit_def enqueueRecalc_def queue_add_def act_simps Let_def
      split: option.split)

lemma send_committed_not_err: "send_committed e r c w \<noteq> (Inl er, w')"
  using send_committed_run [of e r "fst c" "snd c" w] by auto

text \<open>The transaction refuses a key that the device has used.\<close>

lemma key_taken_not_unique:
  assumes "find_message_by_key d (m_senderDeviceId m) (m_idempotencyKey m) = Some x"
  shows "\<not> message_unique_ok d m"
  using find_Some_in [OF assms [unfolded find_message_by_key_def]]
  by (auto simp: message_unique_ok_def)

lemma upsert_thread_messages:
  "upsert_thread e a b w = (Inr t, w') \<Longrightarrow> messages (w_db w') = messages (w_db w)"
  by (auto simp: upsert_thread_def create_thread_def ok_simps Let_def split: option.splits)

lemma increment_thread_messages:
  "increment_thread e t w = (Inr s, w') \<Longrightarrow> messages (w_db w') = messages (w_db w)"
  by (auto simp: increment_thread_def ok_simps)

lemma send_tx_key_taken:
  assumes "find_message_by_key (w_db w) (s_senderDeviceId dto) (s_idempotencyKey dto) = Some x"
  shows "send_tx e s dto w \<noteq> (Inr r, w')"
proof
  assume "send_tx e s dto w = (Inr r, w')"
  then obtain a b t w1 sq w2 rep i where
      up: "upsert_thread e a b w = (Inr t, w1)" and inc: "increment_thread e (th_id t) w1 = (Inr sq, w2)"
    and uniq: "message_unique_ok (w_db w2) (new_message e i (Some (th_id t)) None s (s_senderDeviceId dto)
           (s_idempotencyKey dto) (th_latestSequence sq) (coalesce (s_contentType dto) TEXT) rep False)"
    unfolding send_tx_def by (auto simp: ok_simps Let_def dest!: assertAttachmentsOwned_ok)
  have "messages (w_db w2) = messages (w_db w)"
    using upsert_thread_messages [OF up] increment_thread_messages [OF inc] by simp
  then have "find_message_by_key (w_db w2) (s_senderDeviceId dto) (s_idempotencyKey dto) = Some x"
    using assms by (simp add: find_message_by_key_def)
  with uniq show False
    using key_taken_not_unique [of "w_db w2" "new_message e i (Some (th_id t)) None s (s_senderDeviceId dto)
           (s_idempotencyKey dto) (th_latestSequence sq) (coalesce (s_contentType dto) TEXT) rep False" x] by simp
qed

text \<open>A run of \<open>send_attempt\<close>: committed, answered with the message that holds the key, or failed with
  the database untouched.\<close>

lemma send_attempt_cases:
  assumes "send_attempt e s dto w = (res, w')"
  obtains (committed) m es w1 where "send_tx e s dto w = (Inr (m, es), w1)"
      "res = Inr (serializeMessage m es [])" "w_db w' = w_db w1"
  | (duplicate) x er w1 where "send_tx e s dto w = (Inl er, w1)"
      "find_message_by_key (w_db w) (s_senderDeviceId dto) (s_idempotencyKey dto) = Some x"
      "res = Inr (view_of (w_db w) x)" "w_db w' = w_db w"
  | (failed) er w1 where "send_tx e s dto w = (Inl er, w1)" "res = Inl er" "w_db w' = w_db w"
proof (cases "send_tx e s dto w")
  case (Pair r w1)
  show thesis
  proof (cases r)
    case (Inr p)
    obtain m es where p: "p = (m, es)" by (cases p)
    obtain w2 where "send_committed e (s_recipientUserId dto) (m, es) w1 = (Inr (serializeMessage m es []), w2)"
        "w_db w2 = w_db w1" using send_committed_run by blast
    with assms Pair Inr p have "res = Inr (serializeMessage m es [])" "w_db w' = w_db w1"
      by (auto simp: send_attempt_def act_simps)
    with Pair Inr p show thesis by (auto intro: committed)
  next
    case (Inl er)
    let ?w = "w1\<lparr>w_db := w_db w\<rparr>"
    have run: "send_duplicate (s_senderDeviceId dto) (s_idempotencyKey dto) er ?w = (res, w')"
      using assms Pair Inl by (auto simp: send_attempt_def act_simps)
    show thesis
    proof (cases "isUniqueConstraint er")
      case True
      show thesis
      proof (cases "find_message_by_key (w_db w) (s_senderDeviceId dto) (s_idempotencyKey dto)")
        case None
        with run True have "res = Inl er" "w_db w' = w_db w" by (auto simp: send_duplicate_def act_simps)
        with Pair Inl show thesis by (auto intro: failed)
      next
        case (Some x)
        with run True have "res = Inr (view_of (w_db w) x)" "w_db w' = w_db w"
          by (auto simp: send_duplicate_def act_simps)
        with Pair Inl Some show thesis by (auto intro: duplicate)
      qed
    next
      case False
      with run have "res = Inl er" "w_db w' = w_db w" by (auto simp: send_duplicate_def act_simps)
      with Pair Inl show thesis by (auto intro: failed)
    qed
  qed
qed

text \<open>A committed send is found again under its key, with the envelopes it was created with.\<close>

lemma find_key_append:
  assumes "key_inv (messages_update (\<lambda>ms. ms @ [m]) d)"
  shows "find_message_by_key (messages_update (\<lambda>ms. ms @ [m]) d) (m_senderDeviceId m) (m_idempotencyKey m) = Some m"
proof -
  let ?k = "\<lambda>x. (m_senderDeviceId x, m_idempotencyKey x)"
  have "List.find (\<lambda>x. ?k x = ?k m) (messages d @ [m]) = Some m"
    by (rule find_unique) (use assms in \<open>simp_all add: key_inv_def\<close>)
  then show ?thesis by (simp add: find_message_by_key_def)
qed

lemma committed_found:
  assumes "send_tx e s dto w = (Inr (m, es), w1)" and "chat_inv (w_db w)"
  shows "find_message_by_key (w_db w1) (s_senderDeviceId dto) (s_idempotencyKey dto) = Some m
    \<and> envelopes_of (w_db w1) (m_id m) = es"
  using send_tx_summary [OF assms]
proof cases
  case (1 rds t d1 rep)
  have ki: "key_inv (w_db w1)" using send_tx_inv [OF assms] by (simp add: chat_inv_def)
  have k: "m_senderDeviceId m = s_senderDeviceId dto" "m_idempotencyKey m = s_idempotencyKey dto"
    by (subst 1(7), simp)+
  have "key_inv (messages_update (\<lambda>ms. ms @ [m]) (w_db w))"
    using ki 1(15) by (simp add: key_inv_def)
  from find_key_append [OF this] have found: "find_message_by_key (w_db w1) (s_senderDeviceId dto) (s_idempotencyKey dto) = Some m"
    by (simp add: find_message_by_key_def 1(15) k)
  have "m_id m \<notin> m_id ` set (messages (w_db w))" using 1(8) by (auto simp: message_unique_ok_def)
  moreover have "\<forall>x\<in>set (messageEnvelopes (w_db w)). e_messageId x \<in> m_id ` set (messages (w_db w))"
    using assms(2) by (simp add: chat_inv_def envelope_inv_def)
  ultimately have "filter (\<lambda>x. e_messageId x = m_id m) (messageEnvelopes (w_db w)) = []"
    unfolding filter_empty_conv by metis
  then have "envelopes_of (w_db w1) (m_id m) = es"
    using 1(12) by (simp add: envelopes_of_def 1(16) filter_id_conv)
  with found show ?thesis by simp
qed

lemma view_of_simps [simp]:
  "v_id (view_of d m) = m_id m" "v_envelopes (view_of d m) = envelopes_of d (m_id m)"
  by (simp_all add: view_of_def serializeMessage_def)

lemma serializeMessage_media [simp]:
  "serializeMessage m es md\<lparr>v_media := md'\<rparr> = serializeMessage m es md'"
  "v_id (serializeMessage m es md) = m_id m" "v_envelopes (serializeMessage m es md) = es"
  by (simp_all add: serializeMessage_def)

lemma send_stores:
  assumes "send e s dto w = (Inr v, w')" and "chat_inv (w_db w)"
  shows "\<exists>x. find_message_by_key (w_db w') (s_senderDeviceId dto) (s_idempotencyKey dto) = Some x
    \<and> view_of (w_db w') x = v\<lparr>v_media := media_of (w_db w') (v_id v)\<rparr>"
proof (cases "find_message_by_key (w_db w) (s_senderDeviceId dto) (s_idempotencyKey dto)")
  case (Some x)
  with assms(1) have "v = view_of (w_db w) x" "w' = w" by (auto simp: send_def act_simps)
  with Some show ?thesis by (auto simp: view_of_def)
next
  case None
  with assms(1) have "send_attempt e s dto w = (Inr v, w')" by (auto simp: send_def act_simps)
  then show ?thesis
  proof (cases rule: send_attempt_cases)
    case (committed m es w1)
    with committed_found [OF committed(1) assms(2)] show ?thesis
      by (auto simp: find_message_by_key_def view_of_def envelopes_of_def media_of_def)
  next
    case (duplicate x er w1)
    with None show ?thesis by simp
  next
    case (failed er w1)
    then show ?thesis by simp
  qed
qed

section \<open>Properties of \<open>send\<close>\<close>

lemma view_of_frame:
  "messages d' = messages d \<Longrightarrow> messageEnvelopes d' = messageEnvelopes d \<Longrightarrow> messageMedia d' = messageMedia d \<Longrightarrow>
   view_of d' m = view_of d m"
  by (simp add: view_of_def envelopes_of_def media_of_def)

text \<open>Sending keeps the invariant of the message tables, whatever the outcome of the call: the
  messages of every direct thread stay numbered 1 to \<open>latestSequence\<close> without gap, a device never
  uses an idempotency key twice, replies stay one level deep and inside their conversation, a device
  has at most one envelope of a message.\<close>

lemma send_keeps_inv:
  assumes "chat_inv (w_db w)" and "send e s dto w = (r, w')"
  shows "chat_inv (w_db w')"
  by (rule kdb_result [OF kdb_send assms])

text \<open>C11: Sending is idempotent.  When a request has succeeded, repeating it, at any later time and
  whoever the caller is, as long as the message tables have not changed, returns the same message
  with the same envelopes (now with the attachments that were bound to it) and changes nothing.\<close>

theorem send_idempotent:
  assumes "send e s dto w = (Inr v, w1)" and "chat_inv (w_db w)"
    and "messages (w_db w2) = messages (w_db w1)" and "messageEnvelopes (w_db w2) = messageEnvelopes (w_db w1)"
    and "messageMedia (w_db w2) = messageMedia (w_db w1)"
    and "s_senderDeviceId dto' = s_senderDeviceId dto" and "s_idempotencyKey dto' = s_idempotencyKey dto"
  shows "send e' s' dto' w2 = (Inr (v\<lparr>v_media := media_of (w_db w1) (v_id v)\<rparr>), w2)"
proof -
  obtain x where "find_message_by_key (w_db w1) (s_senderDeviceId dto) (s_idempotencyKey dto) = Some x"
      "view_of (w_db w1) x = v\<lparr>v_media := media_of (w_db w1) (v_id v)\<rparr>"
    using send_stores [OF assms(1,2)] by blast
  then show ?thesis
    using view_of_frame [OF assms(3-5), of x] assms(3,6,7)
    by (simp add: send_def act_simps find_message_by_key_def)
qed

theorem send_idempotent_witness:
  "\<exists>v w1. send demo_env ''ann'' demo_send demo_world = (Inr v, w1)
     \<and> send demo_env ''ann'' demo_send w1 = (Inr (v\<lparr>v_media := media_of (w_db w1) (v_id v)\<rparr>), w1)"
proof -
  obtain v w1 where r: "send demo_env ''ann'' demo_send demo_world = (Inr v, w1)"
    using demo_send_runs by (rule run_okE)
  have "send demo_env ''ann'' demo_send w1 = (Inr (v\<lparr>v_media := media_of (w_db w1) (v_id v)\<rparr>), w1)"
    by (rule send_idempotent [OF r]) (simp_all add: demo_chat_inv)
  with r show ?thesis by blast
qed

text \<open>The checks on devices and envelopes.\<close>

lemma check_direct_ok:
  assumes "check_direct d s dev r envs = Inr rds"
  shows "\<exists>x\<in>set (devices d). d_id x = dev \<and> d_userId x = s \<and> d_active x"
    and "rds = map d_id (filter (\<lambda>x. d_userId x = r \<and> d_active x) (devices d))"
    and "set rds \<subseteq> set (map ed_recipientDeviceId envs)"
    and "\<forall>x\<in>set envs. \<exists>y\<in>set (devices d). d_id y = ed_recipientDeviceId x \<and> d_active y
           \<and> (d_userId y = r \<or> d_userId y = s \<and> d_id y \<noteq> dev)"
proof -
  let ?all = "direct_devices d s dev r"
  obtain sd where sd: "List.find (\<lambda>x. d_id x = dev) ?all = Some sd" "d_userId sd = s"
    using assms by (auto simp: check_direct_def Let_def split: option.splits if_splits)
  then show "\<exists>x\<in>set (devices d). d_id x = dev \<and> d_userId x = s \<and> d_active x"
    using find_Some_in [OF sd(1)] by (auto simp: direct_devices_def)
  have rds: "rds = map d_id (filter (\<lambda>x. d_userId x = r) ?all)"
    and sub: "list_all (\<lambda>i. i \<in> set (map ed_recipientDeviceId envs)) rds"
    and allowed: "list_all (\<lambda>x. ed_recipientDeviceId x \<in> set (rds @ map d_id (filter (\<lambda>x. d_userId x = s \<and> d_id x \<noteq> dev) ?all))) envs"
    using assms by (auto simp: check_direct_def Let_def split: option.splits if_splits)
  have "filter (\<lambda>x. d_userId x = r) ?all = filter (\<lambda>x. d_userId x = r \<and> d_active x) (devices d)"
    unfolding direct_devices_def filter_filter by (rule filter_cong) auto
  with rds show "rds = map d_id (filter (\<lambda>x. d_userId x = r \<and> d_active x) (devices d))" by simp
  show "set rds \<subseteq> set (map ed_recipientDeviceId envs)" using sub by (auto simp: list_all_iff)
  show "\<forall>x\<in>set envs. \<exists>y\<in>set (devices d). d_id y = ed_recipientDeviceId x \<and> d_active y
           \<and> (d_userId y = r \<or> d_userId y = s \<and> d_id y \<noteq> dev)"
  proof
    fix x assume "x \<in> set envs"
    then have "ed_recipientDeviceId x \<in> set (rds @ map d_id (filter (\<lambda>x. d_userId x = s \<and> d_id x \<noteq> dev) ?all))"
      using allowed by (simp add: list_all_iff)
    then show "\<exists>y\<in>set (devices d). d_id y = ed_recipientDeviceId x \<and> d_active y
           \<and> (d_userId y = r \<or> d_userId y = s \<and> d_id y \<noteq> dev)"
      by (auto simp: rds direct_devices_def)
  qed
qed

text \<open>C12: What a new message delivers.  When a request under an unused key succeeds, the sender's
  device was active and the sender's own, sender and recipient differ, every active device of the
  recipient has exactly one envelope of the message and every envelope is for an active device of the
  recipient or another active device of the sender, with the ciphertexts of the request in order, all
  of them pending.\<close>

theorem send_delivers:
  assumes "send e s dto w = (Inr v, w')" and "chat_inv (w_db w)"
    and "find_message_by_key (w_db w) (s_senderDeviceId dto) (s_idempotencyKey dto) = None"
  shows "active_device (w_db w) s (s_senderDeviceId dto) \<and> s \<noteq> s_recipientUserId dto
    \<and> v_envelopes v = envelopes_of (w_db w') (v_id v)
    \<and> map e_recipientDeviceId (v_envelopes v) = map ed_recipientDeviceId (s_envelopes dto)
    \<and> map e_ciphertext (v_envelopes v) = map ed_ciphertext (s_envelopes dto)
    \<and> distinct (map e_recipientDeviceId (v_envelopes v))
    \<and> (\<forall>x\<in>set (v_envelopes v). e_status x = PENDING)
    \<and> (\<forall>dv\<in>set (devices (w_db w)). d_active dv \<and> d_userId dv = s_recipientUserId dto \<longrightarrow>
         (\<exists>x\<in>set (v_envelopes v). e_recipientDeviceId x = d_id dv \<and> e_recipientUserId x = d_userId dv))
    \<and> (\<forall>x\<in>set (v_envelopes v). \<exists>dv\<in>set (devices (w_db w)). d_id dv = e_recipientDeviceId x \<and> d_active dv
         \<and> (d_userId dv = s_recipientUserId dto \<or> d_userId dv = s \<and> d_id dv \<noteq> s_senderDeviceId dto))"
proof -
  have att: "send_attempt e s dto w = (Inr v, w')"
    using assms(1,3) by (auto simp: send_def act_simps)
  from att obtain m es w1 where tx: "send_tx e s dto w = (Inr (m, es), w1)"
      "v = serializeMessage m es []" "w_db w' = w_db w1"
    using assms(3) by (cases rule: send_attempt_cases) auto
  from send_tx_summary [OF tx(1) assms(2)] obtain rds where chk:
      "check_direct (w_db w) s (s_senderDeviceId dto) (s_recipientUserId dto) (s_envelopes dto) = Inr rds"
    and es: "map e_recipientDeviceId es = map ed_recipientDeviceId (s_envelopes dto)"
      "map e_ciphertext es = map ed_ciphertext (s_envelopes dto)"
      "map e_recipientUserId es = map (\<lambda>x. if ed_recipientDeviceId x \<in> set rds then s_recipientUserId dto else s) (s_envelopes dto)"
      "\<forall>x\<in>set es. e_messageId x = m_id m \<and> e_status x = PENDING"
      "distinct (map ed_recipientDeviceId (s_envelopes dto))"
    by metis
  note c = check_direct_ok [OF chk]
  have usr: "e_recipientUserId (es ! i) = (if e_recipientDeviceId (es ! i) \<in> set rds then s_recipientUserId dto else s)"
    if "i < length es" for i
    using that map_eq_imp_length_eq [OF es(1)] arg_cong [OF es(1), of "\<lambda>l. l ! i"] arg_cong [OF es(3), of "\<lambda>l. l ! i"]
    by simp
  have all: "\<exists>x\<in>set es. e_recipientDeviceId x = d_id dv \<and> e_recipientUserId x = d_userId dv"
    if "dv \<in> set (devices (w_db w))" "d_active dv" "d_userId dv = s_recipientUserId dto" for dv
  proof -
    have r: "d_id dv \<in> set rds" using that c(2) by auto
    then have "d_id dv \<in> set (map e_recipientDeviceId es)" using c(3) es(1) by auto
    then obtain i where "i < length es" "e_recipientDeviceId (es ! i) = d_id dv"
      by (auto simp: in_set_conv_nth)
    then show ?thesis using usr [of i] r that(3) by (metis nth_mem)
  qed
  have only: "\<exists>dv\<in>set (devices (w_db w)). d_id dv = e_recipientDeviceId x \<and> d_active dv
         \<and> (d_userId dv = s_recipientUserId dto \<or> d_userId dv = s \<and> d_id dv \<noteq> s_senderDeviceId dto)"
    if "x \<in> set es" for x
  proof -
    have "e_recipientDeviceId x \<in> set (map ed_recipientDeviceId (s_envelopes dto))"
      using that es(1) by (metis image_eqI set_map)
    then obtain y where "y \<in> set (s_envelopes dto)" "ed_recipientDeviceId y = e_recipientDeviceId x" by auto
    with c(4) show ?thesis by metis
  qed
  show ?thesis
    using c(1) check_direct_distinct_users [OF chk] committed_found [OF tx(1) assms(2)] es all only
    by (auto simp: tx(2,3) active_device_def)
qed

theorem send_delivers_witness:
  "\<exists>v w'. send demo_env ''ann'' demo_send demo_world = (Inr v, w')
     \<and> map e_recipientDeviceId (v_envelopes v) = [''b1'', ''a2'']
     \<and> (\<exists>x\<in>set (v_envelopes v). e_recipientDeviceId x = ''b1'' \<and> e_recipientUserId x = ''bob'')"
proof -
  obtain v w' where r: "send demo_env ''ann'' demo_send demo_world = (Inr v, w')"
    using demo_send_runs by (rule run_okE)
  have n: "find_message_by_key (w_db demo_world) (s_senderDeviceId demo_send) (s_idempotencyKey demo_send) = None"
    by (simp add: find_message_by_key_def demo_db_def empty_db_def)
  have "demo_device ''b1'' ''bob'' \<in> set (devices (w_db demo_world))"
    by (simp add: demo_db_def)
  with send_delivers [OF r _ n] show ?thesis
    using r by (fastforce simp: demo_chat_inv demo_send_def demo_device_def)
qed

lemma quiet_send_tx [quiet_intros]: "quiet (send_tx e s dto)"
  unfolding send_tx_def upsert_thread_def create_thread_def increment_thread_def assertAttachmentsOwned_def
    create_message_def create_direct_envelopes_def create_envelope_def attach_media_def
  by (intro quiet_intros)

lemma send_attempt_failed:
  assumes "send_attempt e s dto w = (Inl er, w')"
  shows "w_db w' = w_db w \<and> w_events w' = w_events w \<and> w_jobs w' = w_jobs w \<and> w_pubs w' = w_pubs w"
proof -
  obtain er1 w1 where "tx (send_tx e s dto) w = (Inl er1, w1)" "w' = w1"
    using assms by (auto simp: send_attempt_def catching_def bnd_run send_committed_not_err send_duplicate_def
        act_simps split: prod.splits sum.splits if_splits option.splits)
  with quiet_tx_failed [OF quiet_send_tx] show ?thesis by metis
qed

text \<open>C14: A request that fails leaves no trace: the database, the events, the queues and the
  publications are as before.\<close>

theorem send_failed_no_effect:
  assumes "send e s dto w = (Inl er, w')"
  shows "w_db w' = w_db w \<and> w_events w' = w_events w \<and> w_jobs w' = w_jobs w \<and> w_pubs w' = w_pubs w"
  using assms send_attempt_failed [of e s dto w er w']
  by (auto simp: send_def act_simps split: option.splits)

theorem send_failed_no_effect_witness:
  "\<exists>er w'. send demo_env ''bob'' demo_send demo_world = (Inl er, w') \<and> w_db w' = demo_db \<and> w_jobs w' = []"
proof -
  have "isl (fst (send demo_env ''bob'' demo_send demo_world))" by code_simp
  then obtain er w' where r: "send demo_env ''bob'' demo_send demo_world = (Inl er, w')" by (rule run_errE)
  from send_failed_no_effect [OF r] r show ?thesis by (auto simp: demo_world_def)
qed

text \<open>C15: The race of two requests with one key.  When the key has been used by the time the
  transaction runs (another request committed after the first lookup), no second message is created:
  the database does not change, no event is emitted, and the answer is the stored message or the
  error of a check.\<close>

theorem send_race:
  assumes "find_message_by_key (w_db w) (s_senderDeviceId dto) (s_idempotencyKey dto) = Some x"
    and "send_attempt e s dto w = (r, w')"
  shows "w_db w' = w_db w \<and> w_events w' = w_events w \<and> w_jobs w' = w_jobs w
    \<and> (r = Inr (view_of (w_db w) x) \<or> isl r)"
proof -
  obtain er w1 where er: "tx (send_tx e s dto) w = (Inl er, w1)"
    using send_tx_key_taken [OF assms(1)] by (cases "tx (send_tx e s dto) w"; cases "fst (tx (send_tx e s dto) w)")
      (auto simp: tx_ok)
  note q = quiet_tx_failed [OF quiet_send_tx er]
  have "send_duplicate (s_senderDeviceId dto) (s_idempotencyKey dto) er w1 = (r, w')"
    using assms(2) er by (simp add: send_attempt_def catching_run bnd_run)
  then show ?thesis
    using q assms(1) by (auto simp: send_duplicate_def act_simps split: if_splits)
qed

theorem send_race_witness:
  "\<exists>r w'. send_attempt demo_env ''ann'' demo_send (snd (send demo_env ''ann'' demo_send demo_world)) = (r, w')
     \<and> w_db w' = w_db (snd (send demo_env ''ann'' demo_send demo_world))"
proof -
  obtain v w1 where r: "send demo_env ''ann'' demo_send demo_world = (Inr v, w1)"
    using demo_send_runs by (rule run_okE)
  obtain x where "find_message_by_key (w_db w1) (s_senderDeviceId demo_send) (s_idempotencyKey demo_send) = Some x"
    using send_stores [OF r] by (auto simp: demo_chat_inv)
  from send_race [OF this, of demo_env "''ann''"] show ?thesis using r by (metis snd_conv surj_pair)
qed

end
