(* ===== verification/Threads.thy ===== *)
theory Threads
  imports Messages_Send "HOL-Library.Multiset"
begin

text \<open>
  \<open>src/direct-threads/direct-threads.service.ts\<close>, and the paged history that it and the groups
  service compute in the same way.  The locale \<open>numbered\<close> states what a conversation promises to a
  reader of its history: its messages carry the numbers 1 to n in storage order.  The page lemmas are
  proved from that alone, and direct threads and groups both interpret it.
\<close>

section \<open>A page of history\<close>

record history_opts =
  ho_limit :: "nat option"
  ho_beforeSequence :: "int option"
  ho_afterSequence :: "int option"

record history_view =
  hv_message :: message_row
  hv_media :: "media_row list"
  hv_replyTo :: "message_row option"

text \<open>The two bounds are spread into the same key of the \<open>where\<close> object, so the second one replaces
  the first when both are given.\<close>

definition in_window :: "history_opts \<Rightarrow> int \<Rightarrow> bool" where
  "in_window opts sq = (case ho_afterSequence opts of
     Some a \<Rightarrow> a < sq
   | None \<Rightarrow> (case ho_beforeSequence opts of Some b \<Rightarrow> sq < b | None \<Rightarrow> True))"

definition page_size :: "history_opts \<Rightarrow> nat" where
  "page_size opts = min (coalesce (ho_limit opts) 50) 100"

definition history_page :: "message_row list \<Rightarrow> history_opts \<Rightarrow> message_row list" where
  "history_page conversation opts = rev (take (page_size opts) (order_desc m_threadSequence
     (filter (\<lambda>m. in_window opts (m_threadSequence m)) conversation)))"

text \<open>The media and the reply targets of a page, joined in memory.\<close>

definition history_views :: "db \<Rightarrow> message_row list \<Rightarrow> history_view list" where
  "history_views d page =
     (let mediaRecords = order_asc md_createdAt (filter (\<lambda>x. case md_messageId x of
              None \<Rightarrow> False | Some i \<Rightarrow> i \<in> set (map m_id page)) (messageMedia d));
          replyIds = List.map_filter m_replyToMessageId page;
          replyMessages = filter (\<lambda>m. m_id m \<in> set replyIds) (messages d) in
      map (\<lambda>msg. \<lparr>hv_message = msg,
             hv_media = filter (\<lambda>x. md_messageId x = Some (m_id msg)) mediaRecords,
             hv_replyTo = (case m_replyToMessageId msg of
                None \<Rightarrow> None
              | Some r \<Rightarrow> List.find (\<lambda>m. m_id m = r) replyMessages)\<rparr>) page)"

section \<open>\<open>DirectThreadsService\<close>\<close>

definition findThreadById :: "uuid \<Rightarrow> thread_row svc" where
  "findThreadById i = bnd (dbget (\<lambda>d. find_thread d i)) (\<lambda>found. require found (NotFound ''DirectThread not found''))"

definition findByIdWithDetails :: "uuid \<Rightarrow> uuid \<Rightarrow> (thread_row \<times> user_row option \<times> user_row option) svc" where
  "findByIdWithDetails i userId =
     bnd (dbget (\<lambda>d. find_thread d i)) (\<lambda>found.
     bnd (require found (NotFound ''DirectThread not found'')) (\<lambda>thread.
     thn (ensure (\<not> (th_userAId thread \<noteq> userId \<and> th_userBId thread \<noteq> userId))
            (Forbidden ''Cannot query a thread you are not part of''))
         (dbget (\<lambda>d. (thread, find_user d (th_userAId thread), find_user d (th_userBId thread))))))"

definition getThreadMessages :: "uuid \<Rightarrow> uuid \<Rightarrow> history_opts \<Rightarrow> history_view list svc" where
  "getThreadMessages threadId userId opts =
     bnd (dbget (\<lambda>d. find_thread d threadId)) (\<lambda>found.
     bnd (require found (NotFound ''DirectThread not found'')) (\<lambda>thread.
     thn (ensure (\<not> (th_userAId thread \<noteq> userId \<and> th_userBId thread \<noteq> userId))
            (Forbidden ''Cannot query a thread you are not part of''))
         (dbget (\<lambda>d. history_views d
            (history_page (filter (\<lambda>m. m_threadId m = Some threadId) (messages d)) opts)))))"

definition threads_of :: "db \<Rightarrow> uuid \<Rightarrow> thread_row list" where
  "threads_of d userId = order_desc th_updatedAt
     (filter (\<lambda>t. th_userAId t = userId \<or> th_userBId t = userId) (directThreads d))"

definition findThreadsByUser :: "uuid \<Rightarrow> thread_row list svc" where
  "findThreadsByUser userId = dbget (\<lambda>d. threads_of d userId)"

record thread_summary =
  ts_id :: uuid
  ts_otherUserId :: uuid
  ts_otherUserName :: string
  ts_otherUserAvatarUrl :: "string option"
  ts_lastMessageAt :: time
  ts_unreadCount :: int
  ts_createdAt :: time
  ts_updatedAt :: time

definition other_user :: "uuid \<Rightarrow> thread_row \<Rightarrow> uuid" where
  "other_user userId t = (if th_userAId t = userId then th_userBId t else th_userAId t)"

definition findByUserWithDetails :: "uuid \<Rightarrow> thread_summary list svc" where
  "findByUserWithDetails userId = dbget (\<lambda>d.
     let threads = threads_of d userId;
         unreadCounts = filter (\<lambda>u. uc_userId u = userId \<and> uc_threadType u = Direct
              \<and> uc_threadId u \<in> set (map th_id threads)) (unreadCounters d);
         otherUserIds = map (other_user userId) threads;
         otherUsers = filter (\<lambda>u. u_id u \<in> set otherUserIds) (users d) in
     map (\<lambda>thread.
       let otherUserId = other_user userId thread;
           otherUser = List.find (\<lambda>u. u_id u = otherUserId) otherUsers;
           lastMessage = first_of (order_desc m_threadSequence
              (filter (\<lambda>m. m_threadId m = Some (th_id thread)) (messages d))) in
       \<lparr>ts_id = th_id thread, ts_otherUserId = otherUserId,
        ts_otherUserName = (case otherUser of
            None \<Rightarrow> ''Unknown''
          | Some u \<Rightarrow> coalesce (u_username u) (coalesce (u_phoneMasked u) ''Unknown'')),
        ts_otherUserAvatarUrl = Option.bind otherUser u_profileAvatarUrl,
        ts_lastMessageAt = (case lastMessage of Some m \<Rightarrow> m_createdAt m | None \<Rightarrow> th_updatedAt thread),
        ts_unreadCount = coalesce (map_option uc_count
            (List.find (\<lambda>u. uc_threadId u = th_id thread) unreadCounts)) 0,
        ts_createdAt = th_createdAt thread, ts_updatedAt = th_updatedAt thread\<rparr>) threads)"

section \<open>Numbered conversations\<close>

lemma upto_filter_less: "filter (\<lambda>x. x < b) [lo..hi] = [lo..min hi (b - 1 :: int)]"
proof (rule sorted_distinct_set_unique)
  show "sorted (filter (\<lambda>x. x < b) [lo..hi])" by (simp add: sorted_wrt_filter)
  show "set (filter (\<lambda>x. x < b) [lo..hi]) = set [lo..min hi (b - 1)]" by auto
qed auto

lemma upto_filter_greater: "filter (\<lambda>x. a < x) [lo..hi] = [max lo (a + 1 :: int)..hi]"
proof (rule sorted_distinct_set_unique)
  show "sorted (filter (\<lambda>x. a < x) [lo..hi])" by (simp add: sorted_wrt_filter)
  show "set (filter (\<lambda>x. a < x) [lo..hi]) = set [max lo (a + 1)..hi]" by auto
qed auto

lemma drop_upto: "drop n [lo..hi] = [lo + int n..hi]"
proof (induction n arbitrary: lo)
  case (Suc n)
  show ?case
  proof (cases "lo \<le> hi")
    case True
    then show ?thesis using Suc [of "lo + 1"] by (simp add: upto_rec1 add.assoc)
  qed simp
qed simp

text \<open>Rows with ascending distinct keys come back reversed from a descending query.\<close>

lemma order_desc_rev:
  assumes "sorted_wrt (<) (map key xs)"
  shows "order_desc key xs = rev xs"
  unfolding order_desc_def
proof (rule sort_key_inj_key_eq)
  have "distinct (map key xs)" using assms strict_sorted_iff by blast
  then show "inj_on (\<lambda>r. - key r) (set xs)" by (auto simp: distinct_map inj_on_def)
  show "sorted (map (\<lambda>r. - key r) (rev xs))"
    using assms by (simp add: sorted_wrt_map sorted_wrt_rev rev_map [symmetric] sorted_wrt_mono_rel [of _ "\<lambda>x y. key x < key y"])
qed simp

lemma last_of_upto: "drop (length [lo..hi] - k) [lo..hi] = [max lo (hi - int k + 1)..hi]"
  by (cases "lo \<le> hi") (auto simp: drop_upto max_def algebra_simps)

definition window_lo :: "history_opts \<Rightarrow> int" where
  "window_lo opts = (case ho_afterSequence opts of Some a \<Rightarrow> max 1 (a + 1) | None \<Rightarrow> 1)"

definition window_hi :: "history_opts \<Rightarrow> int \<Rightarrow> int" where
  "window_hi opts n = (case (ho_afterSequence opts, ho_beforeSequence opts) of
     (None, Some b) \<Rightarrow> min n (b - 1)
   | _ \<Rightarrow> n)"

lemma filter_window: "filter (in_window opts) [1..n] = [window_lo opts..window_hi opts n]"
  by (auto simp: in_window_def [abs_def] window_lo_def window_hi_def upto_filter_less upto_filter_greater
      split: option.split)

text \<open>The contract of a conversation towards a reader of its history.\<close>

locale numbered =
  fixes inv :: "db \<Rightarrow> bool"
    and live :: "db \<Rightarrow> uuid \<Rightarrow> bool"
    and rows :: "db \<Rightarrow> uuid \<Rightarrow> message_row list"
    and top :: "db \<Rightarrow> uuid \<Rightarrow> int"
  assumes numbers: "inv d \<Longrightarrow> live d k \<Longrightarrow> map m_threadSequence (rows d k) = [1..top d k]"
begin

lemma window_numbers:
  assumes "inv d" and "live d k"
  shows "map m_threadSequence (filter (\<lambda>m. in_window opts (m_threadSequence m)) (rows d k))
    = [window_lo opts..window_hi opts (top d k)]"
proof -
  have "map m_threadSequence (filter (in_window opts \<circ> m_threadSequence) (rows d k))
      = filter (in_window opts) (map m_threadSequence (rows d k))"
    by (simp add: filter_map)
  then show ?thesis by (simp add: numbers [OF assms] filter_window comp_def)
qed

lemma page_numbers:
  assumes "inv d" and "live d k"
  shows "map m_threadSequence (history_page (rows d k) opts) =
    [max (window_lo opts) (window_hi opts (top d k) - int (page_size opts) + 1)..window_hi opts (top d k)]"
proof -
  let ?ys = "filter (\<lambda>m. in_window opts (m_threadSequence m)) (rows d k)"
  have nums: "map m_threadSequence ?ys = [window_lo opts..window_hi opts (top d k)]"
    by (rule window_numbers [OF assms])
  have "order_desc m_threadSequence ?ys = rev ?ys"
    by (rule order_desc_rev) (simp add: nums)
  then have "history_page (rows d k) opts = drop (length ?ys - page_size opts) ?ys"
    by (simp add: history_page_def rev_take)
  moreover have "length ?ys = length [window_lo opts..window_hi opts (top d k)]"
    using arg_cong [OF nums, of length] by simp
  ultimately show ?thesis
    by (simp only: drop_map [symmetric] nums last_of_upto)
qed

lemma page_members: "set (history_page (rows d k) opts) \<subseteq> set (rows d k)"
  by (auto simp: history_page_def dest: in_set_takeD)

end

definition thread_rows :: "db \<Rightarrow> uuid \<Rightarrow> message_row list" where
  "thread_rows d t = filter (\<lambda>m. m_threadId m = Some t) (messages d)"

definition thread_top :: "db \<Rightarrow> uuid \<Rightarrow> int" where
  "thread_top d t = (case find_thread d t of None \<Rightarrow> 0 | Some th \<Rightarrow> th_latestSequence th)"

definition group_rows :: "db \<Rightarrow> uuid \<Rightarrow> message_row list" where
  "group_rows d g = filter (\<lambda>m. m_groupId m = Some g) (messages d)"

interpretation direct: numbered chat_inv "\<lambda>d t. find_thread d t \<noteq> None" thread_rows thread_top
proof
  fix d t assume "chat_inv d" "find_thread d t \<noteq> None"
  moreover from this obtain th where "find_thread d t = Some th" by blast
  ultimately show "map m_threadSequence (thread_rows d t) = [1..thread_top d t]"
    using find_threadD [of d t th]
    by (auto simp: thread_rows_def thread_top_def chat_inv_def thread_inv_def thread_seqs_def)
qed

interpretation group: numbered chat_inv "\<lambda>d g. True" group_rows "\<lambda>d g. int (length (group_rows d g))"
proof
  fix d g assume "chat_inv d"
  then have "group_seqs d g = [1..int (length (group_seqs d g))]"
    by (simp add: chat_inv_def group_inv_def)
  then show "map m_threadSequence (group_rows d g) = [1..int (length (group_rows d g))]"
    by (simp add: group_seqs_def group_rows_def)
qed

section \<open>Properties\<close>

lemma history_views_messages [simp]: "map hv_message (history_views d page) = page"
  by (simp add: history_views_def Let_def comp_def)

lemma history_views_in: "v \<in> set (history_views d page) \<Longrightarrow> hv_message v \<in> set page"
  by (auto simp: history_views_def Let_def)

lemma getThreadMessages_ok:
  "getThreadMessages t u opts w = (Inr vs, w') \<longleftrightarrow> w' = w \<and>
     (\<exists>th. find_thread (w_db w) t = Some th \<and> (u = th_userAId th \<or> u = th_userBId th)
        \<and> vs = history_views (w_db w) (history_page (thread_rows (w_db w) t) opts))"
  by (auto simp: getThreadMessages_def ok_simps thread_rows_def)



end
