(* ===== verification/Group_Chat.thy ===== *)
theory Group_Chat
  imports Threads
begin

text \<open>
  \<open>src/groups/groups.service.ts\<close>, the member cache of \<open>src/redis/redis.service.ts\<close> and the two fan-out
  workers \<open>src/groups/queue/group-fanout.processor.ts\<close> and \<open>group-edit-fanout.processor.ts\<close>.  A cached
  member set that has expired is the same as one that is not there.
\<close>

section \<open>The member cache\<close>

definition getGroupMemberIds :: "env \<Rightarrow> uuid \<Rightarrow> uuid list option svc" where
  "getGroupMemberIds e groupId = redis_get e (\<lambda>r. r_groupMembers r groupId)"

definition setGroupMemberIds :: "env \<Rightarrow> uuid \<Rightarrow> uuid list \<Rightarrow> unit svc" where
  "setGroupMemberIds e groupId userIds = redis_set e (\<lambda>r. r\<lparr>r_groupMembers :=
     (r_groupMembers r)(groupId := (if userIds \<noteq> [] then Some userIds else None))\<rparr>)"

definition invalidateGroupMemberIds :: "env \<Rightarrow> uuid \<Rightarrow> unit svc" where
  "invalidateGroupMemberIds e groupId = redis_set e (\<lambda>r. r\<lparr>r_groupMembers := (r_groupMembers r)(groupId := None)\<rparr>)"

section \<open>\<open>GroupsService\<close>\<close>

record create_group_dto =
  cg_encryptedMetadata :: json
  cg_members :: "uuid list"

record send_group_dto =
  sg_senderDeviceId :: uuid
  sg_idempotencyKey :: string
  sg_contentType :: "MessageContentType option"
  sg_replyToMessageId :: "uuid option"
  sg_mediaIds :: "uuid list option"
  sg_ciphertext :: json

record edit_group_dto =
  eg_senderDeviceId :: uuid
  eg_idempotencyKey :: string
  eg_ciphertext :: json

record queued =
  q_messageId :: uuid
  q_queued :: bool

definition find_group :: "db \<Rightarrow> uuid \<Rightarrow> group_row option" where
  "find_group d g = List.find (\<lambda>x. g_id x = g) (groups d)"

definition members_of :: "db \<Rightarrow> uuid \<Rightarrow> group_member_row list" where
  "members_of d g = filter (\<lambda>x. gm_groupId x = g) (groupMembers d)"

text \<open>Insertion of membership rows: the key is \<open>(groupId, userId)\<close>, the user must exist.\<close>

definition insert_members :: "group_member_row list \<Rightarrow> unit svc" where
  "insert_members rows = bnd (dbget id) (\<lambda>d.
     thn (ensure (distinct (map (\<lambda>x. (gm_groupId x, gm_userId x)) rows)
            \<and> list_all (\<lambda>x. find_member d (gm_groupId x) (gm_userId x) = None) rows) (PrismaError ''P2002''))
    (thn (ensure (list_all (\<lambda>x. find_user d (gm_userId x) \<noteq> None \<and> find_group d (gm_groupId x) \<noteq> None) rows)
            (PrismaError ''P2003''))
         (dbset (groupMembers_update (\<lambda>xs. xs @ rows)))))"

definition createGroup :: "env \<Rightarrow> uuid \<Rightarrow> create_group_dto \<Rightarrow> (group_row \<times> group_member_row list) svc" where
  "createGroup e creatorUserId dto =
     (let memberIds = js_set (creatorUserId # cg_members dto) in
      bnd (tx (bnd (fresh e) (\<lambda>i. bnd (dbget id) (\<lambda>d.
             let row = \<lparr>g_id = i, g_encryptedMetadata = cg_encryptedMetadata dto, g_createdAt = now e, g_updatedAt = now e\<rparr>;
                 rows = map (\<lambda>u. \<lparr>gm_groupId = i, gm_userId = u,
                     gm_role = (if u = creatorUserId then G_ADMIN else G_MEMBER), gm_joinedAt = now e\<rparr>) memberIds in
             thn (ensure (find_group d i = None) (PrismaError ''P2002''))
            (thn (dbset (groups_update (\<lambda>gs. gs @ [row])))
            (thn (insert_members rows) (ret (row, rows)))))))) (\<lambda>group.
      thn (catch_ignore (setGroupMemberIds e (g_id (fst group)) memberIds))
          (ret group)))"

definition updateGroupMetadata :: "env \<Rightarrow> uuid \<Rightarrow> uuid \<Rightarrow> json \<Rightarrow> (group_row \<times> group_member_row list) svc" where
  "updateGroupMetadata e userId groupId encryptedMetadata =
     bnd (dbget (\<lambda>d. find_member d groupId userId)) (\<lambda>member.
     thn (ensure (member \<noteq> None) (Forbidden ''Not a member of this group''))
    (thn (dbset (groups_update (update_where (\<lambda>g. g_id g = groupId)
            (\<lambda>g. g\<lparr>g_encryptedMetadata := encryptedMetadata, g_updatedAt := now e\<rparr>))))
    (bnd (dbget (\<lambda>d. find_group d groupId)) (\<lambda>found.
     bnd (require found (PrismaError ''P2025'')) (\<lambda>g.
     dbget (\<lambda>d. (g, members_of d groupId)))))))"

definition assertGroupMember :: "uuid \<Rightarrow> uuid \<Rightarrow> unit svc" where
  "assertGroupMember userId groupId = bnd (dbget (\<lambda>d. find_member d groupId userId)) (\<lambda>member.
     ensure (member \<noteq> None) (Forbidden ''Not a member of this group''))"

definition assertGroupAdmin :: "uuid \<Rightarrow> uuid \<Rightarrow> unit svc" where
  "assertGroupAdmin userId groupId = bnd (dbget (\<lambda>d. find_member d groupId userId)) (\<lambda>found.
     bnd (require found (Forbidden ''Not a member of this group'')) (\<lambda>member.
     ensure (gm_role member = G_ADMIN) (Forbidden ''Only group admins can perform this action'')))"

definition addMembers :: "env \<Rightarrow> uuid \<Rightarrow> uuid \<Rightarrow> uuid list \<Rightarrow> nat svc" where
  "addMembers e userId groupId memberIds =
     thn (assertGroupAdmin userId groupId)
    (bnd (dbget (\<lambda>d. filter (\<lambda>i. find_member d groupId i = None) memberIds)) (\<lambda>newMemberIds.
     if newMemberIds = [] then ret 0
     else
       thn (insert_members (map (\<lambda>i. \<lparr>gm_groupId = groupId, gm_userId = i, gm_role = G_MEMBER, gm_joinedAt = now e\<rparr>) newMemberIds))
      (thn (catch_ignore (invalidateGroupMemberIds e groupId))
           (ret (length newMemberIds)))))"

definition removeMember :: "env \<Rightarrow> uuid \<Rightarrow> uuid \<Rightarrow> uuid \<Rightarrow> group_member_row svc" where
  "removeMember e userId groupId targetUserId =
     bnd (dbget (\<lambda>d. find_member d groupId userId)) (\<lambda>found.
     bnd (require found (Forbidden ''Not a member of this group'')) (\<lambda>member.
     thn (ensure (\<not> (userId \<noteq> targetUserId \<and> gm_role member \<noteq> G_ADMIN))
            (Forbidden ''Only group admins can remove other members''))
    (bnd (dbget (\<lambda>d. find_member d groupId targetUserId)) (\<lambda>foundTarget.
     bnd (require foundTarget (NotFound ''Target user is not a member of this group'')) (\<lambda>targetMember.
     thn (dbset (groupMembers_update (delete_where (\<lambda>x. gm_groupId x = groupId \<and> gm_userId x = targetUserId))))
    (thn (catch_ignore (invalidateGroupMemberIds e groupId))
         (ret targetMember)))))))"

definition check_reply_group :: "db \<Rightarrow> uuid \<Rightarrow> uuid option \<Rightarrow> error + uuid option" where
  "check_reply_group d groupId replyTo = (case replyTo of
     None \<Rightarrow> Inr None
   | Some r \<Rightarrow> (case find_message d r of
       None \<Rightarrow> Inl (NotFound ''Reply target message not found'')
     | Some target \<Rightarrow>
         if m_groupId target \<noteq> Some groupId then Inl (BadRequest ''Reply target is not in the same group'')
         else if m_replyToMessageId target \<noteq> None
           then Inl (BadRequest ''Cannot reply to a message that is itself a reply'')
         else Inr (Some (m_id target))))"

definition group_tx :: "env \<Rightarrow> uuid \<Rightarrow> uuid \<Rightarrow> send_group_dto \<Rightarrow> message_row svc" where
  "group_tx e senderUserId groupId dto =
     bnd (dbget (\<lambda>d. find_message_by_key d (sg_senderDeviceId dto) (sg_idempotencyKey dto))) (\<lambda>existingTx.
     case existingTx of
       Some m \<Rightarrow> ret m
     | None \<Rightarrow>
         bnd (dbget (\<lambda>d. next_group_sequence d groupId)) (\<lambda>nextSequence.
         bnd (dbget (\<lambda>d. check_reply_group d groupId (sg_replyToMessageId dto))) (\<lambda>rep.
         bnd (lift rep) (\<lambda>replyToMessageId.
         bnd (assertAttachmentsOwned e senderUserId (coalesce (sg_mediaIds dto) [])) (\<lambda>_.
         bnd (fresh e) (\<lambda>i.
         let message = new_message e i None (Some groupId) senderUserId (sg_senderDeviceId dto)
               (sg_idempotencyKey dto) nextSequence (coalesce (sg_contentType dto) TEXT) replyToMessageId False in
         thn (create_message message)
        (thn (whenA (coalesce (sg_mediaIds dto) [] \<noteq> []) (attach_media senderUserId (coalesce (sg_mediaIds dto) []) i))
             (ret message))))))))"

definition group_job :: "uuid \<Rightarrow> uuid \<Rightarrow> send_group_dto \<Rightarrow> message_row \<Rightarrow> fanout_job" where
  "group_job senderUserId groupId dto result = \<lparr>fj_messageId = m_id result, fj_groupId = groupId,
          fj_senderUserId = senderUserId, fj_senderDeviceId = sg_senderDeviceId dto,
          fj_ciphertext = sg_ciphertext dto, fj_threadSequence = m_threadSequence result,
          fj_replyToMessageId = m_replyToMessageId result,
          fj_contentType = coalesce (sg_contentType dto) TEXT, fj_createdAt = m_createdAt result,
          fj_mediaIds = coalesce (sg_mediaIds dto) [], fj_forwarded = False\<rparr>"

definition queueGroupMessage :: "env \<Rightarrow> uuid \<Rightarrow> uuid \<Rightarrow> send_group_dto \<Rightarrow> queued svc" where
  "queueGroupMessage e senderUserId groupId dto =
     bnd (dbget (\<lambda>d. find_member d groupId senderUserId)) (\<lambda>member.
     thn (ensure (member \<noteq> None) (Forbidden ''You are not a member of this group''))
    (bnd (dbget (\<lambda>d. find_message_by_key d (sg_senderDeviceId dto) (sg_idempotencyKey dto))) (\<lambda>existing.
     case existing of
       Some m \<Rightarrow> ret \<lparr>q_messageId = m_id m, q_queued = False\<rparr>
     | None \<Rightarrow>
         bnd (tx (group_tx e senderUserId groupId dto)) (\<lambda>result.
         thn (queue_add e (Fanout (group_job senderUserId groupId dto result)))
             (ret \<lparr>q_messageId = m_id result, q_queued = True\<rparr>)))))"

definition editGroupMessage :: "env \<Rightarrow> uuid \<Rightarrow> uuid \<Rightarrow> uuid \<Rightarrow> edit_group_dto \<Rightarrow> queued svc" where
  "editGroupMessage e senderUserId groupId messageId dto =
     bnd (dbget (\<lambda>d. find_member d groupId senderUserId)) (\<lambda>member.
     thn (ensure (member \<noteq> None) (Forbidden ''You are not a member of this group''))
    (bnd (dbget (\<lambda>d. find_message d messageId)) (\<lambda>found.
     bnd (require found (NotFound ''Message not found'')) (\<lambda>message.
     thn (ensure (m_groupId message = Some groupId) (BadRequest ''Message is not in this group''))
    (thn (ensure (m_senderUserId message = senderUserId) (Forbidden ''Only the sender can edit a message''))
    (thn (ensure (m_deletedAt message = None) (Forbidden ''Cannot edit a deleted message''))
    (thn (ensure (within_limit e message) (limit_error e ''Edit''))
    (bnd (mark_edited e messageId (eg_idempotencyKey dto)) (\<lambda>count.
     bnd (dbget (\<lambda>d. find_message d messageId)) (\<lambda>foundUpdated.
     if count = 0 then
       bnd (require foundUpdated (NotFound ''Message not found'')) (\<lambda>existing.
       ret \<lparr>q_messageId = m_id existing, q_queued = False\<rparr>)
     else
       bnd (require foundUpdated (NotFound ''Message not found after edit'')) (\<lambda>updated.
       thn (queue_add e (EditFanout \<lparr>ej_messageId = m_id updated, ej_groupId = groupId,
              ej_senderUserId = senderUserId, ej_senderDeviceId = eg_senderDeviceId dto,
              ej_ciphertext = eg_ciphertext dto, ej_editedAt = coalesce (m_editedAt updated) (now e)\<rparr>))
           (ret \<lparr>q_messageId = m_id updated, q_queued = True\<rparr>))))))))))))"

definition findGroupById :: "uuid \<Rightarrow> (group_row \<times> group_member_row list) svc" where
  "findGroupById i = bnd (dbget (\<lambda>d. find_group d i)) (\<lambda>found.
     bnd (require found (NotFound ''Group not found'')) (\<lambda>g. dbget (\<lambda>d. (g, members_of d i))))"

definition findByIdWithMembers :: "uuid \<Rightarrow> uuid \<Rightarrow> (group_row \<times> (group_member_row \<times> user_row option) list) svc" where
  "findByIdWithMembers i userId = bnd (dbget (\<lambda>d. find_group d i)) (\<lambda>found.
     bnd (require found (NotFound ''Group not found'')) (\<lambda>g.
     bnd (dbget (\<lambda>d. map (\<lambda>x. (x, find_user d (gm_userId x))) (members_of d i))) (\<lambda>members.
     thn (ensure (list_ex (\<lambda>(x, _). gm_userId x = userId) members) (Forbidden ''Not a member of this group''))
         (ret (g, members)))))"

definition getGroupMessages :: "uuid \<Rightarrow> uuid \<Rightarrow> history_opts \<Rightarrow> history_view list svc" where
  "getGroupMessages groupId userId opts =
     bnd (dbget (\<lambda>d. find_member d groupId userId)) (\<lambda>member.
     thn (ensure (member \<noteq> None) (Forbidden ''Not a member of this group''))
         (dbget (\<lambda>d. history_views d
            (history_page (filter (\<lambda>m. m_groupId m = Some groupId) (messages d)) opts))))"

definition findGroupsByUser :: "uuid \<Rightarrow> (group_row \<times> group_member_row list) list svc" where
  "findGroupsByUser userId = dbget (\<lambda>d. map (\<lambda>g. (g, members_of d (g_id g)))
     (order_desc g_updatedAt (filter (\<lambda>g. find_member d (g_id g) userId \<noteq> None) (groups d))))"

section \<open>\<open>GroupFanoutProcessor\<close>\<close>

definition fanout_targets :: "db \<Rightarrow> uuid \<Rightarrow> uuid \<Rightarrow> device_row list" where
  "fanout_targets d groupId senderDeviceId = filter (\<lambda>x. d_id x \<noteq> senderDeviceId)
     (filter (\<lambda>x. find_member d groupId (d_userId x) \<noteq> None \<and> d_active x) (devices d))"

text \<open>\<open>createMany({ skipDuplicates: true })\<close>: every row takes an id and a sequence number, and is
  dropped when its device already has an envelope of the message.\<close>

definition insert_envelope_skip :: "env \<Rightarrow> uuid \<Rightarrow> json \<Rightarrow> device_row \<Rightarrow> unit svc" where
  "insert_envelope_skip e mid ct device =
     bnd (fresh e) (\<lambda>i. bnd next_env_seq (\<lambda>sq. bnd (dbget (\<lambda>d. find_envelope d mid (d_id device))) (\<lambda>old.
       whenA (old = None) (dbset (messageEnvelopes_update
         (\<lambda>xs. xs @ [new_envelope e i sq mid (d_userId device) (d_id device) ct]))))))"

definition create_many_envelopes :: "env \<Rightarrow> uuid \<Rightarrow> json \<Rightarrow> device_row list \<Rightarrow> unit svc" where
  "create_many_envelopes e mid ct ds =
     bnd (dbget (\<lambda>d. find_message d mid)) (\<lambda>m.
     thn (ensure (m \<noteq> None) (PrismaError ''P2003''))
         (for_each ds (insert_envelope_skip e mid ct)))"

definition fanout_envelopes :: "uuid \<Rightarrow> json \<Rightarrow> device_row list \<Rightarrow> fanout_envelope list" where
  "fanout_envelopes mid ct ds = map (\<lambda>x. \<lparr>fe_messageId = mid, fe_recipientUserId = d_userId x,
     fe_recipientDeviceId = d_id x, fe_ciphertext = ct\<rparr>) ds"

definition processGroupFanout :: "env \<Rightarrow> fanout_job \<Rightarrow> nat svc" where
  "processGroupFanout e j =
     bnd (dbget (\<lambda>d. fanout_targets d (fj_groupId j) (fj_senderDeviceId j))) (\<lambda>targetDevices.
     if targetDevices = [] then ret 0
     else
       thn (create_many_envelopes e (fj_messageId j) (fj_ciphertext j) targetDevices)
      (bnd (dbget (\<lambda>d. if fj_mediaIds j \<noteq> []
              then order_asc md_createdAt (filter (\<lambda>x. md_id x \<in> set (fj_mediaIds j)) (messageMedia d)) else [])) (\<lambda>media.
       thn (emit (EvGroupMessageCreated \<lparr>fm_id = fj_messageId j, fm_groupId = fj_groupId j,
              fm_senderUserId = fj_senderUserId j, fm_senderDeviceId = fj_senderDeviceId j,
              fm_threadSequence = fj_threadSequence j, fm_contentType = fj_contentType j,
              fm_replyToMessageId = fj_replyToMessageId j, fm_forwarded = fj_forwarded j,
              fm_createdAt = fj_createdAt j, fm_media = media,
              fm_envelopes = fanout_envelopes (fj_messageId j) (fj_ciphertext j) targetDevices\<rparr>))
      (thn (for_each (js_set (filter (\<lambda>u. u \<noteq> fj_senderUserId j) (map d_userId targetDevices)))
              (\<lambda>uid. enqueueRecalc e uid (fj_groupId j) Grp ''new_message''))
           (ret (length targetDevices))))))"

section \<open>\<open>GroupEditFanoutProcessor\<close>\<close>

text \<open>\<open>for (let i = 0; i < xs.length; i += n) xs.slice(i, i + n)\<close>\<close>

function chunks :: "nat \<Rightarrow> 'a list \<Rightarrow> 'a list list" where
  "chunks n xs = (if n = 0 \<or> xs = [] then [] else take n xs # chunks n (drop n xs))"
  by auto
termination by (relation "measure (\<lambda>(n, xs). length xs)") auto

declare chunks.simps [simp del]

definition edit_envelopes :: "env \<Rightarrow> uuid \<Rightarrow> json \<Rightarrow> uuid list \<Rightarrow> envelope_row list \<Rightarrow> envelope_row list" where
  "edit_envelopes e mid ct devs = update_where
     (\<lambda>x. e_messageId x = mid \<and> e_recipientDeviceId x \<in> set devs)
     (\<lambda>x. x\<lparr>e_ciphertext := ct, e_envelopeVersion := e_envelopeVersion x + 1, e_updatedAt := now e\<rparr>)"

definition edit_count :: "uuid \<Rightarrow> uuid list \<Rightarrow> envelope_row list \<Rightarrow> nat" where
  "edit_count mid devs es = count_where (\<lambda>x. e_messageId x = mid \<and> e_recipientDeviceId x \<in> set devs) es"

definition update_chunk :: "env \<Rightarrow> uuid \<Rightarrow> json \<Rightarrow> uuid list \<Rightarrow> nat svc" where
  "update_chunk e mid ct chunk =
     bnd (dbget (\<lambda>d. edit_count mid chunk (messageEnvelopes d))) (\<lambda>n.
     thn (dbset (messageEnvelopes_update (edit_envelopes e mid ct chunk))) (ret n))"

definition update_in_chunks :: "env \<Rightarrow> uuid \<Rightarrow> json \<Rightarrow> uuid list \<Rightarrow> nat svc" where
  "update_in_chunks e mid ct deviceIds =
     bnd (map_act (update_chunk e mid ct) (chunks 100 deviceIds)) (\<lambda>counts. ret (sum_list counts))"

definition processGroupEditFanout :: "env \<Rightarrow> edit_fanout_job \<Rightarrow> nat svc" where
  "processGroupEditFanout e j =
     bnd (dbget (\<lambda>d. fanout_targets d (ej_groupId j) (ej_senderDeviceId j))) (\<lambda>targetDevices.
     if targetDevices = [] then ret 0
     else
       bnd (update_in_chunks e (ej_messageId j) (ej_ciphertext j) (map d_id targetDevices)) (\<lambda>updatedCount.
       thn (emit (EvGroupFanoutEdited j (fanout_envelopes (ej_messageId j) (ej_ciphertext j) targetDevices)))
      (let pushTargets = map (\<lambda>x. \<lparr>pt_recipientDeviceId = d_id x, pt_recipientUserId = d_userId x\<rparr>)
             (filter (\<lambda>x. d_userId x \<noteq> ej_senderUserId j) targetDevices) in
       thn (whenA (pushTargets \<noteq> []) (catch_ignore (sendEditWakeup e pushTargets)))
           (ret updatedCount))))"

section \<open>Numbering and the invariant\<close>

lemma last_group_message_interval:
  assumes "group_inv d"
  shows "next_group_sequence d g = int (length (group_seqs d g)) + 1"
proof -
  let ?ms = "filter (\<lambda>m. m_groupId m = Some g) (messages d)"
  have nums: "map m_threadSequence ?ms = [1..int (length ?ms)]"
    using assms by (auto simp: group_inv_def group_seqs_def)
  have "order_desc m_threadSequence ?ms = rev ?ms"
    by (rule order_desc_rev) (simp add: nums)
  then have hd: "last_group_message d g = first_of (rev ?ms)" by (simp add: last_group_message_def)
  show ?thesis
  proof (cases ?ms rule: rev_cases)
    case Nil
    then show ?thesis by (simp add: next_group_sequence_def hd group_seqs_def first_of_def)
  next
    case (snoc ys y)
    have "m_threadSequence y = last (map m_threadSequence ?ms)" by (simp add: snoc)
    also have "\<dots> = int (length ?ms)" unfolding nums by (simp add: snoc upto_rec2)
    finally show ?thesis
      using snoc by (simp add: next_group_sequence_def hd group_seqs_def)
  qed
qed

lemma append_group_inv:
  assumes inv: "chat_inv d" and m: "m_threadId m = None" "m_groupId m = Some g"
      "m_threadSequence m = next_group_sequence d g"
    and uniq: "message_unique_ok d m"
    and rep: "\<And>r. m_replyToMessageId m = Some r \<Longrightarrow>
      \<exists>p\<in>set (messages d). m_id p = r \<and> m_replyToMessageId p = None \<and> m_groupId p = Some g"
  shows "chat_inv (messages_update (\<lambda>ms. ms @ [m]) d)" (is "chat_inv ?d")
proof -
  have ki: "key_inv d" and ti: "thread_inv d" and gi: "group_inv d" and ri: "reply_inv d" and ei: "envelope_inv d"
    using inv by (simp_all add: chat_inv_def)
  have "key_inv ?d" using ki uniq m by (auto simp: key_inv_def message_unique_ok_def)
  moreover have "thread_inv ?d"
    using ti m(1) by (auto simp: thread_inv_def thread_seqs_def)
  moreover have "group_inv ?d"
    unfolding group_inv_def
  proof
    fix h
    have old: "group_seqs d h = [1..int (length (group_seqs d h))]" using gi by (simp add: group_inv_def)
    show "group_seqs ?d h = [1..int (length (group_seqs ?d h))]"
    proof (cases "h = g")
      case True
      have "group_seqs ?d h = [1..int (length (group_seqs d h))] @ [int (length (group_seqs d h)) + 1]"
        using old last_group_message_interval [OF gi, of g] by (simp add: group_seqs_append m True)
      then show ?thesis by (simp add: upto_snoc del: of_nat_Suc)
    next
      case False
      with old show ?thesis by (simp add: group_seqs_append m)
    qed
  qed
  moreover have "reply_inv ?d"
  proof -
    have "\<exists>p\<in>set (messages d). m_id p = r \<and> m_replyToMessageId p = None \<and> m_threadId p = m_threadId m \<and> m_groupId p = m_groupId m"
      if "m_replyToMessageId m = Some r" for r
      using rep [OF that] ki m by (fastforce simp: key_inv_def)
    with ri show ?thesis by (fastforce simp: reply_inv_def)
  qed
  moreover have "envelope_inv ?d" using ei by (auto simp: envelope_inv_def)
  ultimately show ?thesis by (simp add: chat_inv_def)
qed

lemma check_reply_group_ok:
  "check_reply_group d g rep = Inr (Some r) \<Longrightarrow>
   \<exists>p\<in>set (messages d). m_id p = r \<and> m_replyToMessageId p = None \<and> m_groupId p = Some g"
  by (auto simp: check_reply_group_def find_message_def split: option.splits if_splits dest!: find_Some_in)

lemma kdb_attach_media [kdb_intros]: "kdb chat_inv (attach_media u ids mid)"
  unfolding attach_media_def by (rule kdb_same_chat) (simp add: same_chat_def)

lemma group_tx_created:
  assumes "group_tx e s g dto w = (Inr m, w')"
    and "find_message_by_key (w_db w) (sg_senderDeviceId dto) (sg_idempotencyKey dto) = None"
  obtains rep where "check_reply_group (w_db w) g (sg_replyToMessageId dto) = Inr rep"
    "m = new_message e (mkId e (w_supply w)) None (Some g) s (sg_senderDeviceId dto) (sg_idempotencyKey dto)
          (next_group_sequence (w_db w) g) (coalesce (sg_contentType dto) TEXT) rep False"
    "message_unique_ok (w_db w) m"
    "\<exists>md. w_db w' = messageMedia_update md (messages_update (\<lambda>ms. ms @ [m]) (w_db w))"
proof -
  let ?i = "mkId e (w_supply w)"
  let ?d = "messages_update (\<lambda>ms. ms @ [m]) (w_db w)"
  let ?w1 = "w\<lparr>w_supply := Suc (w_supply w), w_db := ?d\<rparr>"
  obtain rep where
      rep: "check_reply_group (w_db w) g (sg_replyToMessageId dto) = Inr rep"
    and m: "m = new_message e ?i None (Some g) s (sg_senderDeviceId dto) (sg_idempotencyKey dto)
          (next_group_sequence (w_db w) g) (coalesce (sg_contentType dto) TEXT) rep False"
    and uniq: "message_unique_ok (w_db w) m"
    and att: "whenA (coalesce (sg_mediaIds dto) [] \<noteq> []) (attach_media s (coalesce (sg_mediaIds dto) []) ?i) ?w1 = (Inr (), w')"
    using assms unfolding group_tx_def
    by (auto simp: ok_simps Let_def simp del: whenA_ok dest!: assertAttachmentsOwned_ok)
  have "w_db w' = messageMedia_update id ?d \<or> (\<exists>md. w_db w' = messageMedia_update md ?d)"
    using att by (auto simp: attach_media_def ok_simps split: if_splits)
  with rep m uniq show thesis by (intro that) auto
qed

lemma group_tx_inv:
  assumes "group_tx e s g dto w = (Inr m, w')" and "chat_inv (w_db w)"
  shows "chat_inv (w_db w')"
proof (cases "find_message_by_key (w_db w) (sg_senderDeviceId dto) (sg_idempotencyKey dto)")
  case (Some x)
  with assms show ?thesis by (simp add: group_tx_def act_simps)
next
  case None
  let ?d = "messages_update (\<lambda>ms. ms @ [m]) (w_db w)"
  from group_tx_created [OF assms(1) None] obtain rep md where
      rep: "check_reply_group (w_db w) g (sg_replyToMessageId dto) = Inr rep"
    and m: "m = new_message e (mkId e (w_supply w)) None (Some g) s (sg_senderDeviceId dto) (sg_idempotencyKey dto)
          (next_group_sequence (w_db w) g) (coalesce (sg_contentType dto) TEXT) rep False"
    and uniq: "message_unique_ok (w_db w) m" and db: "w_db w' = messageMedia_update md ?d"
    by metis
  have "chat_inv ?d"
    by (rule append_group_inv [where g = g]) (use assms(2) uniq rep check_reply_group_ok in \<open>simp_all add: m\<close>)
  moreover have "same_chat ?d (w_db w')" by (simp add: db same_chat_def)
  ultimately show ?thesis by (rule same_chat_inv [rotated])
qed

lemma kdb_queueGroupMessage [kdb_intros]: "kdb chat_inv (queueGroupMessage e s g dto)"
  unfolding queueGroupMessage_def by (intro kdb_intros kdb_tx) (auto dest: group_tx_inv)

lemma kdb_mark_edited [kdb_intros]: "kdb chat_inv (mark_edited e mid key)"
  unfolding mark_edited_def
  by (intro kdb_intros kdb_same_chat same_chat_update_messages) (simp add: msg_core_def)

lemma kdb_editGroupMessage [kdb_intros]: "kdb chat_inv (editGroupMessage e s g mid dto)"
  unfolding editGroupMessage_def by (intro kdb_intros)

section \<open>The envelopes of a fan-out\<close>

text \<open>What one inserted row does, and what a loop over devices leaves behind: every device of the list
  has an envelope of the message, and existing envelopes are untouched.\<close>

lemma insert_envelope_skip_run:
  "insert_envelope_skip e mid ct x w = (Inr (), w\<lparr>w_supply := Suc (w_supply w), w_envSeq := w_envSeq w + 1,
     w_db := (if find_envelope (w_db w) mid (d_id x) = None
       then messageEnvelopes_update (\<lambda>xs. xs @ [new_envelope e (mkId e (w_supply w)) (w_envSeq w) mid (d_userId x) (d_id x) ct]) (w_db w)
       else w_db w)\<rparr>)"
  by (simp add: insert_envelope_skip_def act_simps)

lemma insert_loop:
  assumes "for_each ds (insert_envelope_skip e mid ct) w = (r, w')"
  obtains es where "r = Inr ()" "w_db w' = messageEnvelopes_update (\<lambda>xs. xs @ es) (w_db w)"
    "\<forall>x\<in>set es. e_messageId x = mid \<and> e_ciphertext x = ct \<and> e_status x = PENDING
       \<and> (\<exists>dv\<in>set ds. e_recipientDeviceId x = d_id dv \<and> e_recipientUserId x = d_userId dv)
       \<and> find_envelope (w_db w) mid (e_recipientDeviceId x) = None"
    "distinct (map e_recipientDeviceId es)"
    "\<forall>dv\<in>set ds. find_envelope (w_db w') mid (d_id dv) \<noteq> None"
    "w_events w' = w_events w" "w_jobs w' = w_jobs w"
proof -
  have "\<exists>es. r = Inr () \<and> w_db w' = messageEnvelopes_update (\<lambda>xs. xs @ es) (w_db w)
    \<and> (\<forall>x\<in>set es. e_messageId x = mid \<and> e_ciphertext x = ct \<and> e_status x = PENDING
       \<and> (\<exists>dv\<in>set ds. e_recipientDeviceId x = d_id dv \<and> e_recipientUserId x = d_userId dv)
       \<and> find_envelope (w_db w) mid (e_recipientDeviceId x) = None)
    \<and> distinct (map e_recipientDeviceId es)
    \<and> (\<forall>dv\<in>set ds. find_envelope (w_db w') mid (d_id dv) \<noteq> None)
    \<and> w_events w' = w_events w \<and> w_jobs w' = w_jobs w"
    using assms
  proof (induction ds arbitrary: w)
    case Nil
    then show ?case by (intro exI [of _ "[]"]) (auto simp: act_simps)
  next
    case (Cons x ds)
    obtain w1 where w1: "insert_envelope_skip e mid ct x w = (Inr (), w1)"
        "for_each ds (insert_envelope_skip e mid ct) w1 = (r, w')"
      using Cons.prems by (simp add: thn_run insert_envelope_skip_run [of e mid ct x w])
    from Cons.IH [OF w1(2)] obtain es where es: "r = Inr ()" "w_db w' = messageEnvelopes_update (\<lambda>xs. xs @ es) (w_db w1)"
      "\<And>y. y \<in> set es \<Longrightarrow> e_messageId y = mid \<and> e_ciphertext y = ct \<and> e_status y = PENDING
       \<and> (\<exists>dv\<in>set ds. e_recipientDeviceId y = d_id dv \<and> e_recipientUserId y = d_userId dv)
       \<and> find_envelope (w_db w1) mid (e_recipientDeviceId y) = None"
      "distinct (map e_recipientDeviceId es)" "\<forall>dv\<in>set ds. find_envelope (w_db w') mid (d_id dv) \<noteq> None"
      "w_events w' = w_events w1" "w_jobs w' = w_jobs w1"
      by blast
    show ?case
    proof (cases "find_envelope (w_db w) mid (d_id x)")
      case None
      define n where "n = new_envelope e (mkId e (w_supply w)) (w_envSeq w) mid (d_userId x) (d_id x) ct"
      have w1': "w_db w1 = messageEnvelopes_update (\<lambda>xs. xs @ [n]) (w_db w)" "w_events w1 = w_events w" "w_jobs w1 = w_jobs w"
        using w1(1) None by (auto simp: insert_envelope_skip_run n_def)
      have n: "e_messageId n = mid" "e_recipientDeviceId n = d_id x" "e_recipientUserId n = d_userId x"
          "e_ciphertext n = ct" "e_status n = PENDING"
        by (simp_all add: n_def)
      have fe: "find_envelope (w_db w) mid (e_recipientDeviceId y) = None \<and> e_recipientDeviceId y \<noteq> d_id x" if "y \<in> set es" for y
        using es(3) [OF that] n by (auto simp: w1' find_envelope_def find_append split: option.splits if_splits)
      have db: "w_db w' = messageEnvelopes_update (\<lambda>xs. xs @ n # es) (w_db w)"
        by (simp add: es(2) w1' comp_def)
      have fx: "find_envelope (w_db w') mid (d_id x) \<noteq> None"
        using n by (auto simp: db find_envelope_def find_None_iff)
      show ?thesis
      proof (intro exI [of _ "n # es"] conjI ballI)
        show "distinct (map e_recipientDeviceId (n # es))" using fe es(4) n(2) by fastforce
        fix y assume y: "y \<in> set (n # es)"
        then have c: "y = n \<or> y \<in> set es" by simp
        show "e_messageId y = mid" "e_ciphertext y = ct" "e_status y = PENDING"
          using c es(3) n by auto
        show "\<exists>dv\<in>set (x # ds). e_recipientDeviceId y = d_id dv \<and> e_recipientUserId y = d_userId dv"
          using c es(3) n by auto
        show "find_envelope (w_db w) mid (e_recipientDeviceId y) = None"
          using c fe None n(2) by auto
      next
        fix dv assume "dv \<in> set (x # ds)"
        then show "find_envelope (w_db w') mid (d_id dv) \<noteq> None" using es(5) fx by auto
      qed (simp_all add: es(1,6,7) w1' db)
    next
      case (Some y)
      have w1': "w_db w1 = w_db w" "w_events w1 = w_events w" "w_jobs w1 = w_jobs w"
        using w1(1) Some by (auto simp: insert_envelope_skip_run)
      have fx: "find_envelope (w_db w') mid (d_id x) \<noteq> None"
        using Some by (simp add: es(2) w1' find_envelope_def find_append)
      show ?thesis
      proof (intro exI [of _ es] conjI ballI)
        show "distinct (map e_recipientDeviceId es)" by (rule es(4))
        fix z assume z: "z \<in> set es"
        show "e_messageId z = mid" "e_ciphertext z = ct" "e_status z = PENDING"
          using es(3) [OF z] by auto
        show "\<exists>dv\<in>set (x # ds). e_recipientDeviceId z = d_id dv \<and> e_recipientUserId z = d_userId dv"
          using es(3) [OF z] by auto
        show "find_envelope (w_db w) mid (e_recipientDeviceId z) = None"
          using es(3) [OF z] by (simp add: w1')
      next
        fix dv assume "dv \<in> set (x # ds)"
        then show "find_envelope (w_db w') mid (d_id dv) \<noteq> None" using es(5) fx by auto
      qed (simp_all add: es(1,2,6,7) w1')
    qed
  qed
  then show thesis using that by blast
qed

section \<open>Batched updates\<close>

lemma concat_chunks: "0 < n \<Longrightarrow> concat (chunks n xs) = xs"
proof (induction n xs rule: chunks.induct)
  case (1 n xs)
  then show ?case by (subst chunks.simps) auto
qed

lemma chunks_bounded: "c \<in> set (chunks n xs) \<Longrightarrow> length c \<le> n"
proof (induction n xs rule: chunks.induct)
  case (1 n xs)
  then show ?case by (subst (asm) (2) chunks.simps) (auto split: if_splits)
qed

lemma edit_envelopes_append:
  "set a \<inter> set b = {} \<Longrightarrow> edit_envelopes e mid ct b (edit_envelopes e mid ct a es) = edit_envelopes e mid ct (a @ b) es"
  unfolding edit_envelopes_def by (induction es) auto

lemma edit_count_edit [simp]: "edit_count mid b (edit_envelopes e mid ct a es) = edit_count mid b es"
  unfolding edit_envelopes_def edit_count_def by (induction es) auto

lemma edit_count_append:
  "set a \<inter> set b = {} \<Longrightarrow> edit_count mid (a @ b) es = edit_count mid a es + edit_count mid b es"
  unfolding edit_count_def by (induction es) auto

lemma edit_nothing [simp]: "edit_envelopes e mid ct [] es = es" "edit_count mid [] es = 0"
  by (simp_all add: edit_envelopes_def edit_count_def update_where_id)

lemma update_chunk_run:
  "update_chunk e mid ct c w = (Inr (edit_count mid c (messageEnvelopes (w_db w))),
     w\<lparr>w_db := messageEnvelopes_update (edit_envelopes e mid ct c) (w_db w)\<rparr>)"
  by (simp add: update_chunk_def act_simps)

lemma map_act_update_chunk:
  "distinct (concat cs) \<Longrightarrow> \<exists>counts. map_act (update_chunk e mid ct) cs w = (Inr counts,
     w\<lparr>w_db := messageEnvelopes_update (edit_envelopes e mid ct (concat cs)) (w_db w)\<rparr>)
     \<and> sum_list counts = edit_count mid (concat cs) (messageEnvelopes (w_db w))"
proof (induction cs arbitrary: w)
  case Nil
  show ?case by (simp add: act_simps)
next
  case (Cons c cs)
  let ?w = "w\<lparr>w_db := messageEnvelopes_update (edit_envelopes e mid ct c) (w_db w)\<rparr>"
  from Cons.prems have dj: "set c \<inter> set (concat cs) = {}" and "distinct (concat cs)" by auto
  with Cons.IH obtain counts where c: "map_act (update_chunk e mid ct) cs ?w = (Inr counts,
       ?w\<lparr>w_db := messageEnvelopes_update (edit_envelopes e mid ct (concat cs)) (w_db ?w)\<rparr>)"
       "sum_list counts = edit_count mid (concat cs) (messageEnvelopes (w_db ?w))" by blast
  have "messageEnvelopes_update (edit_envelopes e mid ct (concat cs)) (messageEnvelopes_update (edit_envelopes e mid ct c) (w_db w))
      = messageEnvelopes_update (edit_envelopes e mid ct (c @ concat cs)) (w_db w)"
    using edit_envelopes_append [OF dj, of e mid ct "messageEnvelopes (w_db w)"] by (cases "w_db w") simp
  with c dj show ?case
    by (simp add: bnd_run update_chunk_run [of e mid ct c w] act_simps edit_count_append)
qed

text \<open>The edit worker's batches are one update.  For distinct device ids, updating the envelopes in
  batches of at most 100 has exactly the effect of one update over all devices: every envelope of
  the message for one of the devices gets the new ciphertext and one version step, all others stay,
  and the reported count is the number of envelopes changed.\<close>

lemma update_in_chunks_eq:
  assumes "distinct deviceIds"
  shows "update_in_chunks e mid ct deviceIds w =
    (Inr (edit_count mid deviceIds (messageEnvelopes (w_db w))),
     w\<lparr>w_db := messageEnvelopes_update (edit_envelopes e mid ct deviceIds) (w_db w)\<rparr>)
    \<and> (\<forall>c\<in>set (chunks 100 deviceIds). length c \<le> 100)"
proof -
  have "concat (chunks 100 deviceIds) = deviceIds" by (rule concat_chunks) simp
  then show ?thesis
    using map_act_update_chunk [of "chunks 100 deviceIds" e mid ct w] assms
    by (auto simp: update_in_chunks_def act_simps chunks_bounded)
qed

section \<open>Fan-out\<close>

lemma fanout_targets_frame:
  "devices d' = devices d \<Longrightarrow> groupMembers d' = groupMembers d \<Longrightarrow> fanout_targets d' g s = fanout_targets d g s"
  by (simp add: fanout_targets_def find_member_def)

lemma enqueue_loop_frame:
  "for_each us (\<lambda>u. enqueueRecalc e u g ty rs) w = (r, w') \<Longrightarrow> w_db w' = w_db w \<and> w_events w' = w_events w"
  by (induction us arbitrary: w)
    (auto simp: act_simps enqueueRecalc_def queue_add_def split: option.splits prod.splits sum.splits)

text \<open>A fan-out that reached its event: the database it leaves.\<close>

lemma processGroupFanout_db:
  assumes "processGroupFanout e j w = (r, w')" and "find_message (w_db w) (fj_messageId j) \<noteq> None"
  obtains es where "w_db w' = messageEnvelopes_update (\<lambda>xs. xs @ es) (w_db w)"
    "\<forall>x\<in>set es. e_messageId x = fj_messageId j \<and> e_ciphertext x = fj_ciphertext j \<and> e_status x = PENDING
       \<and> (\<exists>dv\<in>set (fanout_targets (w_db w) (fj_groupId j) (fj_senderDeviceId j)).
            e_recipientDeviceId x = d_id dv \<and> e_recipientUserId x = d_userId dv)
       \<and> find_envelope (w_db w) (fj_messageId j) (e_recipientDeviceId x) = None"
    "distinct (map e_recipientDeviceId es)"
    "\<forall>dv\<in>set (fanout_targets (w_db w) (fj_groupId j) (fj_senderDeviceId j)).
       find_envelope (w_db w') (fj_messageId j) (d_id dv) \<noteq> None"
proof (cases "fanout_targets (w_db w) (fj_groupId j) (fj_senderDeviceId j) = []")
  case True
  with assms(1) have "w_db w' = messageEnvelopes_update (\<lambda>xs. xs @ []) (w_db w)"
    by (auto simp: processGroupFanout_def act_simps)
  then show thesis by (rule that) (simp_all add: True)
next
  case False
  let ?ds = "fanout_targets (w_db w) (fj_groupId j) (fj_senderDeviceId j)"
  obtain r1 w1 where loop: "for_each ?ds (insert_envelope_skip e (fj_messageId j) (fj_ciphertext j)) w = (r1, w1)"
    by fastforce
  from loop obtain es where es: "r1 = Inr ()" "w_db w1 = messageEnvelopes_update (\<lambda>xs. xs @ es) (w_db w)"
    "\<forall>x\<in>set es. e_messageId x = fj_messageId j \<and> e_ciphertext x = fj_ciphertext j \<and> e_status x = PENDING
       \<and> (\<exists>dv\<in>set ?ds. e_recipientDeviceId x = d_id dv \<and> e_recipientUserId x = d_userId dv)
       \<and> find_envelope (w_db w) (fj_messageId j) (e_recipientDeviceId x) = None"
    "distinct (map e_recipientDeviceId es)"
    "\<forall>dv\<in>set ?ds. find_envelope (w_db w1) (fj_messageId j) (d_id dv) \<noteq> None"
    by (rule insert_loop)
  have "w_db w' = w_db w1"
    using assms False loop es(1)
    by (auto simp: processGroupFanout_def create_many_envelopes_def act_simps split: prod.splits sum.splits
        dest!: enqueue_loop_frame)
  with es show thesis by (intro that) auto
qed

lemma kdb_processGroupFanout [kdb_intros]: "kdb chat_inv (processGroupFanout e j)"
proof (rule kdbI)
  fix w :: world assume inv: "chat_inv (w_db w)"
  obtain r w' where run: "processGroupFanout e j w = (r, w')" by fastforce
  have "chat_inv (w_db w')"
  proof (cases "find_message (w_db w) (fj_messageId j)")
    case None
    with run have "w_db w' = w_db w"
      by (auto simp: processGroupFanout_def create_many_envelopes_def act_simps split: if_splits)
    with inv show ?thesis by simp
  next
    case (Some m)
    then have mid: "fj_messageId j \<in> m_id ` set (messages (w_db w))"
      by (rule find_message_id)
    from Some have "find_message (w_db w) (fj_messageId j) \<noteq> None" by simp
    from run this obtain es where es: "w_db w' = messageEnvelopes_update (\<lambda>xs. xs @ es) (w_db w)"
        "\<forall>x\<in>set es. e_messageId x = fj_messageId j \<and> find_envelope (w_db w) (fj_messageId j) (e_recipientDeviceId x) = None"
        "distinct (map e_recipientDeviceId es)"
      by (rule processGroupFanout_db) blast
    show ?thesis unfolding es(1)
      by (rule append_envelopes_inv [OF inv mid]) (use es in auto)
  qed
  with run show "chat_inv (w_db (snd (processGroupFanout e j w)))" by simp
qed

text \<open>C20: A fan-out reaches every device of the group, once.  After the worker has run, every active
  device of every member except the sending device has an envelope of the message; the envelopes it
  added carry the job's ciphertext, are pending and go to such devices only; and running the same job
  again (a retry of the queue) adds nothing.\<close>

theorem processGroupFanout_delivers:
  assumes "processGroupFanout e j w = (r, w1)" and "find_message (w_db w) (fj_messageId j) \<noteq> None"
    and "processGroupFanout e' j w2 = (r', w3)" and "w_db w2 = w_db w1"
  shows "(\<forall>dv\<in>set (devices (w_db w)). d_active dv \<and> find_member (w_db w) (fj_groupId j) (d_userId dv) \<noteq> None
            \<and> d_id dv \<noteq> fj_senderDeviceId j \<longrightarrow> find_envelope (w_db w1) (fj_messageId j) (d_id dv) \<noteq> None)
    \<and> (\<exists>es. messageEnvelopes (w_db w1) = messageEnvelopes (w_db w) @ es \<and> distinct (map e_recipientDeviceId es)
         \<and> (\<forall>x\<in>set es. e_messageId x = fj_messageId j \<and> e_ciphertext x = fj_ciphertext j \<and> e_status x = PENDING
              \<and> find_member (w_db w) (fj_groupId j) (e_recipientUserId x) \<noteq> None
              \<and> e_recipientDeviceId x \<noteq> fj_senderDeviceId j))
    \<and> w_db w3 = w_db w1"
proof -
  let ?T = "\<lambda>d. set (fanout_targets d (fj_groupId j) (fj_senderDeviceId j))"
  from assms(1,2) obtain es where es: "w_db w1 = messageEnvelopes_update (\<lambda>xs. xs @ es) (w_db w)"
    "\<forall>x\<in>set es. e_messageId x = fj_messageId j \<and> e_ciphertext x = fj_ciphertext j \<and> e_status x = PENDING
       \<and> (\<exists>dv\<in>?T (w_db w). e_recipientDeviceId x = d_id dv \<and> e_recipientUserId x = d_userId dv)
       \<and> find_envelope (w_db w) (fj_messageId j) (e_recipientDeviceId x) = None"
    "distinct (map e_recipientDeviceId es)"
    "\<forall>dv\<in>?T (w_db w). find_envelope (w_db w1) (fj_messageId j) (d_id dv) \<noteq> None"
    by (rule processGroupFanout_db)
  have T: "?T (w_db w2) = ?T (w_db w)"
    using fanout_targets_frame [of "w_db w2" "w_db w"] by (simp add: assms(4) es(1))
  have "find_message (w_db w2) (fj_messageId j) \<noteq> None"
    using assms(2) by (simp add: assms(4) es(1) find_message_def)
  with assms(3) obtain es' where es': "w_db w3 = messageEnvelopes_update (\<lambda>xs. xs @ es') (w_db w2)"
    "\<forall>x\<in>set es'. (\<exists>dv\<in>?T (w_db w2). e_recipientDeviceId x = d_id dv)
       \<and> find_envelope (w_db w2) (fj_messageId j) (e_recipientDeviceId x) = None"
    by (rule processGroupFanout_db) blast
  have "es' = []"
  proof (rule ccontr)
    assume "es' \<noteq> []"
    then have hd: "hd es' \<in> set es'" by simp
    with es'(2) obtain dv where "dv \<in> ?T (w_db w2)" "e_recipientDeviceId (hd es') = d_id dv" by blast
    with es(4) T have "find_envelope (w_db w2) (fj_messageId j) (e_recipientDeviceId (hd es')) \<noteq> None"
      by (simp add: assms(4))
    with bspec [OF es'(2) hd] show False by simp
  qed
  then have "w_db w3 = w_db w1" using es'(1) assms(4) by simp
  moreover have "\<forall>x\<in>set es. find_member (w_db w) (fj_groupId j) (e_recipientUserId x) \<noteq> None
      \<and> e_recipientDeviceId x \<noteq> fj_senderDeviceId j"
    using es(2) by (auto simp: fanout_targets_def)
  ultimately show ?thesis
    using es by (auto simp: fanout_targets_def)
qed

definition demo_group_send :: send_group_dto where
  "demo_group_send = \<lparr>sg_senderDeviceId = ''a1'', sg_idempotencyKey = ''gk'', sg_contentType = None,
     sg_replyToMessageId = None, sg_mediaIds = None, sg_ciphertext = JStr ''c''\<rparr>"

definition demo_fanout :: fanout_job where
  "demo_fanout = \<lparr>fj_messageId = ''i0'', fj_groupId = ''g'', fj_senderUserId = ''ann'', fj_senderDeviceId = ''a1'',
     fj_ciphertext = JStr ''c'', fj_threadSequence = 1, fj_replyToMessageId = None, fj_contentType = TEXT,
     fj_createdAt = 1000000, fj_mediaIds = [], fj_forwarded = False\<rparr>"

theorem processGroupFanout_delivers_witness:
  "find_envelope (w_db (snd (processGroupFanout demo_env demo_fanout
       (snd (queueGroupMessage demo_env ''ann'' ''g'' demo_group_send demo_world))))) ''i0'' ''b1'' \<noteq> None"
proof -
  let ?w = "snd (queueGroupMessage demo_env ''ann'' ''g'' demo_group_send demo_world)"
  have stored: "find_message (w_db ?w) (fj_messageId demo_fanout) \<noteq> None" by code_simp
  obtain r w1 where run: "processGroupFanout demo_env demo_fanout ?w = (r, w1)" by fastforce
  obtain r' w3 where again: "processGroupFanout demo_env demo_fanout w1 = (r', w3)" by fastforce
  have "list_ex (\<lambda>dv. d_active dv \<and> find_member (w_db ?w) ''g'' (d_userId dv) \<noteq> None \<and> d_id dv = ''b1'') (devices (w_db ?w))"
    by code_simp
  with processGroupFanout_delivers [OF run stored again refl] run show ?thesis
    by (auto simp: list_ex_iff demo_fanout_def)
qed

section \<open>Queueing a group message\<close>

lemma group_tx_new:
  assumes "group_tx e s g dto w = (Inr m, w')"
    and "find_message_by_key (w_db w) (sg_senderDeviceId dto) (sg_idempotencyKey dto) = None"
  shows "messages (w_db w') = messages (w_db w) @ [m] \<and> m_groupId m = Some g \<and> m_senderUserId m = s
    \<and> m_senderDeviceId m = sg_senderDeviceId dto \<and> m_idempotencyKey m = sg_idempotencyKey dto
    \<and> m_threadSequence m = next_group_sequence (w_db w) g \<and> groupMembers (w_db w') = groupMembers (w_db w)"
proof -
  from group_tx_created [OF assms] obtain rep md where
      "m = new_message e (mkId e (w_supply w)) None (Some g) s (sg_senderDeviceId dto) (sg_idempotencyKey dto)
          (next_group_sequence (w_db w) g) (coalesce (sg_contentType dto) TEXT) rep False"
      "w_db w' = messageMedia_update md (messages_update (\<lambda>ms. ms @ [m]) (w_db w))"
    by metis
  then show ?thesis by simp
qed

lemma quiet_group_tx [quiet_intros]: "quiet (group_tx e s g dto)"
  unfolding group_tx_def assertAttachmentsOwned_def create_message_def attach_media_def
  by (intro quiet_intros)

lemma queueGroupMessage_ok:
  assumes "queueGroupMessage e s g dto w = (Inr q, w')"
    and "find_message_by_key (w_db w) (sg_senderDeviceId dto) (sg_idempotencyKey dto) = None"
  obtains m w1 where "find_member (w_db w) g s \<noteq> None" "group_tx e s g dto w = (Inr m, w1)"
    "q = \<lparr>q_messageId = m_id m, q_queued = True\<rparr>" "w' = w1\<lparr>w_jobs := w_jobs w1 @ [Fanout (group_job s g dto m)]\<rparr>"
  using assms unfolding queueGroupMessage_def by (auto simp: ok_simps)

text \<open>C19: Queueing a group message.  Under an unused key, a member's request stores one message with the
  number after the last one of the group, and hands exactly one fan-out job for it to the queue, with
  the request's ciphertext and the stored number.\<close>

theorem queueGroupMessage_new:
  assumes "queueGroupMessage e s g dto w = (Inr q, w')" and "chat_inv (w_db w)"
    and "find_message_by_key (w_db w) (sg_senderDeviceId dto) (sg_idempotencyKey dto) = None"
  shows "find_member (w_db w) g s \<noteq> None \<and> q_queued q
    \<and> (\<exists>m j. messages (w_db w') = messages (w_db w) @ [m] \<and> m_id m = q_messageId q
        \<and> m_groupId m = Some g \<and> m_senderUserId m = s
        \<and> m_threadSequence m = int (length (group_seqs (w_db w) g)) + 1
        \<and> w_jobs w' = w_jobs w @ [Fanout j] \<and> fj_messageId j = m_id m \<and> fj_groupId j = g
        \<and> fj_ciphertext j = sg_ciphertext dto \<and> fj_threadSequence j = m_threadSequence m)"
proof -
  from assms(1,3) obtain m w1 where r: "find_member (w_db w) g s \<noteq> None" "group_tx e s g dto w = (Inr m, w1)"
      "q = \<lparr>q_messageId = m_id m, q_queued = True\<rparr>" "w' = w1\<lparr>w_jobs := w_jobs w1 @ [Fanout (group_job s g dto m)]\<rparr>"
    by (rule queueGroupMessage_ok)
  have "group_inv (w_db w)" using assms(2) by (simp add: chat_inv_def)
  then show ?thesis
    using r group_tx_new [OF r(2) assms(3)] quiet_result(2) [OF quiet_group_tx r(2)]
    by (auto simp: last_group_message_interval group_job_def)
qed

theorem queueGroupMessage_new_witness:
  "\<exists>q w'. queueGroupMessage demo_env ''ann'' ''g'' demo_group_send demo_world = (Inr q, w')
     \<and> q_queued q \<and> length (w_jobs w') = 1"
proof -
  have "\<not> isl (fst (queueGroupMessage demo_env ''ann'' ''g'' demo_group_send demo_world))" by code_simp
  then obtain q w' where r: "queueGroupMessage demo_env ''ann'' ''g'' demo_group_send demo_world = (Inr q, w')"
    by (rule run_okE)
  have "find_message_by_key (w_db demo_world) (sg_senderDeviceId demo_group_send) (sg_idempotencyKey demo_group_send) = None"
    by (simp add: find_message_by_key_def demo_db_def empty_db_def)
  from queueGroupMessage_new [OF r _ this] r show ?thesis
    by (auto simp: demo_chat_inv) (simp add: demo_world_def)
qed

text \<open>C22: A message can be stored and never delivered.  When the queue rejects the fan-out job, the
  request fails although its transaction has committed; every repetition of the request finds the
  stored message, answers success with \<open>queued: false\<close>, and enqueues no job.\<close>

theorem queueGroupMessage_lost:
  assumes "queueErr e GROUP_FANOUT = Some msg" and "chat_inv (w_db w)"
    and "find_message_by_key (w_db w) (sg_senderDeviceId dto) (sg_idempotencyKey dto) = None"
    and "find_member (w_db w) g s \<noteq> None" and "group_tx e s g dto w = (Inr m, w1)"
  shows "\<exists>w2. queueGroupMessage e s g dto w = (Inl (OtherError msg), w2) \<and> m \<in> set (messages (w_db w2))
    \<and> w_jobs w2 = w_jobs w
    \<and> queueGroupMessage e' s g dto w2 = (Inr \<lparr>q_messageId = m_id m, q_queued = False\<rparr>, w2)"
proof -
  note new = group_tx_new [OF assms(5,3)]
  have run: "queueGroupMessage e s g dto w = (Inl (OtherError msg), w1)"
    using assms by (simp add: queueGroupMessage_def queue_add_def act_simps)
  have "key_inv (w_db w1)"
    using group_tx_inv [OF assms(5,2)] by (simp add: chat_inv_def)
  then have "key_inv (messages_update (\<lambda>ms. ms @ [m]) (w_db w))" using new by (simp add: key_inv_def)
  from find_key_append [OF this] have "find_message_by_key (w_db w1) (sg_senderDeviceId dto) (sg_idempotencyKey dto) = Some m"
    using new by (simp add: find_message_by_key_def)
  moreover have "find_member (w_db w1) g s = find_member (w_db w) g s"
    using new by (simp add: find_member_def)
  ultimately show ?thesis
    using run new assms(4) quiet_result(2) [OF quiet_group_tx assms(5)]
    by (intro exI [of _ w1]) (auto simp: queueGroupMessage_def act_simps)
qed

theorem queueGroupMessage_lost_witness:
  "\<exists>i w2. queueGroupMessage (demo_env\<lparr>queueErr := \<lambda>_. Some ''down''\<rparr>) ''ann'' ''g'' demo_group_send demo_world
       = (Inl (OtherError ''down''), w2)
     \<and> queueGroupMessage demo_env ''ann'' ''g'' demo_group_send w2 = (Inr \<lparr>q_messageId = i, q_queued = False\<rparr>, w2)
     \<and> w_jobs w2 = []"
proof -
  let ?e = "demo_env\<lparr>queueErr := \<lambda>_. Some ''down''\<rparr>"
  have "\<not> isl (fst (group_tx ?e ''ann'' ''g'' demo_group_send demo_world))" by code_simp
  then obtain m w1 where r: "group_tx ?e ''ann'' ''g'' demo_group_send demo_world = (Inr m, w1)" by (rule run_okE)
  have k: "find_message_by_key (w_db demo_world) (sg_senderDeviceId demo_group_send) (sg_idempotencyKey demo_group_send) = None"
    by (simp add: find_message_by_key_def demo_db_def empty_db_def)
  have mem: "find_member (w_db demo_world) ''g'' ''ann'' \<noteq> None" by code_simp
  have q: "queueErr ?e GROUP_FANOUT = Some ''down''" by simp
  from queueGroupMessage_lost [OF q _ k mem r, of demo_env] obtain w2 where
      "queueGroupMessage ?e ''ann'' ''g'' demo_group_send demo_world = (Inl (OtherError ''down''), w2)"
      "queueGroupMessage demo_env ''ann'' ''g'' demo_group_send w2 = (Inr \<lparr>q_messageId = m_id m, q_queued = False\<rparr>, w2)"
      "w_jobs w2 = w_jobs demo_world" by (auto simp: demo_chat_inv)
  then show ?thesis by (intro exI [of _ "m_id m"] exI [of _ w2]) (simp add: demo_world_def)
qed

section \<open>History and members\<close>

text \<open>The history of a group is served without holes, to its members only, with the same window
  rule as a direct thread.\<close>

lemma getGroupMessages_page:
  assumes "chat_inv (w_db w)" and "getGroupMessages g u opts w = (Inr vs, w')"
  shows "w' = w \<and> find_member (w_db w) g u \<noteq> None
    \<and> map (\<lambda>v. m_threadSequence (hv_message v)) vs =
        [max (window_lo opts) (window_hi opts (int (length (group_seqs (w_db w) g))) - int (page_size opts) + 1)..
           window_hi opts (int (length (group_seqs (w_db w) g)))]
    \<and> (\<forall>v\<in>set vs. m_groupId (hv_message v) = Some g)"
proof -
  have vs: "vs = history_views (w_db w) (history_page (group_rows (w_db w) g) opts)" "w' = w" "find_member (w_db w) g u \<noteq> None"
    using assms(2) by (auto simp: getGroupMessages_def ok_simps group_rows_def)
  have "map (\<lambda>v. m_threadSequence (hv_message v)) vs = map m_threadSequence (map hv_message vs)" by simp
  also have "\<dots> = map m_threadSequence (history_page (group_rows (w_db w) g) opts)"
    by (simp only: vs(1) history_views_messages)
  also have "\<dots> = [max (window_lo opts) (window_hi opts (int (length (group_rows (w_db w) g))) - int (page_size opts) + 1)..
      window_hi opts (int (length (group_rows (w_db w) g)))]"
    by (rule group.page_numbers) (simp_all add: assms(1))
  finally have nums: "map (\<lambda>v. m_threadSequence (hv_message v)) vs = \<dots>" .
  have "\<forall>v\<in>set vs. m_groupId (hv_message v) = Some g"
  proof
    fix v assume "v \<in> set vs"
    then have "hv_message v \<in> set (group_rows (w_db w) g)"
      using group.page_members history_views_in vs(1) by blast
    then show "m_groupId (hv_message v) = Some g" by (simp add: group_rows_def)
  qed
  with nums vs show ?thesis by (simp add: group_rows_def group_seqs_def)
qed

subsection \<open>Membership and its cache\<close>

text \<open>A user is a member of a group at most once and only of a group that exists; a cached member set is
  the set of the members.\<close>

definition member_inv :: "db \<Rightarrow> bool" where
  "member_inv d \<longleftrightarrow> distinct (map (\<lambda>x. (gm_groupId x, gm_userId x)) (groupMembers d))
     \<and> (\<forall>x\<in>set (groupMembers d). find_group d (gm_groupId x) \<noteq> None)"

definition cache_inv :: "world \<Rightarrow> bool" where
  "cache_inv w \<longleftrightarrow> member_inv (w_db w) \<and>
     (\<forall>g ids. r_groupMembers (w_redis w) g = Some ids \<longrightarrow> set ids = gm_userId ` set (members_of (w_db w) g))"

lemma insert_members_ok:
  "insert_members rows w = (Inr u, w') \<longleftrightarrow>
     distinct (map (\<lambda>x. (gm_groupId x, gm_userId x)) rows)
     \<and> (\<forall>x\<in>set rows. find_member (w_db w) (gm_groupId x) (gm_userId x) = None
          \<and> find_user (w_db w) (gm_userId x) \<noteq> None \<and> find_group (w_db w) (gm_groupId x) \<noteq> None)
     \<and> w' = w\<lparr>w_db := groupMembers_update (\<lambda>xs. xs @ rows) (w_db w)\<rparr>"
  by (auto simp: insert_members_def ok_simps list_all_iff)

lemma insert_members_err: "insert_members rows w = (Inl er, w') \<Longrightarrow> w' = w"
  by (auto simp: insert_members_def err_simps ok_simps)

lemma find_member_None: "find_member d g u = None \<longleftrightarrow> (\<forall>x\<in>set (groupMembers d). \<not> (gm_groupId x = g \<and> gm_userId x = u))"
  by (auto simp: find_member_def find_None_iff)

lemma find_group_None: "find_group d g = None \<longleftrightarrow> (\<forall>x\<in>set (groups d). g_id x \<noteq> g)"
  by (auto simp: find_group_def find_None_iff)

lemma append_members_inv:
  assumes "member_inv d" and "distinct (map (\<lambda>x. (gm_groupId x, gm_userId x)) rows)"
    and "\<forall>x\<in>set rows. find_member d (gm_groupId x) (gm_userId x) = None \<and> find_group d (gm_groupId x) \<noteq> None"
  shows "member_inv (groupMembers_update (\<lambda>xs. xs @ rows) d)"
  using assms unfolding member_inv_def find_member_None find_group_None by auto

lemma catch_redis [simp]:
  "catch_ignore (redis_set e f) w = (Inr (), if redisErr e = None then w\<lparr>w_redis := f (w_redis w)\<rparr> else w)"
  by (simp add: catch_ignore_def redis_set_def act_simps split: option.split)

lemma createGroup_ok:
  assumes "createGroup e u dto w = (Inr (g, ms), w')" and "redisErr e = None"
  shows "find_group (w_db w) (g_id g) = None
    \<and> map gm_userId ms = js_set (u # cg_members dto)
    \<and> (\<forall>x\<in>set ms. gm_groupId x = g_id g \<and> gm_role x = (if gm_userId x = u then G_ADMIN else G_MEMBER)
         \<and> find_user (w_db w) (gm_userId x) \<noteq> None)
    \<and> w_db w' = groupMembers_update (\<lambda>xs. xs @ ms) (groups_update (\<lambda>gs. gs @ [g]) (w_db w))
    \<and> w_redis w' = (w_redis w)\<lparr>r_groupMembers := (r_groupMembers (w_redis w))(g_id g := Some (js_set (u # cg_members dto)))\<rparr>"
  using assms unfolding createGroup_def setGroupMemberIds_def
  by (auto simp: Let_def ok_simps insert_members_ok comp_def find_user_def)

lemma createGroup_cache:
  assumes "redisErr e = None"
  shows "keeps cache_inv (createGroup e u dto)"
proof (rule keepsI)
  fix w assume inv: "cache_inv w"
  obtain r w' where run: "createGroup e u dto w = (r, w')" by fastforce
  have "cache_inv w'"
  proof (cases r)
    case (Inl er)
    have "w_db w' = w_db w \<and> w_redis w' = w_redis w"
      using run assms unfolding Inl createGroup_def setGroupMemberIds_def
      by (auto simp: Let_def act_simps insert_members_def split: if_splits)
    with inv show ?thesis by (simp add: cache_inv_def)
  next
    case (Inr p)
    obtain g ms where p: "p = (g, ms)" by (cases p)
    note ok = createGroup_ok [OF run [unfolded Inr p] assms]
    let ?d = "groups_update (\<lambda>gs. gs @ [g]) (w_db w)"
    have mi: "member_inv (w_db w)" using inv by (simp add: cache_inv_def)
    have none: "\<forall>x\<in>set (groupMembers (w_db w)). gm_groupId x \<noteq> g_id g"
      using mi ok by (auto simp: member_inv_def)
    have "member_inv ?d" using mi by (auto simp: member_inv_def find_group_None)
    moreover have "distinct (map (\<lambda>x. (gm_groupId x, gm_userId x)) ms)"
    proof -
      have "distinct (map gm_userId ms)" using ok by (simp del: js_set.simps)
      then show ?thesis by (auto simp: distinct_map inj_on_def)
    qed
    ultimately have "member_inv (w_db w')"
      using ok none append_members_inv [of ?d ms]
      by (auto simp: find_member_None find_group_None)
    moreover have "set ids = gm_userId ` set (members_of (w_db w') h)"
      if "r_groupMembers (w_redis w') h = Some ids" for h ids
    proof (cases "h = g_id g")
      case True
      have "filter (\<lambda>x. gm_groupId x = g_id g) (groupMembers (w_db w)) = []" using none by (simp add: filter_empty_conv)
      then have "members_of (w_db w') h = ms" using ok True by (simp add: members_of_def filter_id_conv)
      moreover have "ids = map gm_userId ms" using that ok True by simp
      ultimately show ?thesis by simp
    next
      case False
      then have "members_of (w_db w') h = members_of (w_db w) h"
        using ok by (auto simp: members_of_def filter_empty_conv)
      with inv that ok False show ?thesis by (simp add: cache_inv_def)
    qed
    ultimately show ?thesis by (simp add: cache_inv_def)
  qed
  with run show "cache_inv (snd (createGroup e u dto w))" by simp
qed

lemma assertGroupAdmin_run:
  "assertGroupAdmin u g w = (case find_member (w_db w) g u of
      None \<Rightarrow> (Inl (Forbidden ''Not a member of this group''), w)
    | Some m \<Rightarrow> (if gm_role m = G_ADMIN then (Inr (), w)
        else (Inl (Forbidden ''Only group admins can perform this action''), w)))"
  by (simp add: assertGroupAdmin_def act_simps split: option.split)

lemma cache_inv_invalidated:
  assumes "cache_inv w" and "member_inv d" and "\<And>h. h \<noteq> g \<Longrightarrow> members_of d h = members_of (w_db w) h"
    and "w_db w' = d" and "r_groupMembers (w_redis w') = (r_groupMembers (w_redis w))(g := None)"
  shows "cache_inv w'"
  using assms by (auto simp: cache_inv_def split: if_splits)

lemma addMembers_cache:
  assumes "redisErr e = None"
  shows "keeps cache_inv (addMembers e u g ids)"
proof (rule keepsI)
  fix w assume inv: "cache_inv w"
  let ?new = "filter (\<lambda>i. find_member (w_db w) g i = None) ids"
  let ?rows = "map (\<lambda>i. \<lparr>gm_groupId = g, gm_userId = i, gm_role = G_MEMBER, gm_joinedAt = now e\<rparr>) ?new"
  obtain r w' where run: "addMembers e u g ids w = (r, w')" by fastforce
  consider "w' = w" | w1 where "insert_members ?rows w = (Inr (), w1)"
      "w' = w1\<lparr>w_redis := (w_redis w1)\<lparr>r_groupMembers := (r_groupMembers (w_redis w1))(g := None)\<rparr>\<rparr>"
    using run assms unfolding addMembers_def invalidateGroupMemberIds_def
    by (cases "insert_members ?rows w"; cases "fst (insert_members ?rows w)")
      (auto simp: act_simps assertGroupAdmin_run split: option.splits if_splits dest: insert_members_err)
  then have "cache_inv w'"
  proof cases
    case 1
    with inv show ?thesis by simp
  next
    case (2 w1)
    have ok: "distinct (map (\<lambda>x. (gm_groupId x, gm_userId x)) ?rows)"
        "\<forall>x\<in>set ?rows. find_member (w_db w) (gm_groupId x) (gm_userId x) = None \<and> find_group (w_db w) (gm_groupId x) \<noteq> None"
        "w1 = w\<lparr>w_db := groupMembers_update (\<lambda>xs. xs @ ?rows) (w_db w)\<rparr>"
      using 2(1) unfolding insert_members_ok by blast+
    have "member_inv (w_db w1)"
      using append_members_inv [OF _ ok(1,2)] inv by (simp add: ok(3) cache_inv_def)
    with inv show ?thesis
      by (rule cache_inv_invalidated [where g = g]) (auto simp: 2(2) ok(3) members_of_def filter_empty_conv)
  qed
  with run show "cache_inv (snd (addMembers e u g ids w))" by simp
qed

lemma removeMember_ok:
  assumes "removeMember e u g t w = (Inr x, w')"
  shows "(u = t \<or> (\<exists>m. find_member (w_db w) g u = Some m \<and> gm_role m = G_ADMIN))
    \<and> find_member (w_db w) g u \<noteq> None \<and> find_member (w_db w) g t = Some x
    \<and> w_db w' = groupMembers_update (delete_where (\<lambda>x. gm_groupId x = g \<and> gm_userId x = t)) (w_db w)"
  using assms unfolding removeMember_def invalidateGroupMemberIds_def
  by (auto simp: ok_simps)

lemma removeMember_redis:
  "removeMember e u g t w = (Inr x, w') \<Longrightarrow> redisErr e = None \<Longrightarrow>
   r_groupMembers (w_redis w') = (r_groupMembers (w_redis w))(g := None)"
  unfolding removeMember_def invalidateGroupMemberIds_def by (auto simp: ok_simps)

lemma removeMember_failed: "removeMember e u g t w = (Inl er, w') \<Longrightarrow> w' = w"
  unfolding removeMember_def invalidateGroupMemberIds_def by (auto simp: err_simps ok_simps)

lemma removeMember_cache:
  assumes "redisErr e = None"
  shows "keeps cache_inv (removeMember e u g t)"
proof (rule keepsI)
  fix w assume inv: "cache_inv w"
  let ?p = "\<lambda>x. gm_groupId x = g \<and> gm_userId x = t"
  obtain r w' where run: "removeMember e u g t w = (r, w')" by fastforce
  consider "w' = w" | "w_db w' = groupMembers_update (delete_where ?p) (w_db w)"
      "r_groupMembers (w_redis w') = (r_groupMembers (w_redis w))(g := None)"
  proof (cases r)
    case (Inl er)
    with run show ?thesis using that(1) by (simp add: removeMember_failed)
  next
    case (Inr x)
    with run show ?thesis using that(2) removeMember_ok [of e u g t w x w'] removeMember_redis [of e u g t w x w'] assms by simp
  qed
  then have "cache_inv w'"
  proof cases
    case 1
    with inv show ?thesis by simp
  next
    case 2
    have "member_inv (w_db w')"
      using inv distinct_map_delete_where [of "\<lambda>x. (gm_groupId x, gm_userId x)" "groupMembers (w_db w)" ?p]
      by (auto simp: 2(1) cache_inv_def member_inv_def find_group_None)
    with inv show ?thesis
      by (rule cache_inv_invalidated [where g = g, OF _ _ _ refl 2(2)])
        (auto simp: 2(1) members_of_def delete_where_def intro!: filter_cong)
  qed
  with run show "cache_inv (snd (removeMember e u g t w))" by simp
qed



text \<open>Who may remove whom.  A removal succeeds only for a member who leaves or for an administrator of
  the group; afterwards the target is not a member, and every other membership is as before.\<close>

lemma removeMember_authorised:
  assumes "removeMember e u g t w = (Inr x, w')"
  shows "(u = t \<or> (\<exists>m. find_member (w_db w) g u = Some m \<and> gm_role m = G_ADMIN))
    \<and> find_member (w_db w) g t = Some x \<and> find_member (w_db w') g t = None
    \<and> (\<forall>h v. (h, v) \<noteq> (g, t) \<longrightarrow> find_member (w_db w') h v = find_member (w_db w) h v)"
proof -
  note ok = removeMember_ok [OF assms]
  have "List.find (\<lambda>x. gm_groupId x = h \<and> gm_userId x = v) (delete_where (\<lambda>x. gm_groupId x = g \<and> gm_userId x = t) xs)
      = List.find (\<lambda>x. gm_groupId x = h \<and> gm_userId x = v) xs" if "(h, v) \<noteq> (g, t)" for h v and xs :: "group_member_row list"
    using that by (induction xs) (auto simp: delete_where_def)
  then show ?thesis using ok by (auto simp: find_member_def find_None_iff)
qed

end
