(* ===== verification/Messages_Ops.thy ===== *)
theory Messages_Ops
  imports Group_Chat
begin

text \<open>
  Correctness of the other methods of \<open>messages.service.ts\<close>: forwarding, fetching pending envelopes,
  acknowledging, editing and deleting, and of the unread counters they feed.
\<close>

section \<open>Every method keeps the chat invariant\<close>

lemma kdb_cloneMediaForForward [kdb_intros]: "kdb chat_inv (cloneMediaForForward e u mid md)"
  unfolding cloneMediaForForward_def
  by (intro kdb_intros kdb_same_chat) (simp add: same_chat_def)

lemma forward_direct_tx_inv:
  assumes "forward_direct_tx e s dev key rcp envs md ct w = (Inr (m, es), w')" and "chat_inv (w_db w)"
  shows "chat_inv (w_db w')"
proof -
  let ?a = "fst (canonicalDirectPair s rcp)" and ?b = "snd (canonicalDirectPair s rcp)"
  obtain rds t w1 sq w2 w3 where
      chk: "check_direct (w_db w) s dev rcp envs = Inr rds"
    and up: "upsert_thread e ?a ?b w = (Inr t, w1)"
    and inc: "increment_thread e (th_id t) w1 = (Inr sq, w2)"
    and m: "m = new_message e (mkId e (w_supply w2)) (Some (th_id t)) None s dev key (th_latestSequence sq) ct None True"
    and uniq: "message_unique_ok (w_db w2) m"
    and envs: "create_direct_envelopes e (mkId e (w_supply w2)) rds rcp s envs
          (w2\<lparr>w_supply := Suc (w_supply w2), w_db := messages_update (\<lambda>ms. ms @ [m]) (w_db w2)\<rparr>) = (Inr es, w3)"
    and cl: "whenA (md \<noteq> []) (cloneMediaForForward e s (mkId e (w_supply w2)) md) w3 = (Inr (), w')"
    using assms(1) unfolding forward_direct_tx_def by (auto simp: ok_simps Let_def simp del: whenA_ok)
  have ab: "?a < ?b" by (rule canonicalDirectPair_less [OF check_direct_distinct_users [OF chk]])
  note t = upsert_thread_inv [OF up assms(2) ab]
  have ti: "thread_inv (w_db w1)" using t(1) by (simp add: chat_inv_def)
  note inc' = increment_thread_ok [OF inc ti t(2)]
  let ?d2 = "messages_update (\<lambda>ms. ms @ [m]) (directThreads_update (bump_thread e (th_id t)) (w_db w1))"
  have "message_unique_ok (w_db w1) m" using uniq by (simp add: inc'(2) message_unique_ok_def)
  then have inv2: "chat_inv ?d2"
    by (intro append_direct_inv [OF t(1,2)]) (simp_all add: m inc'(1))
  note es = create_direct_envelopes_ok [OF envs]
  have d2: "w_db w2 = directThreads_update (bump_thread e (th_id t)) (w_db w1)" by (simp add: inc'(2))
  have new: "\<forall>x\<in>set es. find_envelope ?d2 (m_id m) (e_recipientDeviceId x) = None"
  proof
    fix x assume "x \<in> set es"
    then have "e_recipientDeviceId x \<in> set (map ed_recipientDeviceId envs)" by (metis es image_eqI set_map)
    then show "find_envelope ?d2 (m_id m) (e_recipientDeviceId x) = None"
      using es by (auto simp: m d2 find_envelope_def)
  qed
  have "chat_inv (messageEnvelopes_update (\<lambda>xs. xs @ es) ?d2)"
    by (rule append_envelopes_inv [OF inv2, of "m_id m"]) (use es new in \<open>auto simp: m\<close>)
  moreover have "w_db w3 = messageEnvelopes_update (\<lambda>xs. xs @ es) ?d2" using es by (simp add: d2)
  ultimately have "chat_inv (w_db w3)" by simp
  then show ?thesis by (rule kdb_result [OF kdb_whenA [OF kdb_cloneMediaForForward] _ cl])
qed

lemma kdb_forwardToDirect [kdb_intros]: "kdb chat_inv (forwardToDirect e s dev key tgt md ct)"
  unfolding forwardToDirect_def by (intro kdb_intros kdb_tx) (auto dest: forward_direct_tx_inv)

lemma forward_group_tx_inv:
  assumes "forward_group_tx e s dev key g md ct w = (Inr m, w')" and "chat_inv (w_db w)"
  shows "chat_inv (w_db w')"
proof (cases "find_message_by_key (w_db w) dev key")
  case (Some x)
  with assms show ?thesis by (simp add: forward_group_tx_def act_simps)
next
  case None
  let ?d = "messages_update (\<lambda>ms. ms @ [m]) (w_db w)"
  let ?w1 = "w\<lparr>w_supply := Suc (w_supply w), w_db := ?d\<rparr>"
  have m: "m = new_message e (mkId e (w_supply w)) None (Some g) s dev key (next_group_sequence (w_db w) g) ct None True"
    and uniq: "message_unique_ok (w_db w) m"
    and cl: "whenA (md \<noteq> []) (cloneMediaForForward e s (mkId e (w_supply w)) md) ?w1 = (Inr (), w')"
    using assms(1) None unfolding forward_group_tx_def by (auto simp: ok_simps Let_def simp del: whenA_ok)
  have "chat_inv ?d"
    by (rule append_group_inv [where g = g]) (use assms(2) uniq in \<open>simp_all add: m\<close>)
  then have "chat_inv (w_db ?w1)" by simp
  then show ?thesis by (rule kdb_result [OF kdb_whenA [OF kdb_cloneMediaForForward] _ cl])
qed

lemma kdb_forwardToGroup [kdb_intros]: "kdb chat_inv (forwardToGroup e s dev key tgt md ct)"
  unfolding forwardToGroup_def by (intro kdb_intros kdb_tx) (auto dest: forward_group_tx_inv)

lemma kdb_forward_one [kdb_intros]: "kdb chat_inv (forward_one e u dto md ct it)"
proof -
  obtain i target where it: "it = (i, target)" by (cases it)
  show ?thesis
    unfolding forward_one_def Let_def it by (cases "ft_type target") (auto intro!: kdb_intros)
qed

lemma kdb_reads [kdb_intros]:
  "kdb P (assertActiveDevice u dv)" "kdb P (assertMessageAccess u mid)"
  unfolding assertActiveDevice_def assertMessageAccess_def by (intro kdb_intros)+

lemma kdb_forward [kdb_intros]: "kdb chat_inv (forward e u dto)"
  unfolding forward_def by (intro kdb_intros)

lemma kdb_cleanup [kdb_intros]: "kdb P (cleanupMessageMedia e mid)"
  unfolding cleanupMessageMedia_def by (intro kdb_intros)

lemma kdb_ack [kdb_intros]: "kdb chat_inv (ack e u mid dv st)"
  unfolding ack_def ack_all_def ack_one_def
  by (intro kdb_intros kdb_same_chat same_chat_update_envelopes) (auto simp: env_core_def split: AckStatus.split)

lemma kdb_markAllReadMessages [kdb_intros]: "kdb chat_inv (markAllReadMessages e u dv t ty)"
  unfolding markAllReadMessages_def by (intro kdb_intros)

lemma kdb_edit [kdb_intros]: "kdb chat_inv (edit e u mid dto)"
  unfolding edit_def refresh_envelope_def
  by (intro kdb_intros kdb_same_chat same_chat_update_envelopes) (auto simp: env_core_def)

lemma kdb_audit_write [kdb_intros]: "kdb chat_inv (audit_write e a ac ty i r md)"
  unfolding audit_write_def by (intro kdb_intros kdb_same_chat) (simp add: same_chat_def)

lemma same_chat_tombstone: "same_chat d (messages_update (tombstone t mid) d)"
  unfolding tombstone_def by (rule same_chat_update_messages) (simp add: msg_core_def)

lemma kdb_delete_committed [kdb_intros]: "kdb P (delete_committed e u mid who m)"
  unfolding delete_committed_def by (intro kdb_intros)

lemma kdb_delete [kdb_intros]: "kdb chat_inv (delete e u mid dv sc)"
  unfolding delete_def delete_tx_def upsert_hidden_def
  by (cases sc) (auto intro!: kdb_intros kdb_tx_body kdb_same_chat same_chat_tombstone simp: same_chat_def)

section \<open>Forwarding\<close>

text \<open>An answer for a target: of its kind, and either a message id or an error.\<close>

definition result_for :: "forward_target \<Rightarrow> forward_result \<Rightarrow> bool" where
  "result_for target res \<longleftrightarrow> fr_targetType res = ft_type target
     \<and> (if fr_success res then fr_messageId res \<noteq> None \<and> fr_error res = None
        else fr_messageId res = None \<and> fr_error res \<noteq> None)"

lemma forward_one_result:
  assumes "forward_one e u dto md ct it w = (r, w')"
  obtains res where "r = Inr res" "result_for (snd it) res"
proof -
  obtain i target where it: "it = (i, target)" by (cases it)
  have "\<exists>res. r = Inr res \<and> result_for target res"
    using assms unfolding forward_one_def Let_def it
    by (cases "ft_type target")
      (auto simp: catching_run ret_run bnd_run thn_run result_for_def split: prod.splits sum.splits)
  with it that show thesis by auto
qed

lemma map_act_forward:
  assumes "map_act (forward_one e u dto md ct) its w = (r, w')"
  shows "\<exists>rs. r = Inr rs \<and> list_all2 (\<lambda>it. result_for (snd it)) its rs"
  using assms
proof (induction its arbitrary: w r w')
  case Nil
  then show ?case by (simp add: act_simps)
next
  case (Cons it its)
  obtain r1 w1 where 1: "forward_one e u dto md ct it w = (r1, w1)" by fastforce
  obtain r2 w2 where 2: "map_act (forward_one e u dto md ct) its w1 = (r2, w2)" by fastforce
  from 1 obtain res where res: "r1 = Inr res" "result_for (snd it) res" by (rule forward_one_result)
  from Cons.IH [OF 2] obtain rs where rs: "r2 = Inr rs" "list_all2 (\<lambda>it. result_for (snd it)) its rs" by blast
  show ?case using Cons.prems 1 2 res rs by (auto simp: bnd_run ret_run)
qed


definition demo_forward :: forward_dto where
  "demo_forward = \<lparr>f_sourceMessageId = ''i1'', f_senderDeviceId = ''b1'', f_idempotencyKey = ''f'',
     f_targets = [\<lparr>ft_type = Grp, ft_recipientUserId = None, ft_groupId = Some ''g'', ft_envelopes = None, ft_ciphertext = Some (JStr ''z'')\<rparr>,
                  \<lparr>ft_type = Direct, ft_recipientUserId = None, ft_groupId = None, ft_envelopes = None, ft_ciphertext = None\<rparr>]\<rparr>"


section \<open>Fetching what is pending\<close>

text \<open>The contract of a cursor query: rows in strictly ascending cursor order, and the rows after a cursor are the
  rest of the same list.  A client that follows the cursors then sees every row once.\<close>

fun follow :: "(int option \<Rightarrow> 'r list) \<Rightarrow> ('r \<Rightarrow> int) \<Rightarrow> nat \<Rightarrow> nat \<Rightarrow> int option \<Rightarrow> 'r list" where
  "follow rows cur limit 0 after = []"
| "follow rows cur limit (Suc fuel) after =
     (let page = take limit (rows after) in
      page @ (if page \<noteq> [] \<and> length page = limit then follow rows cur limit fuel (Some (cur (last page))) else []))"

locale cursor_query =
  fixes inv :: "'d \<Rightarrow> bool" and rows :: "'d \<Rightarrow> 'k \<Rightarrow> int option \<Rightarrow> 'r list" and cur :: "'r \<Rightarrow> int"
  assumes ascending: "inv d \<Longrightarrow> sorted_wrt (<) (map cur (rows d k after))"
    and resume: "inv d \<Longrightarrow> rows d k (Some c) = filter (\<lambda>r. c < cur r) (rows d k None)"
begin

lemma resume_after:
  assumes inv: "inv d" and split: "rows d k a = xs @ ys" and ne: "xs \<noteq> []"
    and c: "a = None \<or> (\<exists>c. a = Some c \<and> c < cur (last xs))"
  shows "rows d k (Some (cur (last xs))) = ys"
proof -
  have xs: "xs = butlast xs @ [last xs]" using ne by simp
  have "sorted_wrt (<) (map cur ((butlast xs @ [last xs]) @ ys))"
    using ascending [OF inv, of k a] split xs by metis
  then have le: "\<forall>x\<in>set (butlast xs). cur x < cur (last xs)" and gt: "\<forall>y\<in>set ys. cur (last xs) < cur y"
    by (auto simp: sorted_wrt_append)
  have "filter (\<lambda>r. cur (last xs) < cur r) (butlast xs @ [last xs]) = []"
    using le by (auto simp: filter_empty_conv)
  then have flt: "filter (\<lambda>r. cur (last xs) < cur r) (rows d k a) = ys"
    using gt xs split by (metis append_Nil filter_True filter_append)
  show ?thesis
  proof (cases a)
    case None
    then show ?thesis using resume [OF inv] flt by simp
  next
    case (Some b)
    then have "b < cur (last xs)" using c by auto
    then have "filter (\<lambda>r. cur (last xs) < cur r) (rows d k None) = filter (\<lambda>r. cur (last xs) < cur r) (rows d k (Some b))"
      by (auto simp: resume [OF inv, of k b] intro!: filter_cong)
    then show ?thesis using resume [OF inv, of k "cur (last xs)"] flt Some by simp
  qed
qed

lemma follow_all:
  assumes inv: "inv d" and "0 < limit" and "length (rows d k after) < fuel"
  shows "follow (rows d k) cur limit fuel after = rows d k after"
  using assms(2,3)
proof (induction fuel arbitrary: after)
  case (Suc fuel)
  let ?page = "take limit (rows d k after)"
  show ?case
  proof (cases "?page \<noteq> [] \<and> length ?page = limit")
    case True
    then have ne: "rows d k after \<noteq> []" "?page \<noteq> []" by auto
    have cond: "after = None \<or> (\<exists>c. after = Some c \<and> c < cur (last ?page))"
    proof (cases after)
      case (Some c)
      have "last ?page \<in> set (rows d k after)" using ne(2) by (meson in_set_takeD last_in_set)
      then show ?thesis using Some by (auto simp: resume [OF inv])
    qed simp
    have "rows d k after = ?page @ drop limit (rows d k after)" by simp
    from resume_after [OF inv this ne(2) cond]
    have rest: "rows d k (Some (cur (last ?page))) = drop limit (rows d k after)" .
    have "length (drop limit (rows d k after)) < length (rows d k after)" using Suc.prems(1) ne(1) by simp
    then have "length (rows d k (Some (cur (last ?page)))) < fuel" using Suc.prems(2) by (simp add: rest)
    from Suc.IH [OF Suc.prems(1) this] True rest show ?thesis by (simp add: Let_def)
  next
    case False
    then have "length (rows d k after) \<le> limit" using Suc.prems(1) by (auto simp: min_def split: if_splits)
    with False show ?thesis by (auto simp: Let_def)
  qed
qed simp

end

definition seq_inv :: "db \<Rightarrow> bool" where
  "seq_inv d \<longleftrightarrow> distinct (map e_envelopeSequence (messageEnvelopes d))"

lemma order_asc_filter_comm: "order_asc key (filter p xs) = filter p (order_asc key xs)"
  by (simp add: order_asc_def filter_sort)

interpretation pending: cursor_query seq_inv pending_rows e_envelopeSequence
proof
  fix d k after assume inv: "seq_inv d"
  let ?rows = "filter (\<lambda>x. e_recipientDeviceId x = k \<and> (e_status x = PENDING \<or> e_status x = DELIVERED)
     \<and> (case after of None \<Rightarrow> True | Some a \<Rightarrow> a < e_envelopeSequence x)) (messageEnvelopes d)"
  have "distinct (map e_envelopeSequence ?rows)" using inv by (simp add: seq_inv_def distinct_map_filter)
  then have "distinct (map e_envelopeSequence (pending_rows d k after))"
    by (simp add: pending_rows_def order_asc_def distinct_map)
  then show "sorted_wrt (<) (map e_envelopeSequence (pending_rows d k after))"
    by (simp add: pending_rows_def order_asc_sorted strict_sorted_iff)
next
  fix d k c
  show "pending_rows d k (Some c) = filter (\<lambda>r. c < e_envelopeSequence r) (pending_rows d k None)"
    unfolding pending_rows_def order_asc_filter_comm [symmetric] filter_filter
    by (rule arg_cong [of _ _ "order_asc e_envelopeSequence"], rule filter_cong) auto
qed

text \<open>The client: fetch a page, continue after its last envelope while \<open>hasMore\<close>.\<close>

fun drain :: "uuid \<Rightarrow> uuid \<Rightarrow> nat \<Rightarrow> nat \<Rightarrow> int option \<Rightarrow> world \<Rightarrow> envelope_row list" where
  "drain userId deviceId limit 0 after w = []"
| "drain userId deviceId limit (Suc fuel) after w = (case fst (getPending userId deviceId after limit w) of
     Inl _ \<Rightarrow> []
   | Inr (page, hasMore) \<Rightarrow> page @ (if page \<noteq> [] \<and> hasMore
       then drain userId deviceId limit fuel (Some (e_envelopeSequence (last page))) w else []))"

lemma getPending_run:
  "getPending u dv after limit w = (if active_device (w_db w) u dv
     then (Inr (take limit (pending_rows (w_db w) dv after), length (take limit (pending_rows (w_db w) dv after)) = limit), w)
     else (Inl (Forbidden ''Device is not active for this user''), w))"
  by (simp add: getPending_def assertActiveDevice_def act_simps)

lemma drain_follow:
  "active_device (w_db w) u dv \<Longrightarrow>
   drain u dv limit fuel after w = follow (pending_rows (w_db w) dv) e_envelopeSequence limit fuel after"
  by (induction fuel arbitrary: after) (simp_all add: getPending_run Let_def)

text \<open>C17: Nothing pending is lost.  A device that fetches pages of any positive size and continues after the last
  envelope of each page receives exactly its unread envelopes, each once, in the order of their sequence
  numbers; fetching more pages than there are envelopes is never needed.\<close>

theorem getPending_complete:
  assumes "seq_inv (w_db w)" and "active_device (w_db w) userId deviceId" and "0 < limit"
    and "length (messageEnvelopes (w_db w)) < fuel"
  shows "drain userId deviceId limit fuel None w = pending_rows (w_db w) deviceId None
    \<and> sorted_wrt (<) (map e_envelopeSequence (pending_rows (w_db w) deviceId None))
    \<and> set (pending_rows (w_db w) deviceId None) =
        {x \<in> set (messageEnvelopes (w_db w)). e_recipientDeviceId x = deviceId \<and> e_status x \<noteq> READ}"
proof -
  have "length (pending_rows (w_db w) deviceId None) < fuel"
    using assms(4) by (simp add: pending_rows_def le_less_trans [OF length_filter_le])
  moreover have "set (pending_rows (w_db w) deviceId None) =
        {x \<in> set (messageEnvelopes (w_db w)). e_recipientDeviceId x = deviceId \<and> e_status x \<noteq> READ}"
    by (auto simp: pending_rows_def) (metis EnvelopeStatus.exhaust)
  ultimately show ?thesis
    using pending.follow_all [OF assms(1,3)] pending.ascending [OF assms(1)] drain_follow [OF assms(2)] by simp
qed

theorem getPending_complete_witness:
  "drain ''bob'' ''b1'' 1 9 None (snd (send demo_env ''ann'' demo_send demo_world))
     = pending_rows (w_db (snd (send demo_env ''ann'' demo_send demo_world))) ''b1'' None"
proof -
  let ?w = "snd (send demo_env ''ann'' demo_send demo_world)"
  have 1: "seq_inv (w_db ?w)" unfolding seq_inv_def by code_simp
  have 2: "active_device (w_db ?w) ''bob'' ''b1''" by code_simp
  have "length (messageEnvelopes (w_db ?w)) < 9" by code_simp
  from getPending_complete [OF 1 2 _ this, of 1] show ?thesis by simp
qed

section \<open>Reading and unread counters\<close>

lemma unread_count_frame:
  "messages d' = messages d \<Longrightarrow> messageEnvelopes d' = messageEnvelopes d \<Longrightarrow> unread_count d' u ty t = unread_count d u ty t"
  by (simp add: unread_count_def find_message_frame [of d' d] in_conversation_frame [of d' d])

lemma unread_count_0:
  "unread_count d u ty t = 0 \<longleftrightarrow> (\<forall>x\<in>set (messageEnvelopes d). \<not> (e_recipientUserId x = u
     \<and> (case find_message d (e_messageId x) of None \<Rightarrow> False | Some m \<Rightarrow> m_senderUserId m \<noteq> u)
     \<and> in_conversation d ty t (e_messageId x) \<and> e_status x \<noteq> READ))"
  by (simp add: unread_count_def filter_empty_conv)

lemma processUnreadRecalc_counter:
  "lookup_counter (w_db (snd (processUnreadRecalc j w))) u ty t =
     (if (u, ty, t) = (uj_userId j, uj_threadType j, uj_threadId j) then Some (int (unread_count (w_db w) u ty t))
      else lookup_counter (w_db w) u ty t)"
  by (auto simp: processUnreadRecalc_def act_simps lookup_upsert_counter)

text \<open>Marking a conversation as read makes its counter zero, now and after every later recalculation as long as no
  new envelope arrives: no envelope of the user in the conversation is left unread, other users' envelopes
  and other conversations keep their status, and other counters keep their value.\<close>

lemma markAllRead_zero:
  assumes "markAllReadMessages e u dv t ty w = (Inr x, w1)"
    and "messages (w_db w2) = messages (w_db w1)" and "messageEnvelopes (w_db w2) = messageEnvelopes (w_db w1)"
    and "uj_userId j = u" and "uj_threadId j = t" and "uj_threadType j = ty"
  shows "lookup_counter (w_db w1) u ty t = Some 0
    \<and> lookup_counter (w_db (snd (processUnreadRecalc j w2))) u ty t = Some 0
    \<and> (\<forall>y\<in>set (messageEnvelopes (w_db w)). e_recipientUserId y \<noteq> u \<or> \<not> in_conversation (w_db w) ty t (e_messageId y)
         \<longrightarrow> y \<in> set (messageEnvelopes (w_db w1)))
    \<and> (\<forall>u' ty' t'. (u', ty', t') \<noteq> (u, ty, t) \<longrightarrow> lookup_counter (w_db w1) u' ty' t' = lookup_counter (w_db w) u' ty' t')"
proof -
  let ?p = "\<lambda>y. e_recipientUserId y = u \<and> in_conversation (w_db w) ty t (e_messageId y) \<and> e_status y \<noteq> READ"
  let ?f = "\<lambda>y. y\<lparr>e_status := READ, e_readAt := Some (now e), e_updatedAt := now e\<rparr>"
  have db: "w_db w1 = upsert_counter u ty t 0 (messageEnvelopes_update (update_where ?p ?f) (w_db w))"
    using assms(1) by (auto simp: markAllReadMessages_def assertActiveDevice_def markAllRead_def ok_simps)
  have envs: "messageEnvelopes (w_db w1) = update_where ?p ?f (messageEnvelopes (w_db w))"
    and msgs: "messages (w_db w1) = messages (w_db w)" by (simp_all add: db)
  have "unread_count (w_db w1) u ty t = 0"
    unfolding unread_count_0 envs in_conversation_frame [OF msgs]
    by (auto elim!: in_update_whereE split: if_splits)
  then have "lookup_counter (w_db (snd (processUnreadRecalc j w2))) u ty t = Some 0"
    using unread_count_frame [OF assms(2,3)] assms(4-6) by (simp add: processUnreadRecalc_counter)
  moreover have "y \<in> set (update_where ?p ?f (messageEnvelopes (w_db w)))"
    if "y \<in> set (messageEnvelopes (w_db w))" "e_recipientUserId y \<noteq> u \<or> \<not> in_conversation (w_db w) ty t (e_messageId y)" for y
    using that by (auto simp: set_update_where image_iff intro!: bexI [of _ y])
  moreover have "lookup_counter (messageEnvelopes_update f d) a b c = lookup_counter d a b c" for f d a b c
    by (simp add: lookup_counter_def)
  then have "lookup_counter (w_db w1) a b c = (if (a, b, c) = (u, ty, t) then Some 0 else lookup_counter (w_db w) a b c)" for a b c
    by (simp only: db lookup_upsert_counter)
  ultimately show ?thesis by (auto simp: envs)
qed

text \<open>Acknowledging a message as read counts for all devices of the user.  After it, every envelope of the message
  for that user is read, so the message no longer counts in the user's unread counter, whichever device asks.\<close>

lemma ack_read_all_devices:
  assumes "ack e u mid dv AckRead w = (Inr x, w')"
  shows "e_status x = READ \<and> (\<forall>y\<in>set (messageEnvelopes (w_db w')). e_messageId y = mid \<and> e_recipientUserId y = u \<longrightarrow> e_status y = READ)
    \<and> length (messageEnvelopes (w_db w')) = length (messageEnvelopes (w_db w))
    \<and> messages (w_db w') = messages (w_db w)"
proof -
  obtain en where en: "find_envelope (w_db w) mid dv = Some en" "e_recipientUserId en = u"
    and db: "w_db w' = messageEnvelopes_update (\<lambda>es. ack_one e mid dv AckRead (e_deliveredAt en) (ack_all e mid u (e_deliveredAt en) es)) (w_db w)"
    and x: "find_envelope (w_db w') mid dv = Some x"
    using assms unfolding ack_def assertActiveDevice_def catch_emit_def enqueueRecalc_def
    by (auto simp: ok_simps queue_add_err comp_def split: option.splits)
  have all: "\<forall>y\<in>set (messageEnvelopes (w_db w')). e_messageId y = mid \<and> e_recipientUserId y = u \<longrightarrow> e_status y = READ"
    unfolding db ack_one_def ack_all_def by (auto elim!: in_update_whereE split: if_splits)
  have "e_status x = READ"
    using find_envelopeD [OF x] unfolding db ack_one_def by (auto elim!: in_update_whereE split: if_splits)
  with all show ?thesis by (simp add: db ack_one_def ack_all_def)
qed

section \<open>Editing and deleting\<close>

text \<open>A first edit is dropped.  A message that was never edited has no \<open>lastEditIdempotencyKey\<close>, and the update that
  claims the edit compares that column with \<open>not\<close>, which a null never satisfies: the request of the sender
  passes every check, answers with the old message, and changes nothing.\<close>

theorem first_edit_dropped:
  assumes "active_device (w_db w) u (ed_senderDeviceId dto)" and "find_message (w_db w) mid = Some m"
    and "can_access (w_db w) u m" and "m_senderUserId m = u" and "m_deletedAt m = None" and "within_limit e m"
    and "key_inv (w_db w)" and "m_lastEditIdempotencyKey m = None"
  shows "edit e u mid dto w = (Inr (serializeMessage m (envelopes_of (w_db w) mid) []), w)"
proof -
  note m = find_messageD [OF assms(2)]
  have none: "\<forall>x\<in>set (messages (w_db w)). \<not> edit_selects mid (ed_idempotencyKey dto) x"
  proof
    fix x assume "x \<in> set (messages (w_db w))"
    then have "m_id x = mid \<Longrightarrow> x = m"
      using m assms(7) unique_row [of m_id "messages (w_db w)" x m] by (simp add: key_inv_def)
    then show "\<not> edit_selects mid (ed_idempotencyKey dto) x" using assms(8) by (auto simp: edit_selects_def)
  qed
  then have "mark_edited e mid (ed_idempotencyKey dto) w = (Inr 0, w)"
    by (simp add: mark_edited_def act_simps update_where_id)
  moreover have "assertActiveDevice u (ed_senderDeviceId dto) w = (Inr (), w)"
    using assms(1) by (simp add: assertActiveDevice_def act_simps)
  moreover have "assertMessageAccess u mid w = (Inr m, w)"
    using assms(2,3) by (simp add: assertMessageAccess_def act_simps)
  ultimately show ?thesis
    using assms(2,4-6) by (simp add: edit_def thn_run bnd_run ensure_run dbget_run require_run)
qed

theorem first_edit_dropped_witness:
  "\<exists>m. edit demo_env ''ann'' ''i1'' \<lparr>ed_senderDeviceId = ''a1'', ed_idempotencyKey = ''edit'', ed_envelopes = [\<lparr>ed_recipientDeviceId = ''b1'', ed_ciphertext = JStr ''new''\<rparr>]\<rparr>
        (snd (send demo_env ''ann'' demo_send demo_world))
      = (Inr m, snd (send demo_env ''ann'' demo_send demo_world))"
proof -
  let ?w = "snd (send demo_env ''ann'' demo_send demo_world)"
  let ?dto = "\<lparr>ed_senderDeviceId = ''a1'', ed_idempotencyKey = ''edit'', ed_envelopes = [\<lparr>ed_recipientDeviceId = ''b1'', ed_ciphertext = JStr ''new''\<rparr>]\<rparr>"
  have "chat_inv (w_db ?w)" by (rule kdbD [OF kdb_send]) (simp add: demo_chat_inv)
  then have ki: "key_inv (w_db ?w)" by (simp add: chat_inv_def)
  have dv: "active_device (w_db ?w) ''ann'' (ed_senderDeviceId ?dto)" by code_simp
  have "(case find_message (w_db ?w) ''i1'' of None \<Rightarrow> False | Some m \<Rightarrow> can_access (w_db ?w) ''ann'' m \<and> m_senderUserId m = ''ann''
      \<and> m_deletedAt m = None \<and> within_limit demo_env m \<and> m_lastEditIdempotencyKey m = None)" by code_simp
  then obtain m where m: "find_message (w_db ?w) ''i1'' = Some m" "can_access (w_db ?w) ''ann'' m" "m_senderUserId m = ''ann''"
      "m_deletedAt m = None" "within_limit demo_env m" "m_lastEditIdempotencyKey m = None" by (auto split: option.splits)
  from first_edit_dropped [OF dv m(1-5) ki m(6)] show ?thesis by blast
qed

lemma delete_authorityD:
  "delete_authority d u m = Inr who \<Longrightarrow> who = SENDER \<and> m_senderUserId m = u
     \<or> who = GROUP_ADMIN \<and> (\<exists>g x. m_groupId m = Some g \<and> find_member d g u = Some x \<and> gm_role x = G_ADMIN)"
  by (auto simp: delete_authority_def split: if_splits option.splits)

lemma delete_tx_ok:
  assumes "delete_tx e u mid who w = (Inr tm, w')"
  shows "messages (w_db w') = tombstone (now e) mid (messages (w_db w))
    \<and> length (adminAuditLog (w_db w')) = length (adminAuditLog (w_db w)) + (if who = GROUP_ADMIN then 1 else 0)"
  using assms unfolding delete_tx_def audit_write_def by (auto simp: ok_simps Let_def split: if_splits)

lemma delete_committed_result: "delete_committed e u mid who m w = (Inr r, w') \<Longrightarrow> r = Some who"
  unfolding delete_committed_def by (auto simp: bnd_ok thn_ok ret_ok Let_def split: prod.splits)

text \<open>C18: Deleting for everyone.  It succeeds only for the sender or, in a group, for an administrator of the group,
  within the time limit; it sets \<open>deletedAt\<close> of that message and of no other, writes one audit row exactly
  when an administrator deleted, and keeps every row of the message tables.\<close>

theorem delete_for_everyone:
  assumes "delete e u mid dv FOR_EVERYONE w = (Inr r, w')" and "key_inv (w_db w)"
  shows "\<exists>m who. r = Some who \<and> find_message (w_db w) mid = Some m \<and> within_limit e m \<and> can_access (w_db w) u m
    \<and> (who = SENDER \<and> m_senderUserId m = u
       \<or> who = GROUP_ADMIN \<and> (\<exists>g x. m_groupId m = Some g \<and> find_member (w_db w) g u = Some x \<and> gm_role x = G_ADMIN))
    \<and> messages (w_db w') = map (\<lambda>x. if x = m then m\<lparr>m_deletedAt := Some (now e)\<rparr> else x) (messages (w_db w))
    \<and> length (adminAuditLog (w_db w')) = length (adminAuditLog (w_db w)) + (if who = GROUP_ADMIN then 1 else 0)"
proof -
  obtain m who w1 tm where m: "find_message (w_db w) mid = Some m" "can_access (w_db w) u m"
    and auth: "delete_authority (w_db w) u m = Inr who" and lim: "within_limit e m"
    and t: "delete_tx e u mid who w = (Inr tm, w1)" and c: "delete_committed e u mid who tm w1 = (Inr r, w')"
    using assms(1) unfolding delete_def assertActiveDevice_def assertMessageAccess_def
    by (auto simp: ok_simps)
  have db: "w_db w' = w_db w1"
    using kdb_result [OF kdb_delete_committed _ c, of "\<lambda>d. d = w_db w1"] by simp
  have "tombstone (now e) mid (messages (w_db w))
      = map (\<lambda>x. if x = m then m\<lparr>m_deletedAt := Some (now e)\<rparr> else x) (messages (w_db w))"
  proof -
    have "m_id x = mid \<longleftrightarrow> x = m" if "x \<in> set (messages (w_db w))" for x
      using find_messageD [OF m(1)] that assms(2) unique_row [of m_id "messages (w_db w)" x m] by (auto simp: key_inv_def)
    then show ?thesis by (auto simp: tombstone_def update_where_def)
  qed
  with delete_tx_ok [OF t] db have "messages (w_db w') = map (\<lambda>x. if x = m then m\<lparr>m_deletedAt := Some (now e)\<rparr> else x) (messages (w_db w))"
      "length (adminAuditLog (w_db w')) = length (adminAuditLog (w_db w)) + (if who = GROUP_ADMIN then 1 else 0)" by simp_all
  with m lim delete_authorityD [OF auth] delete_committed_result [OF c] show ?thesis by blast
qed

theorem delete_for_everyone_witness:
  "\<exists>w'. delete demo_env ''ann'' ''i1'' ''a1'' FOR_EVERYONE (snd (send demo_env ''ann'' demo_send demo_world)) = (Inr (Some SENDER), w')
     \<and> length (messages (w_db w')) = 1"
proof -
  let ?w = "snd (send demo_env ''ann'' demo_send demo_world)"
  have "chat_inv (w_db ?w)" by (rule kdbD [OF kdb_send]) (simp add: demo_chat_inv)
  then have ki: "key_inv (w_db ?w)" by (simp add: chat_inv_def)
  have ok: "fst (delete demo_env ''ann'' ''i1'' ''a1'' FOR_EVERYONE ?w) = Inr (Some SENDER)" by code_simp
  then obtain w' where r: "delete demo_env ''ann'' ''i1'' ''a1'' FOR_EVERYONE ?w = (Inr (Some SENDER), w')"
    by (metis prod.collapse)
  have "length (messages (w_db ?w)) = 1" by code_simp
  with delete_for_everyone [OF r ki] r show ?thesis by auto
qed

end
