(* ===== verification/Auth.thy ===== *)
theory Auth
  imports Demo
begin

text \<open>
  Login and sessions: \<open>src/auth/otp.service.ts\<close> (one-time codes), \<open>src/auth/auth.service.ts\<close> (refresh
  token rotation with reuse detection, logout, account creation), the bearer-token guard
  \<open>src/common/guards/jwt-auth.guard.ts\<close> and the socket tickets of \<open>src/realtime/realtime.service.ts\<close>.
  The random draws of a call come from the identifier supply; the digits of a code from the argument
  \<open>rnd\<close>; the verifier of access tokens is an argument of the guard.
\<close>

section \<open>\<open>OtpService\<close>\<close>

datatype otp_answer = OtpAlreadySent time | OtpSent int

definition phone_hash :: "env \<Rightarrow> string \<Rightarrow> string" where
  "phone_hash e phone = hmacSha256 e phone (PHONE_HASH_PEPPER (cfg e))"

definition otp_ttl :: "env \<Rightarrow> int" where
  "otp_ttl e = coalesce (OTP_TTL_SECONDS (cfg e)) 300"

definition otp_max :: "env \<Rightarrow> int" where
  "otp_max e = coalesce (OTP_MAX_ATTEMPTS (cfg e)) 5"

definition otp_lockout :: "env \<Rightarrow> int" where
  "otp_lockout e = coalesce (OTP_LOCKOUT_SECONDS (cfg e)) 900"

definition find_link :: "db \<Rightarrow> string \<Rightarrow> telegram_link_row option" where
  "find_link d h = List.find (\<lambda>l. tl_phoneHash l = h) (telegramLinks d)"

text \<open>A configured string that is set and not empty, as \<open>!!value\<close> tests it.\<close>

definition truthy :: "string option \<Rightarrow> bool" where
  "truthy s = (case s of None \<Rightarrow> False | Some t \<Rightarrow> t \<noteq> [])"

definition deep_link :: "env \<Rightarrow> string option" where
  "deep_link e =
     (let t = trim (coalesce (TELEGRAM_BOT_USERNAME (cfg e)) []);
          botUsername = (case t of c # cs \<Rightarrow> if c = CHR ''@'' then cs else t | [] \<Rightarrow> []) in
      if botUsername \<noteq> [] then Some (''https://t.me/'' @ botUsername @ ''?start=link'') else None)"

definition generateOtpCode :: "env \<Rightarrow> nat \<Rightarrow> string" where
  "generateOtpCode e rnd = (if truthy (OTP_MOCK_CODE (cfg e)) then coalesce (OTP_MOCK_CODE (cfg e)) []
     else randomDigits rnd 6)"

definition recent_otp :: "env \<Rightarrow> db \<Rightarrow> string \<Rightarrow> otp_row option" where
  "recent_otp e d h =
     (let cooldownSeconds = coalesce (OTP_RESEND_COOLDOWN_SECONDS (cfg e)) 120 in
      first_of (order_desc o_createdAt (filter (\<lambda>o'. o_phoneHash o' = h \<and> o_status o' = UNUSED
        \<and> o_createdAt o' \<ge> now e - cooldownSeconds * 1000) (otps d))))"

definition requestOtp :: "env \<Rightarrow> nat \<Rightarrow> string \<Rightarrow> otp_answer svc" where
  "requestOtp e rnd phone =
     (let normalizedPhone = normalizePhone phone; phoneHash = phone_hash e normalizedPhone;
          cooldownSeconds = coalesce (OTP_RESEND_COOLDOWN_SECONDS (cfg e)) 120;
          devBypassAllowed = (truthy (OTP_MOCK_CODE (cfg e)) \<and> NODE_ENV (cfg e) \<noteq> Some ''production'') in
      bnd (dbget (\<lambda>d. find_link d phoneHash)) (\<lambda>link.
      thn (ensure (\<not> (link = None \<and> \<not> devBypassAllowed)) (TelegramLinkRequired (deep_link e)))
     (bnd (dbget (\<lambda>d. recent_otp e d phoneHash)) (\<lambda>recentOtp.
      case recentOtp of
        Some o' \<Rightarrow> ret (OtpAlreadySent (o_createdAt o' + cooldownSeconds * 1000))
      | None \<Rightarrow>
          (let code = generateOtpCode e rnd in
           catching
             (bnd (fresh e) (\<lambda>i. bnd (dbget id) (\<lambda>d.
              thn (ensure (\<not> exists_where (\<lambda>x. o_id x = i) (otps d)) (PrismaError ''P2002''))
             (thn (dbset (otps_update (\<lambda>xs. xs @ [\<lparr>o_id = i, o_phoneHash = phoneHash, o_code = code,
                     o_status = UNUSED, o_attempts = 0, o_expiresAt = now e + otp_ttl e * 1000, o_createdAt = now e\<rparr>])))
             (thn (whenA (link \<noteq> None) (queue_add e (TelegramOtp phoneHash normalizedPhone code)))
                  (ret (OtpSent (otp_ttl e))))))))
             (\<lambda>er. throw (BadRequest (''Failed to send OTP: '' @ error_message er))))))))"

text \<open>\<open>Math.ceil(lockoutSeconds / 60)\<close>\<close>

definition lockout_error :: "env \<Rightarrow> error" where
  "lockout_error e = BadRequest (''Too many failed attempts. Please try again in ''
     @ show_int (- ((- otp_lockout e) div 60)) @ '' minutes.'')"

definition timingSafeCompare :: "string \<Rightarrow> string \<Rightarrow> bool" where
  "timingSafeCompare a b \<longleftrightarrow> length a = length b \<and> a = b"

text \<open>The aggregate over every code of the phone inside the lockout window.\<close>

definition total_attempts :: "env \<Rightarrow> db \<Rightarrow> string \<Rightarrow> int" where
  "total_attempts e d h = sum_list (map o_attempts (filter (\<lambda>o'. o_phoneHash o' = h
     \<and> now e - otp_lockout e * 1000 < o_createdAt o') (otps d)))"

definition latest_otp :: "db \<Rightarrow> string \<Rightarrow> otp_row option" where
  "latest_otp d h = first_of (order_desc o_createdAt (filter (\<lambda>o'. o_phoneHash o' = h \<and> o_status o' = UNUSED) (otps d)))"

definition verifyOtp :: "env \<Rightarrow> string \<Rightarrow> string \<Rightarrow> unit svc" where
  "verifyOtp e phone code =
     (let phoneHash = phone_hash e (normalizePhone phone); maxAttempts = otp_max e in
      bnd (dbget (\<lambda>d. total_attempts e d phoneHash)) (\<lambda>totalAttempts.
      thn (ensure (totalAttempts < maxAttempts) (lockout_error e))
     (bnd (dbget (\<lambda>d. latest_otp d phoneHash)) (\<lambda>found.
      bnd (require found (BadRequest ''No active OTP found. Please request a new code.'')) (\<lambda>otp.
      thn (ensure (now e < o_expiresAt otp) (BadRequest ''OTP has expired. Please request a new code.''))
     (let expectedCode = padStart0 6 (o_code otp); providedCode = padStart0 6 code in
      if \<not> timingSafeCompare providedCode expectedCode then
        thn (dbset (otps_update (update_where (\<lambda>x. o_id x = o_id otp) (\<lambda>x. x\<lparr>o_attempts := o_attempts otp + 1\<rparr>))))
       (let remainingAttempts = maxAttempts - totalAttempts - 1 in
        if totalAttempts + 1 \<ge> maxAttempts then throw (lockout_error e)
        else throw (BadRequest (''Invalid OTP code. '' @ show_int remainingAttempts @ '' attempt''
               @ (if remainingAttempts \<noteq> 1 then ''s'' else []) @ '' remaining.'')))
      else
        dbset (otps_update (update_where (\<lambda>x. o_id x = o_id otp) (\<lambda>x. x\<lparr>o_status := USED\<rparr>)))))))))"

section \<open>\<open>AuthService\<close>\<close>

record session_meta =
  sm_userAgent :: "string option"
  sm_ip :: "string option"

record token_pair =
  tp_userId :: uuid
  tp_accessToken :: string
  tp_refreshToken :: string

record auth_user =
  au_userId :: uuid
  au_sessionId :: uuid
  au_role :: UserRole

definition requestLoginOtp :: "env \<Rightarrow> nat \<Rightarrow> string \<Rightarrow> (string \<times> otp_answer) svc" where
  "requestLoginOtp e rnd p = (let phone = normalizePhone p in
     bnd (requestOtp e rnd phone) (\<lambda>result. ret (maskPhone phone, result)))"

definition active_suspension :: "env \<Rightarrow> db \<Rightarrow> uuid \<Rightarrow> suspension_row option" where
  "active_suspension e d userId = first_of (order_desc su_suspendedAt (filter (\<lambda>s. su_userId s = userId
     \<and> su_revokedAt s = None \<and> (case su_expiresAt s of None \<Rightarrow> True | Some t \<Rightarrow> now e < t)) (userSuspensions d)))"

definition throwIfSuspended :: "env \<Rightarrow> uuid \<Rightarrow> unit svc" where
  "throwIfSuspended e userId = bnd (dbget (\<lambda>d. active_suspension e d userId)) (\<lambda>s. case s of
     None \<Rightarrow> ret ()
   | Some a \<Rightarrow> throw (AccountSuspended \<lparr>sb_reason = su_reason a, sb_suspendedAt = su_suspendedAt a,
        sb_expiresAt = su_expiresAt a, sb_appealUrl = SUSPENSION_APPEAL_URL (cfg e)\<rparr>))"

definition find_user_by_hash :: "db \<Rightarrow> string \<Rightarrow> user_row option" where
  "find_user_by_hash d h = List.find (\<lambda>u. u_phoneHash u = h) (users d)"

definition findOrCreateUser :: "env \<Rightarrow> string \<Rightarrow> string \<Rightarrow> uuid svc" where
  "findOrCreateUser e phone phoneHash =
     bnd (dbget (\<lambda>d. find_user_by_hash d phoneHash)) (\<lambda>existing.
     case existing of
       Some u \<Rightarrow> ret (u_id u)
     | None \<Rightarrow>
         bnd (dbget (\<lambda>d. find_user_by_hash d (sha256 e phone))) (\<lambda>legacyUser.
         case legacyUser of
           Some u \<Rightarrow>
             thn (dbset (users_update (update_where (\<lambda>x. u_id x = u_id u)
                    (\<lambda>x. x\<lparr>u_phoneHash := phoneHash, u_updatedAt := now e\<rparr>))))
                 (ret (u_id u))
         | None \<Rightarrow>
             bnd (fresh e) (\<lambda>i. bnd (dbget id) (\<lambda>d.
             thn (ensure (find_user d i = None \<and> find_user_by_hash d phoneHash = None) (PrismaError ''P2002''))
            (thn (dbset (users_update (\<lambda>us. us @ [\<lparr>u_id = i, u_phoneHash = phoneHash,
                    u_phoneMasked = Some (maskPhone phone), u_status = ACTIVE, u_role = USER,
                    u_createdAt = now e, u_updatedAt = now e, u_username = None, u_profileAvatarUrl = None,
                    u_encryptedProfile = None, u_profileKeyHash = None, u_strikeCount = 0,
                    u_lastStrikeAt = None\<rparr>])))
                 (ret i))))))"

definition find_token :: "db \<Rightarrow> string \<Rightarrow> refresh_token_row option" where
  "find_token d h = List.find (\<lambda>t. rt_tokenHash t = h) (refreshTokens d)"

definition find_session :: "db \<Rightarrow> uuid \<Rightarrow> refresh_token_row option" where
  "find_session d i = List.find (\<lambda>t. rt_id t = i) (refreshTokens d)"

definition new_token :: "env \<Rightarrow> uuid \<Rightarrow> uuid \<Rightarrow> string \<Rightarrow> string \<Rightarrow> session_meta \<Rightarrow> refresh_token_row" where
  "new_token e i userId refreshToken family meta = \<lparr>rt_id = i, rt_userId = userId,
     rt_tokenHash = sha256 e refreshToken, rt_familyId = family,
     rt_expiresAt = addDays (now e) (coalesce (REFRESH_TOKEN_TTL_DAYS (cfg e)) 30),
     rt_revokedAt = None, rt_userAgent = sm_userAgent meta, rt_ipAddress = sm_ip meta, rt_createdAt = now e\<rparr>"

definition issueTokenPair :: "env \<Rightarrow> uuid \<Rightarrow> session_meta \<Rightarrow> string option \<Rightarrow> token_pair svc" where
  "issueTokenPair e userId meta familyId =
     bnd (fresh e) (\<lambda>refreshToken.
     bnd (case familyId of Some f \<Rightarrow> ret f | None \<Rightarrow> fresh e) (\<lambda>family.
     bnd (fresh e) (\<lambda>i. bnd (dbget id) (\<lambda>d.
     thn (ensure (find_session d i = None \<and> find_token d (sha256 e refreshToken) = None) (PrismaError ''P2002''))
    (thn (ensure (find_user d userId \<noteq> None) (PrismaError ''P2003''))
    (thn (dbset (refreshTokens_update (\<lambda>ts. ts @ [new_token e i userId refreshToken family meta])))
         (ret \<lparr>tp_userId = userId, tp_accessToken = signJwt e userId i, tp_refreshToken = refreshToken\<rparr>)))))))"

definition verifyLoginOtp :: "env \<Rightarrow> string \<Rightarrow> string \<Rightarrow> session_meta \<Rightarrow> token_pair svc" where
  "verifyLoginOtp e p code meta =
     (let phone = normalizePhone p; phoneHash = phone_hash e phone in
      thn (verifyOtp e phone code)
     (bnd (findOrCreateUser e phone phoneHash) (\<lambda>userId.
      thn (throwIfSuspended e userId) (issueTokenPair e userId meta None))))"

text \<open>\<open>updateMany({ where: ..., revokedAt: null }, data: { revokedAt: now })\<close>\<close>

definition revoke_tokens :: "env \<Rightarrow> (refresh_token_row \<Rightarrow> bool) \<Rightarrow> db \<Rightarrow> db" where
  "revoke_tokens e p = refreshTokens_update (update_where (\<lambda>t. p t \<and> rt_revokedAt t = None)
     (\<lambda>t. t\<lparr>rt_revokedAt := Some (now e)\<rparr>))"

definition revokeTokenFamily :: "env \<Rightarrow> string \<Rightarrow> unit svc" where
  "revokeTokenFamily e tokenHash = bnd (dbget (\<lambda>d. find_token d tokenHash)) (\<lambda>token. case token of
     None \<Rightarrow> ret ()
   | Some t \<Rightarrow> dbset (revoke_tokens e (\<lambda>x. rt_familyId x = rt_familyId t)))"

definition refresh :: "env \<Rightarrow> string \<Rightarrow> session_meta \<Rightarrow> token_pair svc" where
  "refresh e refreshToken meta =
     (let tokenHash = sha256 e refreshToken in
      bnd (dbget (\<lambda>d. count_where (\<lambda>t. rt_tokenHash t = tokenHash \<and> rt_revokedAt t = None) (refreshTokens d))) (\<lambda>count.
      thn (dbset (revoke_tokens e (\<lambda>t. rt_tokenHash t = tokenHash)))
     (bnd (dbget (\<lambda>d. find_token d tokenHash)) (\<lambda>found.
      if count = 0 then
        bnd (require found (Unauthorized ''Refresh token is invalid'')) (\<lambda>existing.
        thn (ensure (now e < rt_expiresAt existing) (Unauthorized ''Refresh token is invalid''))
       (case rt_revokedAt existing of
          None \<Rightarrow> throw (Unauthorized ''Refresh token is invalid'')
        | Some revokedAt \<Rightarrow>
            (let graceMs = coalesce (REFRESH_REUSE_GRACE_SECONDS (cfg e)) 15 * 1000 in
             if now e - revokedAt \<le> graceMs then
               thn (throwIfSuspended e (rt_userId existing))
                   (issueTokenPair e (rt_userId existing) meta (Some (rt_familyId existing)))
             else
               thn (revokeTokenFamily e tokenHash)
                   (throw (Unauthorized ''Refresh token has been reused - all sessions revoked'')))))
      else
        bnd (require found (Unauthorized ''Refresh token is invalid'')) (\<lambda>session.
        thn (throwIfSuspended e (rt_userId session))
            (issueTokenPair e (rt_userId session) meta (Some (rt_familyId session))))))))"

definition logout :: "env \<Rightarrow> auth_user \<Rightarrow> string option \<Rightarrow> uuid option \<Rightarrow> unit svc" where
  "logout e user refreshToken deviceId = tx
     (thn (if truthy refreshToken
           then dbset (revoke_tokens e (\<lambda>t. rt_tokenHash t = sha256 e (coalesce refreshToken []) \<and> rt_userId t = au_userId user))
           else dbset (revoke_tokens e (\<lambda>t. rt_id t = au_sessionId user \<and> rt_userId t = au_userId user)))
          (case deviceId of
             None \<Rightarrow> ret ()
           | Some i \<Rightarrow> whenA (i \<noteq> []) (dbset (devices_update (update_where (\<lambda>x. d_id x = i \<and> d_userId x = au_userId user)
               (\<lambda>x. x\<lparr>d_active := False, d_pushActive := False\<rparr>))))))"

section \<open>\<open>JwtAuthGuard\<close>\<close>

definition canActivate ::
  "env \<Rightarrow> (string \<Rightarrow> (uuid \<times> uuid) option) \<Rightarrow> string option \<Rightarrow> auth_user svc" where
  "canActivate e verify header =
     (let bearer = ''Bearer '' in
      thn (ensure (case header of None \<Rightarrow> False | Some h \<Rightarrow> starts_with h bearer) (Unauthorized ''Missing bearer token''))
     (bnd (require (verify (drop (length bearer) (coalesce header []))) (Unauthorized ''Invalid bearer token'')) (\<lambda>(sub, sid).
      bnd (dbget (\<lambda>d. find_session d sid)) (\<lambda>found.
      bnd (require found (Unauthorized ''Session is no longer active'')) (\<lambda>session.
      thn (ensure (rt_userId session = sub \<and> rt_revokedAt session = None \<and> now e < rt_expiresAt session)
            (Unauthorized ''Session is no longer active''))
     (bnd (dbget (\<lambda>d. find_user d (rt_userId session))) (\<lambda>foundUser.
      bnd (require foundUser (OtherError ''user relation'')) (\<lambda>user.
      if u_status user = SUSPENDED then
        bnd (dbget (\<lambda>d. first_of (order_desc su_suspendedAt (filter (\<lambda>s. su_userId s = rt_userId session
               \<and> su_revokedAt s = None) (userSuspensions d))))) (\<lambda>suspension.
        throw (AccountSuspended (case suspension of
            None \<Rightarrow> \<lparr>sb_reason = ''No reason provided'', sb_suspendedAt = now e, sb_expiresAt = None,
                      sb_appealUrl = SUSPENSION_APPEAL_URL (cfg e)\<rparr>
          | Some s \<Rightarrow> \<lparr>sb_reason = su_reason s, sb_suspendedAt = su_suspendedAt s, sb_expiresAt = su_expiresAt s,
                      sb_appealUrl = SUSPENSION_APPEAL_URL (cfg e)\<rparr>)))
      else ret \<lparr>au_userId = sub, au_sessionId = sid, au_role = u_role user\<rparr>))))))))"

section \<open>\<open>RealtimeService\<close>\<close>

definition createSocketTicket :: "env \<Rightarrow> auth_user \<Rightarrow> uuid \<Rightarrow> (string \<times> time) svc" where
  "createSocketTicket e user deviceId =
     bnd (dbget (\<lambda>d. active_device d (au_userId user) deviceId)) (\<lambda>found.
     thn (ensure found (Forbidden ''Device is not active for this user''))
    (let ttlSeconds = coalesce (WEBSOCKET_TICKET_TTL_SECONDS (cfg e)) 60; expiresAt = now e + ttlSeconds * 1000 in
     bnd (fresh e) (\<lambda>ticket. bnd (fresh e) (\<lambda>i. bnd (dbget id) (\<lambda>d.
     thn (ensure (\<not> exists_where (\<lambda>t. tk_id t = i \<or> tk_tokenHash t = sha256 e ticket) (socketTickets d)) (PrismaError ''P2002''))
    (thn (dbset (socketTickets_update (\<lambda>ts. ts @ [\<lparr>tk_id = i, tk_userId = au_userId user, tk_deviceId = deviceId,
            tk_sessionId = au_sessionId user, tk_tokenHash = sha256 e ticket, tk_expiresAt = expiresAt,
            tk_consumedAt = None, tk_consumedBy = None\<rparr>])))
         (ret (ticket, expiresAt))))))))"

definition find_ticket :: "db \<Rightarrow> string \<Rightarrow> socket_ticket_row option" where
  "find_ticket d h = List.find (\<lambda>t. tk_tokenHash t = h) (socketTickets d)"

definition consume_tx :: "env \<Rightarrow> string \<Rightarrow> string \<Rightarrow> (uuid \<times> uuid \<times> uuid) svc" where
  "consume_tx e tokenHash socketId =
     bnd (dbget (\<lambda>d. find_ticket d tokenHash)) (\<lambda>found.
     bnd (require found (Unauthorized ''Socket ticket is invalid'')) (\<lambda>ticket.
     thn (ensure (tk_consumedAt ticket = None \<and> now e < tk_expiresAt ticket) (Unauthorized ''Socket ticket is invalid''))
    (bnd (dbget (\<lambda>d. find_session d (tk_sessionId ticket))) (\<lambda>foundSession.
     bnd (require foundSession (Unauthorized ''Session is no longer active'')) (\<lambda>session.
     thn (ensure (rt_revokedAt session = None \<and> now e < rt_expiresAt session) (Unauthorized ''Session is no longer active''))
    (bnd (dbget (\<lambda>d. active_device d (tk_userId ticket) (tk_deviceId ticket))) (\<lambda>device.
     thn (ensure device (Unauthorized ''Device is no longer active''))
    (thn (dbset (socketTickets_update (update_where (\<lambda>t. tk_id t = tk_id ticket)
            (\<lambda>t. t\<lparr>tk_consumedAt := Some (now e), tk_consumedBy := Some socketId\<rparr>))))
    (thn (dbset (devices_update (update_where (\<lambda>x. d_id x = tk_deviceId ticket) (\<lambda>x. x\<lparr>d_lastSeenAt := Some (now e)\<rparr>))))
         (ret (tk_userId ticket, tk_deviceId ticket, tk_sessionId ticket)))))))))))"

definition consumeSocketTicket :: "env \<Rightarrow> string \<Rightarrow> string \<Rightarrow> (uuid \<times> uuid \<times> uuid) svc" where
  "consumeSocketTicket e ticket socketId = tx (consume_tx e (sha256 e ticket) socketId)"

section \<open>One-time codes\<close>

definition otp_inv :: "db \<Rightarrow> bool" where
  "otp_inv d \<longleftrightarrow> distinct (map o_id (otps d))"

lemma sum_update_one:
  fixes g :: "'r \<Rightarrow> int"
  assumes "distinct (map key rs)" and "r \<in> set rs" and "p r" and "\<And>x. key x = key r \<Longrightarrow> p (f x) = p x"
  shows "sum_list (map g (filter p (update_where (\<lambda>x. key x = key r) f rs)))
    = sum_list (map g (filter p rs)) + (g (f r) - g r)"
  using assms
proof (induction rs)
  case (Cons x rs)
  show ?case
  proof (cases "key x = key r")
    case True
    with Cons.prems have "x = r" by (auto simp: image_iff)
    moreover have "update_where (\<lambda>x. key x = key r) f rs = rs"
      by (rule update_where_id) (use Cons.prems True in \<open>auto simp: image_iff\<close>)
    ultimately show ?thesis using Cons.prems by simp
  next
    case False
    with Cons show ?thesis by auto
  qed
qed simp

lemma latest_otpD:
  "latest_otp d h = Some x \<Longrightarrow> x \<in> set (otps d) \<and> o_phoneHash x = h \<and> o_status x = UNUSED"
  by (auto simp: latest_otp_def dest!: first_of_in)

lemma timingSafeCompare_iff [simp]: "timingSafeCompare a b \<longleftrightarrow> a = b"
  by (auto simp: timingSafeCompare_def)

text \<open>Whether a call reaches the comparison of codes, and the row it compares with.\<close>

definition compared :: "env \<Rightarrow> string \<Rightarrow> db \<Rightarrow> otp_row option" where
  "compared e phone d = (let h = phone_hash e (normalizePhone phone) in
     if total_attempts e d h < otp_max e then
       (case latest_otp d h of Some x \<Rightarrow> if now e < o_expiresAt x then Some x else None | None \<Rightarrow> None)
     else None)"

lemma verifyOtp_run:
  "w_db (snd (verifyOtp e phone code w)) = (case compared e phone (w_db w) of
     None \<Rightarrow> w_db w
   | Some x \<Rightarrow> if padStart0 6 code = padStart0 6 (o_code x)
       then otps_update (update_where (\<lambda>y. o_id y = o_id x) (\<lambda>y. y\<lparr>o_status := USED\<rparr>)) (w_db w)
       else otps_update (update_where (\<lambda>y. o_id y = o_id x) (\<lambda>y. y\<lparr>o_attempts := o_attempts x + 1\<rparr>)) (w_db w))"
  by (auto simp: verifyOtp_def compared_def Let_def act_simps split: option.split)

lemma verifyOtp_success:
  "verifyOtp e phone code w = (Inr u, w') \<longleftrightarrow> (\<exists>x. compared e phone (w_db w) = Some x
     \<and> padStart0 6 code = padStart0 6 (o_code x)
     \<and> w' = w\<lparr>w_db := otps_update (update_where (\<lambda>y. o_id y = o_id x) (\<lambda>y. y\<lparr>o_status := USED\<rparr>)) (w_db w)\<rparr>)"
  by (cases "latest_otp (w_db w) (phone_hash e (normalizePhone phone))")
    (auto simp: verifyOtp_def compared_def Let_def act_simps)

lemma comparedD: "compared e phone d = Some x \<Longrightarrow>
  latest_otp d (phone_hash e (normalizePhone phone)) = Some x \<and> now e < o_expiresAt x
    \<and> total_attempts e d (phone_hash e (normalizePhone phone)) < otp_max e"
  by (auto simp: compared_def Let_def split: if_splits option.splits)


definition demo_otp_env :: "time \<Rightarrow> env" where
  "demo_otp_env t = demo_env\<lparr>now := t, cfg := default_config\<lparr>OTP_MOCK_CODE := Some ''123456''\<rparr>\<rparr>"

definition demo_otp_world :: world where
  "demo_otp_world = snd (requestOtp (demo_otp_env 1000) 0 ''+998 90'' demo_world)"

lemma demo_otp_inv: "otp_inv (w_db demo_otp_world)"
  unfolding otp_inv_def by code_simp


subsection \<open>Brute force\<close>

text \<open>Guesses and requests for new codes in any order, each with its own clock.\<close>

datatype otp_call = Guess env string | Ask env nat

fun call_env :: "otp_call \<Rightarrow> env" where
  "call_env (Guess e c) = e"
| "call_env (Ask e r) = e"

fun otp_call_step :: "string \<Rightarrow> otp_call \<Rightarrow> world \<Rightarrow> world" where
  "otp_call_step phone (Guess e c) w = snd (verifyOtp e phone c w)"
| "otp_call_step phone (Ask e r) w = snd (requestOtp e r phone w)"

fun wrong_guess :: "string \<Rightarrow> otp_call \<Rightarrow> world \<Rightarrow> bool" where
  "wrong_guess phone (Guess e c) w = (case compared e phone (w_db w) of
     None \<Rightarrow> False | Some x \<Rightarrow> padStart0 6 c \<noteq> padStart0 6 (o_code x))"
| "wrong_guess phone (Ask e r) w = False"

fun wrong_guesses :: "string \<Rightarrow> otp_call list \<Rightarrow> world \<Rightarrow> nat" where
  "wrong_guesses phone [] w = 0"
| "wrong_guesses phone (c # cs) w =
     (if wrong_guess phone c w then 1 else 0) + wrong_guesses phone cs (otp_call_step phone c w)"

definition attempts_of :: "db \<Rightarrow> string \<Rightarrow> int" where
  "attempts_of d h = sum_list (map o_attempts (filter (\<lambda>x. o_phoneHash x = h) (otps d)))"

definition born_after :: "db \<Rightarrow> string \<Rightarrow> time \<Rightarrow> bool" where
  "born_after d h t \<longleftrightarrow> (\<forall>x\<in>set (otps d). o_phoneHash x = h \<longrightarrow> t < o_createdAt x)"

lemma total_attempts_window:
  assumes "born_after d h t" and "now e - otp_lockout e * 1000 \<le> t"
  shows "total_attempts e d h = attempts_of d h"
proof -
  have "filter (\<lambda>x. o_phoneHash x = h \<and> now e - otp_lockout e * 1000 < o_createdAt x) (otps d)
      = filter (\<lambda>x. o_phoneHash x = h) (otps d)"
    by (rule filter_cong) (use assms in \<open>auto simp: born_after_def\<close>)
  then show ?thesis by (simp add: total_attempts_def attempts_of_def)
qed

lemma requestOtp_db:
  "\<exists>xs. otps (w_db (snd (requestOtp e r phone w))) = otps (w_db w) @ xs
     \<and> (\<forall>x\<in>set xs. o_attempts x = 0 \<and> o_createdAt x = now e \<and> (\<forall>y\<in>set (otps (w_db w)). o_id y \<noteq> o_id x))
     \<and> length xs \<le> 1"
proof -
  let ?h = "phone_hash e (normalizePhone phone)"
  consider "otps (w_db (snd (requestOtp e r phone w))) = otps (w_db w)"
    | x where "otps (w_db (snd (requestOtp e r phone w))) = otps (w_db w) @ [x]" "o_attempts x = 0"
        "o_createdAt x = now e" "(\<forall>y\<in>set (otps (w_db w)). o_id y \<noteq> o_id x)"
    by (cases "find_link (w_db w) ?h"; cases "recent_otp e (w_db w) ?h"; cases "queueErr e TELEGRAM_OTP";
        cases "truthy (OTP_MOCK_CODE (cfg e)) \<and> NODE_ENV (cfg e) \<noteq> Some ''production''";
        cases "\<exists>x\<in>set (otps (w_db w)). o_id x = mkId e (w_supply w)")
      (auto simp: requestOtp_def Let_def act_simps queue_add_def)
  then show ?thesis
  proof cases
    case 1
    then show ?thesis by (intro exI [of _ "[]"]) simp
  next
    case (2 x)
    then show ?thesis by (intro exI [of _ "[x]"]) simp
  qed
qed

lemma otp_call_effect:
  assumes "otp_inv (w_db w)" and "born_after (w_db w) h t" and "t < now (call_env c)"
    and "phone_hash (call_env c) (normalizePhone phone) = h"
  shows "otp_inv (w_db (otp_call_step phone c w)) \<and> born_after (w_db (otp_call_step phone c w)) h t
    \<and> attempts_of (w_db (otp_call_step phone c w)) h = attempts_of (w_db w) h + (if wrong_guess phone c w then 1 else 0)"
proof (cases c)
  case (Guess e code)
  show ?thesis
  proof (cases "compared e phone (w_db w)")
    case None
    then show ?thesis using assms by (simp add: Guess verifyOtp_run)
  next
    case (Some x)
    have x: "x \<in> set (otps (w_db w))" "o_phoneHash x = h"
      using latest_otpD comparedD [OF Some] assms(4) Guess by auto
    have sums: "sum_list (map o_attempts (filter (\<lambda>x. o_phoneHash x = h) (update_where (\<lambda>y. o_id y = o_id x) f (otps (w_db w)))))
        = attempts_of (w_db w) h + (o_attempts (f x) - o_attempts x)" if "\<And>y. o_phoneHash (f y) = o_phoneHash y" for f
      using sum_update_one [of o_id "otps (w_db w)" x "\<lambda>x. o_phoneHash x = h" f o_attempts] assms(1) x that
      by (simp add: otp_inv_def attempts_of_def)
    have ids: "map o_id (update_where (\<lambda>y. o_id y = o_id x) f (otps (w_db w))) = map o_id (otps (w_db w))"
      if "\<And>y. o_id (f y) = o_id y" for f using that by (simp add: map_update_where)
    show ?thesis
      using assms(1,2) Some
      by (auto simp: Guess verifyOtp_run otp_inv_def born_after_def attempts_of_def [of "otps_update _ _"] sums ids
          elim!: in_update_whereE)
  qed
next
  case (Ask e r)
  from requestOtp_db [of e r phone w] obtain xs where xs:
      "otps (w_db (snd (requestOtp e r phone w))) = otps (w_db w) @ xs"
      "\<forall>x\<in>set xs. o_attempts x = 0 \<and> o_createdAt x = now e \<and> (\<forall>y\<in>set (otps (w_db w)). o_id y \<noteq> o_id x)" "length xs \<le> 1"
    by blast
  have "sum_list (map o_attempts (filter (\<lambda>x. o_phoneHash x = h) xs)) = 0"
    using xs(2) by (induction xs) auto
  then show ?thesis
    using assms xs by (cases xs) (auto simp: Ask otp_inv_def born_after_def attempts_of_def)
qed

lemma wrong_guess_below:
  assumes "wrong_guess phone c w" and "born_after (w_db w) h t" and "phone_hash (call_env c) (normalizePhone phone) = h"
    and "now (call_env c) - otp_lockout (call_env c) * 1000 \<le> t"
  shows "attempts_of (w_db w) h < otp_max (call_env c)"
  using assms total_attempts_window [OF assms(2,4)]
  by (cases c) (auto dest: comparedD split: option.splits)



section \<open>Sessions\<close>

definition token_inv :: "db \<Rightarrow> bool" where
  "token_inv d \<longleftrightarrow> distinct (map rt_id (refreshTokens d)) \<and> distinct (map rt_tokenHash (refreshTokens d))"

lemma find_tokenD: "find_token d h = Some t \<Longrightarrow> t \<in> set (refreshTokens d) \<and> rt_tokenHash t = h"
  by (auto simp: find_token_def dest: find_Some_in)

lemma find_sessionD: "find_session d i = Some t \<Longrightarrow> t \<in> set (refreshTokens d) \<and> rt_id t = i"
  by (auto simp: find_session_def dest: find_Some_in)

lemma revoke_tokens_frame [simp]:
  "users (revoke_tokens e p d) = users d" "userSuspensions (revoke_tokens e p d) = userSuspensions d"
  "devices (revoke_tokens e p d) = devices d" "socketTickets (revoke_tokens e p d) = socketTickets d"
  by (simp_all add: revoke_tokens_def)

lemma refreshTokens_revoke:
  "refreshTokens (revoke_tokens e p d) = update_where (\<lambda>t. p t \<and> rt_revokedAt t = None)
     (\<lambda>t. t\<lparr>rt_revokedAt := Some (now e)\<rparr>) (refreshTokens d)"
  by (simp add: revoke_tokens_def)

lemma revoke_tokens_keys:
  "map rt_id (refreshTokens (revoke_tokens e p d)) = map rt_id (refreshTokens d)"
  "map rt_tokenHash (refreshTokens (revoke_tokens e p d)) = map rt_tokenHash (refreshTokens d)"
  by (simp_all add: refreshTokens_revoke map_update_where)

lemma revoke_tokens_all: "t \<in> set (refreshTokens (revoke_tokens e p d)) \<Longrightarrow> (\<And>x. p (x\<lparr>rt_revokedAt := Some (now e)\<rparr>) = p x) \<Longrightarrow>
  p t \<Longrightarrow> rt_revokedAt t \<noteq> None"
  by (auto simp: refreshTokens_revoke elim!: in_update_whereE split: if_splits)

lemma find_token_revoke:
  assumes "\<And>x. p (x\<lparr>rt_revokedAt := Some (now e)\<rparr>) = p x"
  shows "find_token (revoke_tokens e p d) h = map_option (\<lambda>t. if p t \<and> rt_revokedAt t = None
     then t\<lparr>rt_revokedAt := Some (now e)\<rparr> else t) (find_token d h)"
  unfolding find_token_def refreshTokens_revoke by (rule find_update_where) simp

lemma find_session_revoke:
  "find_session (revoke_tokens e p d) i = map_option (\<lambda>t. if p t \<and> rt_revokedAt t = None
     then t\<lparr>rt_revokedAt := Some (now e)\<rparr> else t) (find_session d i)"
  unfolding find_session_def refreshTokens_revoke by (rule find_update_where) simp

lemma active_suspension_frame: "userSuspensions d' = userSuspensions d \<Longrightarrow> active_suspension e d' u = active_suspension e d u"
  by (simp add: active_suspension_def)

lemma throwIfSuspended_ok [ok_simps]:
  "throwIfSuspended e u w = (Inr y, w') \<longleftrightarrow> active_suspension e (w_db w) u = None \<and> w' = w"
  by (auto simp: throwIfSuspended_def ok_simps split: option.splits)

lemma new_token_simps [simp]:
  "rt_id (new_token e i u tok f meta) = i" "rt_userId (new_token e i u tok f meta) = u"
  "rt_tokenHash (new_token e i u tok f meta) = sha256 e tok" "rt_familyId (new_token e i u tok f meta) = f"
  "rt_revokedAt (new_token e i u tok f meta) = None"
  "rt_expiresAt (new_token e i u tok f meta) = addDays (now e) (coalesce (REFRESH_TOKEN_TTL_DAYS (cfg e)) 30)"
  by (simp_all add: new_token_def)

lemma issueTokenPair_ok:
  assumes "issueTokenPair e u meta fam w = (Inr tp, w')"
  obtains i f where "fam = None \<or> fam = Some f"
    "w_db w' = refreshTokens_update (\<lambda>ts. ts @ [new_token e i u (tp_refreshToken tp) f meta]) (w_db w)"
    "tp_userId tp = u" "tp_accessToken tp = signJwt e u i"
    "find_token (w_db w) (sha256 e (tp_refreshToken tp)) = None" "find_session (w_db w) i = None" "find_user (w_db w) u \<noteq> None"
proof (cases fam)
  case None
  with assms show thesis unfolding issueTokenPair_def by (auto simp: ok_simps intro!: that)
next
  case (Some f)
  with assms show thesis unfolding issueTokenPair_def by (auto simp: ok_simps intro!: that)
qed

text \<open>The branch of \<open>refresh\<close> for a token that was not revoked.\<close>

lemma refresh_live_ok:
  assumes "find_token (w_db w) (sha256 e tok) = Some t" and "rt_revokedAt t = None"
  shows "refresh e tok meta w = (let w1 = w\<lparr>w_db := revoke_tokens e (\<lambda>x. rt_tokenHash x = sha256 e tok) (w_db w)\<rparr> in
     thn (throwIfSuspended e (rt_userId t)) (issueTokenPair e (rt_userId t) meta (Some (rt_familyId t))) w1)"
proof -
  have "count_where (\<lambda>x. rt_tokenHash x = sha256 e tok \<and> rt_revokedAt x = None) (refreshTokens (w_db w)) \<noteq> 0"
    using assms find_tokenD [OF assms(1)] by auto
  moreover have "find_token (revoke_tokens e (\<lambda>x. rt_tokenHash x = sha256 e tok) (w_db w)) (sha256 e tok)
      = Some (t\<lparr>rt_revokedAt := Some (now e)\<rparr>)"
    using assms find_tokenD [OF assms(1)] by (simp add: find_token_revoke)
  ultimately show ?thesis
    by (simp add: refresh_def Let_def act_simps del: count_where_0)
qed

text \<open>A refresh rotates the token.  When the presented token was live, a successful refresh revokes it
  and adds exactly one token, live, of the same user and family and with a hash that no row had; no
  other row changes, and the user has no active suspension.\<close>

lemma refresh_rotates:
  assumes "find_token (w_db w) (sha256 e tok) = Some t" and "rt_revokedAt t = None" and "token_inv (w_db w)"
    and "refresh e tok meta w = (Inr tp, w')"
  shows "active_suspension e (w_db w) (rt_userId t) = None \<and> tp_userId tp = rt_userId t
    \<and> (\<exists>t'. refreshTokens (w_db w') =
          map (\<lambda>x. if x = t then t\<lparr>rt_revokedAt := Some (now e)\<rparr> else x) (refreshTokens (w_db w)) @ [t']
        \<and> rt_userId t' = rt_userId t \<and> rt_familyId t' = rt_familyId t \<and> rt_revokedAt t' = None
        \<and> rt_tokenHash t' = sha256 e (tp_refreshToken tp) \<and> find_token (w_db w) (rt_tokenHash t') = None)"
proof -
  let ?d1 = "revoke_tokens e (\<lambda>x. rt_tokenHash x = sha256 e tok) (w_db w)"
  have "thn (throwIfSuspended e (rt_userId t)) (issueTokenPair e (rt_userId t) meta (Some (rt_familyId t))) (w\<lparr>w_db := ?d1\<rparr>) = (Inr tp, w')"
    using assms(4) refresh_live_ok [OF assms(1,2)] by (simp add: Let_def)
  then have sus: "active_suspension e (w_db w) (rt_userId t) = None"
    and issue: "issueTokenPair e (rt_userId t) meta (Some (rt_familyId t)) (w\<lparr>w_db := ?d1\<rparr>) = (Inr tp, w')"
    using active_suspension_frame [of ?d1 "w_db w"] by (auto simp: ok_simps)
  note t = find_tokenD [OF assms(1)]
  have "refreshTokens ?d1 = map (\<lambda>x. if x = t then t\<lparr>rt_revokedAt := Some (now e)\<rparr> else x) (refreshTokens (w_db w))"
  proof -
    have "rt_tokenHash x = sha256 e tok \<longleftrightarrow> x = t" if "x \<in> set (refreshTokens (w_db w))" for x
      using t that unique_row [of rt_tokenHash "refreshTokens (w_db w)" x t] assms(3) by (auto simp: token_inv_def)
    then show ?thesis
      using assms(2) by (auto simp: refreshTokens_revoke update_where_def)
  qed
  moreover have "find_token (w_db w) h = None" if "find_token ?d1 h = None" for h
    using that by (simp add: find_token_revoke)
  moreover obtain i where "w_db w' = refreshTokens_update (\<lambda>ts. ts @ [new_token e i (rt_userId t) (tp_refreshToken tp) (rt_familyId t) meta]) ?d1"
      "tp_userId tp = rt_userId t" "find_token ?d1 (sha256 e (tp_refreshToken tp)) = None"
    using issueTokenPair_ok [OF issue] by auto
  ultimately show ?thesis using sus by simp
qed

definition demo_token :: refresh_token_row where
  "demo_token = \<lparr>rt_id = ''s1'', rt_userId = ''ann'', rt_tokenHash = ''htok'', rt_familyId = ''fam'', rt_expiresAt = 9000000,
     rt_revokedAt = None, rt_userAgent = None, rt_ipAddress = None, rt_createdAt = 0\<rparr>"

definition demo_session_world :: world where
  "demo_session_world = demo_world\<lparr>w_db := demo_db\<lparr>refreshTokens := [demo_token]\<rparr>\<rparr>"

definition demo_meta :: session_meta where
  "demo_meta = \<lparr>sm_userAgent = None, sm_ip = None\<rparr>"

text \<open>The branch of \<open>refresh\<close> for a token that was revoked before.\<close>

definition grace_ms :: "env \<Rightarrow> int" where
  "grace_ms e = coalesce (REFRESH_REUSE_GRACE_SECONDS (cfg e)) 15 * 1000"

lemma refresh_revoked_run:
  assumes "find_token (w_db w) (sha256 e tok) = Some t" and "rt_revokedAt t = Some r" and "token_inv (w_db w)"
  shows "refresh e tok meta w =
    (if \<not> now e < rt_expiresAt t then (Inl (Unauthorized ''Refresh token is invalid''), w)
     else if now e - r \<le> grace_ms e
       then thn (throwIfSuspended e (rt_userId t)) (issueTokenPair e (rt_userId t) meta (Some (rt_familyId t))) w
     else (Inl (Unauthorized ''Refresh token has been reused - all sessions revoked''),
           w\<lparr>w_db := revoke_tokens e (\<lambda>x. rt_familyId x = rt_familyId t) (w_db w)\<rparr>))"
proof -
  note t = find_tokenD [OF assms(1)]
  have none: "\<forall>x\<in>set (refreshTokens (w_db w)). \<not> (rt_tokenHash x = sha256 e tok \<and> rt_revokedAt x = None)"
    using t assms(2,3) unique_row [of rt_tokenHash "refreshTokens (w_db w)" _ t] by (fastforce simp: token_inv_def)
  then have "count_where (\<lambda>x. rt_tokenHash x = sha256 e tok \<and> rt_revokedAt x = None) (refreshTokens (w_db w)) = 0"
    by simp
  moreover have "revoke_tokens e (\<lambda>x. rt_tokenHash x = sha256 e tok) (w_db w) = w_db w"
    using none by (simp add: revoke_tokens_def update_where_id)
  ultimately show ?thesis
    using assms(1,2)
    by (simp add: refresh_def Let_def act_simps revokeTokenFamily_def grace_ms_def del: count_where_0)
qed

text \<open>C34: A replayed token ends its family.  Presenting a token that was revoked longer than the grace
  period ago, and has not expired, fails and leaves every token of its family revoked.\<close>

theorem refresh_reuse_revokes_family:
  assumes "find_token (w_db w) (sha256 e tok) = Some t" and "rt_revokedAt t = Some r" and "token_inv (w_db w)"
    and "now e < rt_expiresAt t" and "grace_ms e < now e - r"
  shows "\<exists>w'. refresh e tok meta w = (Inl (Unauthorized ''Refresh token has been reused - all sessions revoked''), w')
    \<and> (\<forall>x\<in>set (refreshTokens (w_db w')). rt_familyId x = rt_familyId t \<longrightarrow> rt_revokedAt x \<noteq> None)
    \<and> (\<forall>x. rt_familyId x \<noteq> rt_familyId t \<longrightarrow> x \<in> set (refreshTokens (w_db w')) \<longleftrightarrow> x \<in> set (refreshTokens (w_db w)))"
proof -
  let ?d = "revoke_tokens e (\<lambda>x. rt_familyId x = rt_familyId t) (w_db w)"
  have "\<forall>x\<in>set (refreshTokens ?d). rt_familyId x = rt_familyId t \<longrightarrow> rt_revokedAt x \<noteq> None"
    using revoke_tokens_all [of _ e "\<lambda>x. rt_familyId x = rt_familyId t" "w_db w"] by auto
  moreover have "x \<in> set (refreshTokens ?d) \<longleftrightarrow> x \<in> set (refreshTokens (w_db w))" if "rt_familyId x \<noteq> rt_familyId t" for x
    using that by (auto simp: refreshTokens_revoke set_update_where image_iff split: if_splits)
  ultimately show ?thesis
    using refresh_revoked_run [OF assms(1-3), of meta] assms(4,5) by auto
qed

theorem refresh_reuse_revokes_family_witness:
  "\<exists>w'. refresh (demo_env\<lparr>now := 1100000\<rparr>) ''tok'' demo_meta (snd (refresh demo_env ''tok'' demo_meta demo_session_world))
       = (Inl (Unauthorized ''Refresh token has been reused - all sessions revoked''), w')
     \<and> (\<forall>x\<in>set (refreshTokens (w_db w')). rt_familyId x = ''fam'' \<longrightarrow> rt_revokedAt x \<noteq> None)"
proof -
  let ?w = "snd (refresh demo_env ''tok'' demo_meta demo_session_world)"
  let ?e = "demo_env\<lparr>now := 1100000\<rparr>"
  let ?t = "demo_token\<lparr>rt_revokedAt := Some 1000000\<rparr>"
  have "find_token (w_db ?w) ''htok'' = Some ?t" by code_simp
  then have "find_token (w_db ?w) (sha256 ?e ''tok'') = Some ?t" by (simp add: demo_env_def)
  moreover have "token_inv (w_db ?w)" unfolding token_inv_def by code_simp
  moreover have "rt_revokedAt ?t = Some 1000000" "now ?e < rt_expiresAt ?t" "grace_ms ?e < now ?e - 1000000" by code_simp+
  ultimately show ?thesis
    using refresh_reuse_revokes_family [of ?w ?e "''tok''" ?t 1000000 demo_meta] by (auto simp: demo_token_def)
qed

text \<open>When the issue of a pair succeeds.\<close>

lemma issueTokenPair_runs:
  assumes "find_user (w_db w) u \<noteq> None"
    and "find_token (w_db w) (sha256 e (mkId e (w_supply w))) = None"
    and "find_session (w_db w) (mkId e (Suc (w_supply w))) = None"
  shows "\<exists>tp w'. issueTokenPair e u meta (Some f) w = (Inr tp, w') \<and> tp_userId tp = u"
  using assms by (auto simp: issueTokenPair_def act_simps)

text \<open>A logged-out token still works for the grace period.  The grace window of \<open>refresh\<close> looks only at
  how long ago a token was revoked, not why: after a logout that revoked the token, presenting it again
  within the window yields a new live token pair of the same user.\<close>

lemma refresh_after_logout:
  assumes "find_token (w_db w) (sha256 e tok) = Some t" and "rt_revokedAt t = None" and "token_inv (w_db w)"
    and "rt_userId t = au_userId user" and "tok \<noteq> []"
    and "sha256 e' = sha256 e" and "now e' < rt_expiresAt t" and "now e' - now e \<le> grace_ms e'"
    and "active_suspension e' (w_db w) (rt_userId t) = None" and "find_user (w_db w) (rt_userId t) \<noteq> None"
    and "find_token (w_db w) (sha256 e (mkId e' (w_supply w))) = None" and "find_session (w_db w) (mkId e' (Suc (w_supply w))) = None"
  shows "\<exists>w1 tp w2. logout e user (Some tok) None w = (Inr (), w1) \<and> find_token (w_db w1) (sha256 e tok) = Some (t\<lparr>rt_revokedAt := Some (now e)\<rparr>)
    \<and> refresh e' tok meta w1 = (Inr tp, w2) \<and> tp_userId tp = rt_userId t"
proof -
  let ?p = "\<lambda>x. rt_tokenHash x = sha256 e tok \<and> rt_userId x = au_userId user"
  let ?d = "revoke_tokens e ?p (w_db w)"
  let ?w1 = "w\<lparr>w_db := ?d\<rparr>"
  have lo: "logout e user (Some tok) None w = (Inr (), ?w1)"
    using assms(5) by (simp add: logout_def truthy_def act_simps)
  have found: "find_token ?d (sha256 e tok) = Some (t\<lparr>rt_revokedAt := Some (now e)\<rparr>)"
    using assms(1,2,4) find_tokenD [OF assms(1)] by (simp add: find_token_revoke)
  have inv: "token_inv (w_db ?w1)" using assms(3) by (simp add: token_inv_def revoke_tokens_keys)
  have "refresh e' tok meta ?w1 = thn (throwIfSuspended e' (rt_userId t)) (issueTokenPair e' (rt_userId t) meta (Some (rt_familyId t))) ?w1"
    using refresh_revoked_run [OF _ _ inv, of e' tok "t\<lparr>rt_revokedAt := Some (now e)\<rparr>" "now e" meta] found assms(6-8)
    by simp
  moreover have "throwIfSuspended e' (rt_userId t) ?w1 = (Inr (), ?w1)"
    using assms(9) active_suspension_frame [of ?d "w_db w"] by (simp add: throwIfSuspended_def act_simps)
  moreover obtain tp w2 where "issueTokenPair e' (rt_userId t) meta (Some (rt_familyId t)) ?w1 = (Inr tp, w2)" "tp_userId tp = rt_userId t"
    using issueTokenPair_runs [of ?w1 "rt_userId t" e' meta "rt_familyId t"] assms(6,10-12)
    by (auto simp: find_user_def find_token_revoke find_session_revoke)
  ultimately show ?thesis using lo found by (auto simp: thn_run)
qed

text \<open>A live token is refreshed whatever its expiry date.  The successful branch of \<open>refresh\<close> never
  reads \<open>expiresAt\<close>: for every value of it, a token that is not revoked yields a new pair.\<close>

lemma refresh_ignores_expiry:
  assumes "find_token (w_db w) (sha256 e tok) = Some t" and "rt_revokedAt t = None"
    and "active_suspension e (w_db w) (rt_userId t) = None" and "find_user (w_db w) (rt_userId t) \<noteq> None"
    and "find_token (w_db w) (sha256 e (mkId e (w_supply w))) = None" and "find_session (w_db w) (mkId e (Suc (w_supply w))) = None"
  shows "\<exists>tp w'. refresh e tok meta w = (Inr tp, w') \<and> tp_userId tp = rt_userId t"
proof -
  let ?w1 = "w\<lparr>w_db := revoke_tokens e (\<lambda>x. rt_tokenHash x = sha256 e tok) (w_db w)\<rparr>"
  have "throwIfSuspended e (rt_userId t) ?w1 = (Inr (), ?w1)"
    using assms(3) active_suspension_frame [of "w_db ?w1" "w_db w"] by (simp add: throwIfSuspended_def act_simps)
  moreover obtain tp w2 where "issueTokenPair e (rt_userId t) meta (Some (rt_familyId t)) ?w1 = (Inr tp, w2)" "tp_userId tp = rt_userId t"
    using issueTokenPair_runs [of ?w1 "rt_userId t" e meta "rt_familyId t"] assms(4-6)
    by (auto simp: find_user_def find_token_revoke find_session_revoke)
  ultimately show ?thesis using refresh_live_ok [OF assms(1,2)] by (simp add: Let_def thn_run)
qed

subsection \<open>Who gets and keeps a session\<close>

lemma findOrCreateUser_frame:
  "findOrCreateUser e phone h w = (Inr u, w') \<Longrightarrow> userSuspensions (w_db w') = userSuspensions (w_db w)"
  by (auto simp: findOrCreateUser_def ok_simps split: option.splits)

lemma issue_unsuspended:
  assumes "thn (throwIfSuspended e u) (issueTokenPair e u meta fam) w = (Inr tp, w')"
  shows "active_suspension e (w_db w) (tp_userId tp) = None
    \<and> (\<exists>t\<in>set (refreshTokens (w_db w')). rt_userId t = tp_userId tp \<and> rt_revokedAt t = None
         \<and> rt_tokenHash t = sha256 e (tp_refreshToken tp))"
proof -
  from assms have a: "active_suspension e (w_db w) u = None" and i: "issueTokenPair e u meta fam w = (Inr tp, w')"
    by (auto simp: ok_simps)
  from i show ?thesis by (rule issueTokenPair_ok) (use a in simp)
qed

lemma issued_unsuspended:
  assumes "verifyLoginOtp e p code meta w = (Inr tp, w') \<or> refresh e tok meta w = (Inr tp, w')"
    and "token_inv (w_db w)"
  shows "active_suspension e (w_db w) (tp_userId tp) = None
    \<and> (\<exists>t\<in>set (refreshTokens (w_db w')). rt_userId t = tp_userId tp \<and> rt_revokedAt t = None
         \<and> rt_tokenHash t = sha256 e (tp_refreshToken tp))"
  using assms(1)
proof
  assume "verifyLoginOtp e p code meta w = (Inr tp, w')"
  then obtain u w1 w2 where v: "verifyOtp e (normalizePhone p) code w = (Inr (), w1)"
      and f: "findOrCreateUser e (normalizePhone p) (phone_hash e (normalizePhone p)) w1 = (Inr u, w2)"
      and i: "thn (throwIfSuspended e u) (issueTokenPair e u meta None) w2 = (Inr tp, w')"
    unfolding verifyLoginOtp_def Let_def thn_ok bnd_ok by auto
  have "userSuspensions (w_db w2) = userSuspensions (w_db w)"
    using findOrCreateUser_frame [OF f] v by (auto simp: verifyOtp_success)
  with issue_unsuspended [OF i] active_suspension_frame [of "w_db w2" "w_db w"] show ?thesis by simp
next
  assume r: "refresh e tok meta w = (Inr tp, w')"
  show ?thesis
  proof (cases "find_token (w_db w) (sha256 e tok)")
    case None
    then have "find_token (revoke_tokens e (\<lambda>x. rt_tokenHash x = sha256 e tok) (w_db w)) (sha256 e tok) = None"
      by (simp add: find_token_revoke)
    with r show ?thesis by (auto simp: refresh_def Let_def ok_simps split: if_splits)
  next
    case (Some t)
    show ?thesis
    proof (cases "rt_revokedAt t")
      case None
      let ?w1 = "w\<lparr>w_db := revoke_tokens e (\<lambda>x. rt_tokenHash x = sha256 e tok) (w_db w)\<rparr>"
      from r refresh_live_ok [OF Some None]
      have "thn (throwIfSuspended e (rt_userId t)) (issueTokenPair e (rt_userId t) meta (Some (rt_familyId t))) ?w1 = (Inr tp, w')"
        by (simp add: Let_def)
      from issue_unsuspended [OF this] active_suspension_frame [of "w_db ?w1" "w_db w"] show ?thesis by simp
    next
      case (Some rv)
      from r refresh_revoked_run [OF \<open>find_token (w_db w) (sha256 e tok) = Some t\<close> Some assms(2)]
      have "thn (throwIfSuspended e (rt_userId t)) (issueTokenPair e (rt_userId t) meta (Some (rt_familyId t))) w = (Inr tp, w')"
        by (simp split: if_splits)
      from issue_unsuspended [OF this] show ?thesis .
    qed
  qed
qed

text \<open>No session for a suspended account.  Whoever obtains a token pair, by a login code or by a refresh,
  has no active suspension, and holds a live token stored for that user.\<close>

lemma sessions_only_unsuspended:
  assumes "verifyLoginOtp e p code meta w = (Inr tp, w') \<or> refresh e tok meta w = (Inr tp, w')"
    and "token_inv (w_db w)"
  shows "active_suspension e (w_db w) (tp_userId tp) = None
    \<and> (\<exists>t\<in>set (refreshTokens (w_db w')). rt_userId t = tp_userId tp \<and> rt_revokedAt t = None
         \<and> rt_tokenHash t = sha256 e (tp_refreshToken tp))"
  by (rule issued_unsuspended [OF assms])

lemma starts_with_iff: "starts_with s p \<longleftrightarrow> (\<exists>r. s = p @ r)"
  by (induction s p rule: starts_with.induct) auto

lemma guard_admits:
  "canActivate e verify header w = (Inr u, w') \<longleftrightarrow> w' = w \<and>
     (\<exists>tok s usr. header = Some (''Bearer '' @ tok) \<and> verify tok = Some (au_userId u, au_sessionId u)
        \<and> find_session (w_db w) (au_sessionId u) = Some s \<and> rt_userId s = au_userId u
        \<and> rt_revokedAt s = None \<and> now e < rt_expiresAt s
        \<and> find_user (w_db w) (au_userId u) = Some usr \<and> u_status usr \<noteq> SUSPENDED \<and> au_role u = u_role usr)"
  by (cases header; cases u) (auto simp: canActivate_def Let_def ok_simps starts_with_iff split: if_splits option.splits)


lemma consume_tx_ok:
  assumes "consume_tx e h sock w = (Inr r, w')"
  obtains t s where "find_ticket (w_db w) h = Some t" "tk_consumedAt t = None" "now e < tk_expiresAt t"
    "find_session (w_db w) (tk_sessionId t) = Some s" "rt_revokedAt s = None" "now e < rt_expiresAt s"
    "active_device (w_db w) (tk_userId t) (tk_deviceId t)" "r = (tk_userId t, tk_deviceId t, tk_sessionId t)"
    "socketTickets (w_db w') = update_where (\<lambda>x. tk_id x = tk_id t)
       (\<lambda>x. x\<lparr>tk_consumedAt := Some (now e), tk_consumedBy := Some sock\<rparr>) (socketTickets (w_db w))"
  using assms unfolding consume_tx_def by (auto simp: ok_simps)



section \<open>Things that work once\<close>

text \<open>The contract of a one-shot token: a use that succeeds spends it, a spent one is refused, and no other use
  revives it.  Then, in any sequence of uses by anyone, at most one use of it succeeds.\<close>

fun successes :: "('c \<Rightarrow> 'k \<Rightarrow> 'w \<Rightarrow> ('e + 'a) \<times> 'w) \<Rightarrow> 'k \<Rightarrow> ('c \<times> 'k) list \<Rightarrow> 'w \<Rightarrow> nat" where
  "successes act k [] w = 0"
| "successes act k ((c, j) # cs) w =
     (if j = k \<and> \<not> isl (fst (act c j w)) then 1 else 0) + successes act k cs (snd (act c j w))"

locale one_shot =
  fixes act :: "'c \<Rightarrow> 'k \<Rightarrow> 'w \<Rightarrow> ('e + 'a) \<times> 'w"
    and inv :: "'w \<Rightarrow> bool"
    and spent :: "'w \<Rightarrow> 'k \<Rightarrow> bool"
  assumes keeps_inv: "inv w \<Longrightarrow> inv (snd (act c k w))"
    and spends: "inv w \<Longrightarrow> act c k w = (Inr x, w') \<Longrightarrow> spent w' k"
    and refuses: "inv w \<Longrightarrow> spent w k \<Longrightarrow> isl (fst (act c k w))"
    and stays: "inv w \<Longrightarrow> spent w k \<Longrightarrow> spent (snd (act c j w)) k"
begin

lemma none_when_spent: "inv w \<Longrightarrow> spent w k \<Longrightarrow> successes act k cs w = 0"
proof (induction cs arbitrary: w)
  case (Cons p cs)
  then show ?case by (cases p) (auto simp: refuses keeps_inv stays)
qed simp

lemma at_most_once: "inv w \<Longrightarrow> successes act k cs w \<le> 1"
proof (induction cs arbitrary: w)
  case (Cons p cs)
  obtain c j where p: "p = (c, j)" by (cases p)
  show ?case
  proof (cases "j = k \<and> \<not> isl (fst (act c j w))")
    case True
    then obtain x w' where r: "act c k w = (Inr x, w')" by (cases "act c k w"; cases "fst (act c k w)") auto
    then have "spent w' k" "inv w'" using spends [OF Cons.prems] keeps_inv [OF Cons.prems, of c k] by auto
    with r True show ?thesis by (simp add: p none_when_spent)
  next
    case False
    then show ?thesis using Cons.IH keeps_inv [OF Cons.prems] by (auto simp: p)
  qed
qed simp

end

definition ticket_inv :: "db \<Rightarrow> bool" where
  "ticket_inv d \<longleftrightarrow> distinct (map tk_id (socketTickets d)) \<and> distinct (map tk_tokenHash (socketTickets d))"

definition ticket_spent :: "db \<Rightarrow> string \<Rightarrow> bool" where
  "ticket_spent d h \<longleftrightarrow> (\<exists>t. find_ticket d h = Some t \<and> tk_consumedAt t \<noteq> None)"

text \<open>One use of a ticket: at a time, by a socket.\<close>

definition use_ticket :: "env \<Rightarrow> time \<times> string \<Rightarrow> string \<Rightarrow> (uuid \<times> uuid \<times> uuid) svc" where
  "use_ticket e c ticket = consumeSocketTicket (e\<lparr>now := fst c\<rparr>) ticket (snd c)"

lemma consume_effect:
  assumes "consumeSocketTicket e ticket sock w = (r, w')"
  shows "socketTickets (w_db w') = socketTickets (w_db w) \<and> isl r
    \<or> (\<exists>t. find_ticket (w_db w) (sha256 e ticket) = Some t \<and> tk_consumedAt t = None \<and> \<not> isl r
        \<and> socketTickets (w_db w') = update_where (\<lambda>x. tk_id x = tk_id t)
            (\<lambda>x. x\<lparr>tk_consumedAt := Some (now e), tk_consumedBy := Some sock\<rparr>) (socketTickets (w_db w)))"
proof (cases r)
  case (Inl er)
  with assms tx_err_db [of "consume_tx e (sha256 e ticket) sock" w er w'] show ?thesis
    by (simp add: consumeSocketTicket_def)
next
  case (Inr x)
  with assms have "consume_tx e (sha256 e ticket) sock w = (Inr x, w')" by (simp add: consumeSocketTicket_def tx_ok)
  then show ?thesis by (rule consume_tx_ok) (use Inr in auto)
qed

lemma find_ticket_updated:
  "socketTickets d' = update_where p (\<lambda>x. x\<lparr>tk_consumedAt := a, tk_consumedBy := b\<rparr>) (socketTickets d) \<Longrightarrow>
   find_ticket d' h = map_option (\<lambda>t. if p t then t\<lparr>tk_consumedAt := a, tk_consumedBy := b\<rparr> else t) (find_ticket d h)"
  by (simp add: find_ticket_def find_update_where)

lemma find_ticket_frame: "socketTickets d' = socketTickets d \<Longrightarrow> find_ticket d' h = find_ticket d h"
  by (simp add: find_ticket_def)

lemma use_ticket_effect:
  "socketTickets (w_db (snd (use_ticket e c j w))) = socketTickets (w_db w) \<and> isl (fst (use_ticket e c j w))
    \<or> (\<exists>t. find_ticket (w_db w) (sha256 e j) = Some t \<and> tk_consumedAt t = None \<and> \<not> isl (fst (use_ticket e c j w))
        \<and> socketTickets (w_db (snd (use_ticket e c j w))) = update_where (\<lambda>x. tk_id x = tk_id t)
            (\<lambda>x. x\<lparr>tk_consumedAt := Some (fst c), tk_consumedBy := Some (snd c)\<rparr>) (socketTickets (w_db w)))"
  using consume_effect [of "e\<lparr>now := fst c\<rparr>" j "snd c" w "fst (use_ticket e c j w)" "snd (use_ticket e c j w)"]
  by (simp add: use_ticket_def)

lemma use_ticket_spends:
  assumes "\<not> isl (fst (use_ticket e c j w))"
  shows "ticket_spent (w_db (snd (use_ticket e c j w))) (sha256 e j)"
proof -
  obtain t where t: "find_ticket (w_db w) (sha256 e j) = Some t"
      "socketTickets (w_db (snd (use_ticket e c j w))) = update_where (\<lambda>x. tk_id x = tk_id t)
            (\<lambda>x. x\<lparr>tk_consumedAt := Some (fst c), tk_consumedBy := Some (snd c)\<rparr>) (socketTickets (w_db w))"
    using use_ticket_effect [of e c j w] assms by blast
  show ?thesis using t(1) find_ticket_updated [OF t(2)] by (simp add: ticket_spent_def)
qed

lemma use_ticket_stays:
  assumes "ticket_spent (w_db w) h"
  shows "ticket_spent (w_db (snd (use_ticket e c j w))) h"
  using use_ticket_effect [of e c j w]
proof (elim disjE exE conjE)
  assume "socketTickets (w_db (snd (use_ticket e c j w))) = socketTickets (w_db w)"
  with assms find_ticket_frame show ?thesis by (metis ticket_spent_def)
next
  fix t assume t: "socketTickets (w_db (snd (use_ticket e c j w))) = update_where (\<lambda>x. tk_id x = tk_id t)
            (\<lambda>x. x\<lparr>tk_consumedAt := Some (fst c), tk_consumedBy := Some (snd c)\<rparr>) (socketTickets (w_db w))"
  obtain x where "find_ticket (w_db w) h = Some x" "tk_consumedAt x \<noteq> None"
    using assms by (auto simp: ticket_spent_def)
  then show ?thesis using find_ticket_updated [OF t, of h] by (simp add: ticket_spent_def)
qed

interpretation ticket: one_shot "use_ticket e" "\<lambda>w. ticket_inv (w_db w)" "\<lambda>w t. ticket_spent (w_db w) (sha256 e t)"
proof
  fix w c k j x w'
  show "ticket_inv (w_db w) \<Longrightarrow> ticket_inv (w_db (snd (use_ticket e c k w)))"
    using use_ticket_effect [of e c k w] by (auto simp: ticket_inv_def map_update_where)
  show "use_ticket e c k w = (Inr x, w') \<Longrightarrow> ticket_spent (w_db w') (sha256 e k)"
    using use_ticket_spends [of e c k w] by simp
  show "ticket_spent (w_db w) (sha256 e k) \<Longrightarrow> isl (fst (use_ticket e c k w))"
    using use_ticket_effect [of e c k w] by (auto simp: ticket_spent_def)
  show "ticket_spent (w_db w) (sha256 e k) \<Longrightarrow> ticket_spent (w_db (snd (use_ticket e c j w))) (sha256 e k)"
    by (rule use_ticket_stays)
qed

text \<open>A socket ticket opens one connection.  In any sequence of attempts, by any sockets at any times, with this
  and other tickets, at most one attempt to consume a given ticket succeeds.\<close>

theorem socket_ticket_once:
  assumes "ticket_inv (w_db w)"
  shows "successes (use_ticket e) ticket attempts w \<le> 1"
  using assms by (rule ticket.at_most_once)

definition demo_ticket_world :: world where
  "demo_ticket_world = snd (createSocketTicket demo_env \<lparr>au_userId = ''ann'', au_sessionId = ''s1'', au_role = USER\<rparr> ''a1'' demo_session_world)"

theorem socket_ticket_once_witness:
  "successes (use_ticket demo_env) ''i0'' [((1000001, ''x''), ''i0''), ((1000002, ''y''), ''i0'')] demo_ticket_world = 1"
proof -
  have "ticket_inv (w_db demo_ticket_world)" unfolding ticket_inv_def by code_simp
  from socket_ticket_once [OF this, of demo_env "''i0''" "[((1000001, ''x''), ''i0''), ((1000002, ''y''), ''i0'')]"]
  have "successes (use_ticket demo_env) ''i0'' [((1000001, ''x''), ''i0''), ((1000002, ''y''), ''i0'')] demo_ticket_world \<le> 1" .
  moreover have "0 < successes (use_ticket demo_env) ''i0'' [((1000001, ''x''), ''i0''), ((1000002, ''y''), ''i0'')] demo_ticket_world"
    by code_simp
  ultimately show ?thesis by linarith
qed

end
