(* ===== verification/Moderation.thy ===== *)
theory Moderation
  imports Auth "HOL-Library.Product_Lexorder"
begin

text \<open>
  Reports and sanctions: \<open>src/moderation/services/reports.service.ts\<close>, \<open>moderation.service.ts\<close>,
  \<open>audit-log.service.ts\<close>, \<open>suspension-reactivation.service.ts\<close>, \<open>admin-bootstrap.service.ts\<close>,
  \<open>admin-users.service.ts\<close> and the role guard of the administration controller.  The counters of Redis are
  keyed by the date of the call, so their expiry (after the date has passed) is not modelled; Prisma's
  \<open>@updatedAt\<close> column is set by every update that has data.  The dash in two error texts is written in ASCII.
\<close>

section \<open>Orders of the enumerations\<close>

text \<open>The database orders an enumeration by the position of its values, which for a report is the order in
  which it is processed.\<close>

fun status_rank :: "ReportStatus \<Rightarrow> nat" where
  "status_rank OPEN = 0"
| "status_rank IN_REVIEW = 1"
| "status_rank CLOSED = 2"

instantiation ReportStatus :: linorder
begin

definition less_eq_ReportStatus :: "ReportStatus \<Rightarrow> ReportStatus \<Rightarrow> bool" where
  "a \<le> b \<longleftrightarrow> status_rank a \<le> status_rank b"

definition less_ReportStatus :: "ReportStatus \<Rightarrow> ReportStatus \<Rightarrow> bool" where
  "a < b \<longleftrightarrow> status_rank a < status_rank b"

instance
proof
  fix a b :: ReportStatus
  assume "a \<le> b" and "b \<le> a"
  then show "a = b" by (cases a; cases b) (auto simp: less_eq_ReportStatus_def)
qed (auto simp: less_eq_ReportStatus_def less_ReportStatus_def)

end

fun roleRank :: "UserRole \<Rightarrow> int" where
  "roleRank ADMIN = 2"
| "roleRank MODERATOR = 1"
| "roleRank USER = 0"

section \<open>\<open>AuditLogService\<close>\<close>

record audit_filter =
  af_action :: "AdminAuditAction option"
  af_targetType :: "AdminAuditTargetType option"
  af_actorUserId :: "string option"
  af_targetId :: "string option"
  af_from :: "time option"
  af_to :: "time option"
  af_searchText :: "string option"
  af_cursor :: "string option"
  af_limit :: nat

text \<open>\<open>{ contains: s, mode: 'insensitive' }\<close>\<close>

fun contains :: "string \<Rightarrow> string \<Rightarrow> bool" where
  "contains s [] = starts_with [] s"
| "contains s (c # cs) = (starts_with (c # cs) s \<or> contains s cs)"

definition contains_ci :: "string \<Rightarrow> string option \<Rightarrow> bool" where
  "contains_ci s c = (case c of None \<Rightarrow> False | Some t \<Rightarrow> contains (toLowerCase s) (toLowerCase t))"

definition audit_search :: "audit_filter \<Rightarrow> string option" where
  "audit_search f = (case map_option trim (af_searchText f) of
     None \<Rightarrow> None | Some trimmed \<Rightarrow> if 3 \<le> length trimmed then Some trimmed else None)"

text \<open>A filter key that is absent, or a string that is empty, does not restrict the result.\<close>

definition unless :: "'a option \<Rightarrow> ('a \<Rightarrow> bool) \<Rightarrow> bool" where
  "unless o' p = (case o' of None \<Rightarrow> True | Some v \<Rightarrow> p v)"

definition unless_str :: "string option \<Rightarrow> (string \<Rightarrow> bool) \<Rightarrow> bool" where
  "unless_str o' p = (truthy o' \<longrightarrow> p (coalesce o' []))"

definition audit_selects :: "audit_filter \<Rightarrow> audit_row \<Rightarrow> bool" where
  "audit_selects f r \<longleftrightarrow> unless (af_action f) (\<lambda>a. al_action r = a) \<and> unless (af_targetType f) (\<lambda>t. al_targetType r = t)
     \<and> unless_str (af_actorUserId f) (\<lambda>u. al_actorUserId r = Some u) \<and> unless_str (af_targetId f) (\<lambda>u. al_targetId r = u)
     \<and> unless (audit_search f) (\<lambda>s. contains_ci s (al_reason r))
     \<and> unless (af_from f) (\<lambda>t. t \<le> al_createdAt r) \<and> unless (af_to f) (\<lambda>t. al_createdAt r \<le> t)"

text \<open>\<open>...(cursor && { cursor: { id: cursor }, skip: 1 })\<close>: the rows after the one with that id\<close>

definition after_cursor :: "('r \<Rightarrow> uuid) \<Rightarrow> string option \<Rightarrow> 'r list \<Rightarrow> 'r list" where
  "after_cursor rid cursor rs = (if truthy cursor then drop 1 (dropWhile (\<lambda>r. rid r \<noteq> coalesce cursor []) rs) else rs)"

text \<open>One row more than the page is fetched, to know whether there is a next page.\<close>

definition cut_page :: "('r \<Rightarrow> uuid) \<Rightarrow> nat \<Rightarrow> 'r list \<Rightarrow> 'r list \<times> uuid option" where
  "cut_page rid limit items =
     (let hasMore = limit < length items; slice = (if hasMore then take limit items else items) in
      (slice, if hasMore then Some (rid (last slice)) else None))"

definition audit_list :: "audit_filter \<Rightarrow> (audit_row list \<times> uuid option) svc" where
  "audit_list f = dbget (\<lambda>d. cut_page al_id (af_limit f) (take (af_limit f + 1)
     (after_cursor al_id (af_cursor f) (rev (sort_key al_id (filter (audit_selects f) (adminAuditLog d)))))))"

text \<open>An audit row whose value is not used\<close>

definition audit :: "env \<Rightarrow> uuid option \<Rightarrow> AdminAuditAction \<Rightarrow> AdminAuditTargetType \<Rightarrow> uuid \<Rightarrow> string option \<Rightarrow> json \<Rightarrow> unit svc" where
  "audit e actor action targetType targetId reason metadata =
     bnd (audit_write e actor action targetType targetId reason metadata) (\<lambda>_. ret ())"

definition jopt :: "string option \<Rightarrow> json" where
  "jopt o' = (case o' of None \<Rightarrow> JNull | Some s \<Rightarrow> JStr s)"

section \<open>\<open>ReportsService\<close>\<close>

record create_report_dto =
  cr_messageId :: uuid
  cr_reason :: ReportReason
  cr_freeText :: "string option"

definition find_report :: "db \<Rightarrow> uuid \<Rightarrow> report_row option" where
  "find_report d i = List.find (\<lambda>r. rp_id r = i) (reports d)"

subsection \<open>Dates\<close>

text \<open>\<open>new Date().toISOString()\<close> without its separators, for the years 0 to 9999 of the proleptic Gregorian
  calendar: the days since 0000-03-01 are divided into eras of 400 years, years of an era that start in
  March, and months.\<close>

definition civil :: "int \<Rightarrow> int \<times> int \<times> int" where
  "civil days =
     (let z = days + 719468; era = z div 146097; doe = z mod 146097;
          yoe = (doe - doe div 1460 + doe div 36524 - doe div 146096) div 365;
          doy = doe - (365 * yoe + yoe div 4 - yoe div 100);
          mp = (5 * doy + 2) div 153;
          d = doy - (153 * mp + 2) div 5 + 1;
          mo = (if mp < 10 then mp + 3 else mp - 9) in
      (yoe + era * 400 + (if mo \<le> 2 then 1 else 0), mo, d))"

definition iso_day :: "time \<Rightarrow> string" where
  "iso_day t = (case civil (t div 86400000) of (y, mo, d) \<Rightarrow>
     padStart0 4 (show_int y) @ padStart0 2 (show_int mo) @ padStart0 2 (show_int d))"

definition iso_minute :: "time \<Rightarrow> string" where
  "iso_minute t = (let minutes = (t mod 86400000) div 60000 in
     iso_day t @ padStart0 2 (show_int (minutes div 60)) @ padStart0 2 (show_int (minutes mod 60)))"

subsection \<open>Rate limits\<close>

definition REPORTS_QUEUE_COLLUSION_KEY :: "string \<Rightarrow> string" where
  "REPORTS_QUEUE_COLLUSION_KEY messageId = ''reports:collusion:'' @ messageId"

definition REPORTS_DAILY_KEY :: "string \<Rightarrow> string \<Rightarrow> string" where
  "REPORTS_DAILY_KEY userId yyyymmdd = ''reports:daily:'' @ userId @ '':'' @ yyyymmdd"

definition REPORTS_IP_MINUTE_KEY :: "string \<Rightarrow> string \<Rightarrow> string" where
  "REPORTS_IP_MINUTE_KEY ip yyyyMMddHHmm = ''reports:ip:'' @ ip @ '':'' @ yyyyMMddHHmm"

text \<open>\<open>redis.client.incr(key)\<close>, which answers the new value\<close>

definition redis_incr :: "env \<Rightarrow> string \<Rightarrow> int svc" where
  "redis_incr e key = thn (redis_set e (r_counters_update (\<lambda>c. c(key := Suc (c key)))))
     (redis_get e (\<lambda>r. int (r_counters r key)))"

text \<open>\<open>redis.client.expire(key, ttl)\<close>: the value stays until the time to live has passed\<close>

definition redis_expire :: "env \<Rightarrow> string \<Rightarrow> int \<Rightarrow> unit svc" where
  "redis_expire e key ttl = redis_set e id"

definition checkDailyLimit :: "env \<Rightarrow> uuid \<Rightarrow> int \<Rightarrow> bool svc" where
  "checkDailyLimit e userId limit =
     (let key = REPORTS_DAILY_KEY userId (iso_day (now e)) in
      bnd (redis_incr e key) (\<lambda>count.
      thn (whenA (count = 1) (redis_expire e key (36 * 60 * 60))) (ret (count \<le> limit))))"

definition checkIpRateLimit :: "env \<Rightarrow> string \<Rightarrow> int \<Rightarrow> bool svc" where
  "checkIpRateLimit e ip limit =
     (let key = REPORTS_IP_MINUTE_KEY ip (iso_minute (now e)) in
      bnd (redis_incr e key) (\<lambda>count.
      thn (whenA (count = 1) (redis_expire e key 90)) (ret (count \<le> limit))))"

text \<open>The window (one hour unless configured) only sets how long the counter lives.\<close>

definition trackCollusion :: "env \<Rightarrow> uuid \<Rightarrow> unit svc" where
  "trackCollusion e messageId =
     (let key = REPORTS_QUEUE_COLLUSION_KEY messageId in
      bnd (redis_incr e key) (\<lambda>count. whenA (count = 1) (redis_expire e key (1 * 60 * 60))))"

definition daily_limit :: "env \<Rightarrow> int" where
  "daily_limit e = coalesce (REPORTS_DAILY_LIMIT (cfg e)) 200"

definition ip_limit :: "env \<Rightarrow> int" where
  "ip_limit e = coalesce (REPORTS_PER_IP_PER_MINUTE (cfg e)) 50"

subsection \<open>Filing and reading\<close>

text \<open>Who may report a message: a participant of its thread or a member of its group.\<close>

definition report_access :: "db \<Rightarrow> uuid \<Rightarrow> message_row \<Rightarrow> error option" where
  "report_access d reporterUserId message = (case m_threadId message of
     Some t \<Rightarrow> (case find_thread d t of
         Some th \<Rightarrow> if th_userAId th = reporterUserId \<or> th_userBId th = reporterUserId then None
                    else Some (Forbidden ''Only thread participants can report messages in a direct thread'')
       | None \<Rightarrow> Some (Forbidden ''Only thread participants can report messages in a direct thread''))
   | None \<Rightarrow> (case m_groupId message of
         Some g \<Rightarrow> if find_member d g reporterUserId \<noteq> None then None
                   else Some (Forbidden ''Only group members can report messages in a group'')
       | None \<Rightarrow> None))"

definition new_report :: "env \<Rightarrow> uuid \<Rightarrow> uuid \<Rightarrow> create_report_dto \<Rightarrow> report_row" where
  "new_report e i reporterUserId dto = \<lparr>rp_id = i, rp_reporterUserId = reporterUserId, rp_messageId = cr_messageId dto,
     rp_reason = cr_reason dto, rp_freeText = cr_freeText dto, rp_status = OPEN, rp_resolution = None,
     rp_reviewedByUserId = None, rp_reviewedAt = None, rp_createdAt = now e, rp_updatedAt = now e\<rparr>"

text \<open>\<open>report.upsert({ update: {}, create })\<close>: a report of the same user about the same message is returned
  as it is.\<close>

definition upsert_report :: "env \<Rightarrow> uuid \<Rightarrow> create_report_dto \<Rightarrow> report_row svc" where
  "upsert_report e reporterUserId dto =
     bnd (dbget (\<lambda>d. List.find (\<lambda>r. rp_reporterUserId r = reporterUserId \<and> rp_messageId r = cr_messageId dto) (reports d))) (\<lambda>found.
     case found of
       Some r \<Rightarrow> ret r
     | None \<Rightarrow> bnd (fresh e) (\<lambda>i. bnd (dbget (\<lambda>d. find_report d i)) (\<lambda>clash.
         thn (ensure (clash = None) (PrismaError ''P2002''))
        (thn (dbset (reports_update (\<lambda>rs. rs @ [new_report e i reporterUserId dto])))
             (ret (new_report e i reporterUserId dto))))))"

definition check_limits :: "env \<Rightarrow> user_row \<Rightarrow> uuid \<Rightarrow> string option \<Rightarrow> unit svc" where
  "check_limits e reporter reporterUserId clientIp = whenA (u_role reporter = USER)
     (bnd (checkDailyLimit e reporterUserId (daily_limit e)) (\<lambda>allowed.
      thn (ensure allowed (Conflict (''Daily report limit of '' @ show_int (daily_limit e) @ '' reached'')))
          (whenA (truthy clientIp)
            (bnd (checkIpRateLimit e (coalesce clientIp []) (ip_limit e)) (\<lambda>ipAllowed.
             ensure ipAllowed (Conflict (''Report rate limit of '' @ show_int (ip_limit e) @ ''/minute reached for this IP'')))))))"

definition createReport :: "env \<Rightarrow> uuid \<Rightarrow> create_report_dto \<Rightarrow> string option \<Rightarrow> report_row svc" where
  "createReport e reporterUserId dto clientIp =
     bnd (dbget (\<lambda>d. find_user d reporterUserId)) (\<lambda>foundUser.
     bnd (require foundUser (NotFound ''Reporter user not found'')) (\<lambda>reporter.
     thn (ensure (u_status reporter \<noteq> SUSPENDED) (Forbidden ''Suspended users cannot file reports''))
    (bnd (dbget (\<lambda>d. find_message d (cr_messageId dto))) (\<lambda>foundMessage.
     bnd (require foundMessage (NotFound ''Message not found'')) (\<lambda>message.
     thn (ensure (m_deletedAt message = None) (BadRequest ''Cannot report a deleted message''))
    (thn (ensure (m_senderUserId message \<noteq> reporterUserId) (BadRequest ''Cannot report your own message''))
    (bnd (dbget (\<lambda>d. report_access d reporterUserId message)) (\<lambda>denied.
     thn (case denied of Some er \<Rightarrow> throw er | None \<Rightarrow> ret ())
    (thn (check_limits e reporter reporterUserId clientIp)
    (bnd (upsert_report e reporterUserId dto) (\<lambda>report.
     thn (whenA (rp_createdAt report = rp_updatedAt report) (catch_ignore (trackCollusion e (cr_messageId dto))))
         (ret report))))))))))))"

text \<open>\<open>Math.min(Math.max(limit, 1), 100)\<close>\<close>

definition clamp :: "int \<Rightarrow> nat" where
  "clamp limit = nat (min (max limit 1) 100)"

definition listMine :: "uuid \<Rightarrow> int \<Rightarrow> report_row list svc" where
  "listMine userId limit = dbget (\<lambda>d. take (clamp limit)
     (order_desc rp_createdAt (filter (\<lambda>r. rp_reporterUserId r = userId) (reports d))))"

record reports_query =
  rq_status :: "ReportStatus option"
  rq_reason :: "ReportReason option"
  rq_cursor :: "string option"
  rq_limit :: "int option"

definition report_selects :: "reports_query \<Rightarrow> report_row \<Rightarrow> bool" where
  "report_selects q r \<longleftrightarrow> unless (rq_status q) (\<lambda>s. rp_status r = s) \<and> unless (rq_reason q) (\<lambda>s. rp_reason r = s)"

definition report_queue :: "reports_query \<Rightarrow> db \<Rightarrow> report_row list" where
  "report_queue q d = sort_key (\<lambda>r. (rp_status r, rp_createdAt r)) (filter (report_selects q) (reports d))"

definition listReports :: "reports_query \<Rightarrow> (report_row list \<times> uuid option) svc" where
  "listReports q = (let limit = clamp (coalesce (rq_limit q) 20) in
     dbget (\<lambda>d. cut_page rp_id limit (take (limit + 1) (after_cursor rp_id (rq_cursor q) (report_queue q d)))))"

definition getReportById :: "uuid \<Rightarrow> report_row svc" where
  "getReportById reportId = bnd (dbget (\<lambda>d. find_report d reportId)) (\<lambda>found.
     require found (NotFound ''Report not found''))"

subsection \<open>Processing\<close>

definition review_report :: "env \<Rightarrow> uuid \<Rightarrow> report_row \<Rightarrow> report_row" where
  "review_report e actor r = r\<lparr>rp_status := IN_REVIEW, rp_reviewedByUserId := Some actor,
     rp_reviewedAt := Some (now e), rp_updatedAt := now e\<rparr>"

definition close_report :: "env \<Rightarrow> uuid \<Rightarrow> ReportResolution \<Rightarrow> report_row \<Rightarrow> report_row" where
  "close_report e actor res r = r\<lparr>rp_status := CLOSED, rp_resolution := Some res, rp_reviewedByUserId := Some actor,
     rp_reviewedAt := Some (now e), rp_updatedAt := now e\<rparr>"

definition update_report :: "uuid \<Rightarrow> (report_row \<Rightarrow> report_row) \<Rightarrow> report_row svc" where
  "update_report i f = thn (dbset (reports_update (update_where (\<lambda>r. rp_id r = i) f)))
     (bnd (dbget (\<lambda>d. find_report d i)) (\<lambda>found. require found (PrismaError ''P2025'')))"

definition markInReview :: "env \<Rightarrow> uuid \<Rightarrow> uuid \<Rightarrow> report_row svc" where
  "markInReview e actorUserId reportId =
     bnd (dbget (\<lambda>d. find_report d reportId)) (\<lambda>found.
     bnd (require found (NotFound ''Report not found'')) (\<lambda>existing.
     thn (ensure (rp_status existing \<noteq> CLOSED) (BadRequest ''Report is already closed''))
    (if rp_status existing = IN_REVIEW then getReportById reportId
     else bnd (update_report reportId (review_report e actorUserId)) (\<lambda>updated.
          thn (audit e (Some actorUserId) REPORT_REVIEW_START T_REPORT reportId None JNull)
              (ret updated)))))"

definition dismiss :: "env \<Rightarrow> uuid \<Rightarrow> uuid \<Rightarrow> string option \<Rightarrow> report_row svc" where
  "dismiss e actorUserId reportId reason =
     bnd (dbget (\<lambda>d. find_report d reportId)) (\<lambda>found.
     bnd (require found (NotFound ''Report not found'')) (\<lambda>existing.
     thn (ensure (rp_status existing \<noteq> CLOSED) (BadRequest ''Report is already closed''))
    (bnd (update_report reportId (close_report e actorUserId DISMISSED)) (\<lambda>updated.
     thn (audit e (Some actorUserId) REPORT_DISMISS T_REPORT reportId reason JNull)
         (ret updated)))))"

section \<open>\<open>ModerationService\<close>\<close>

record tombstone_dto =
  td_reason :: "string option"
  td_reportId :: "string option"

record suspend_dto =
  sd_reason :: "string option"
  sd_expiresAt :: "time option"
  sd_reportId :: "string option"

definition report_open :: "report_row \<Rightarrow> bool" where
  "report_open r \<longleftrightarrow> rp_status r = OPEN \<or> rp_status r = IN_REVIEW"

text \<open>\<open>report.updateMany({ where: { ..., status: { in: [OPEN, IN_REVIEW] } }, data: { status: CLOSED, ... } })\<close>\<close>

definition close_reports :: "env \<Rightarrow> uuid \<Rightarrow> ReportResolution \<Rightarrow> (report_row \<Rightarrow> bool) \<Rightarrow> unit svc" where
  "close_reports e actor res p =
     dbset (reports_update (update_where (\<lambda>r. p r \<and> report_open r) (close_report e actor res)))"

definition touch_report :: "env \<Rightarrow> uuid \<Rightarrow> report_row \<Rightarrow> report_row" where
  "touch_report e actor r = r\<lparr>rp_reviewedByUserId := Some actor, rp_reviewedAt := Some (now e), rp_updatedAt := now e\<rparr>"

definition cascadeCloseReports :: "env \<Rightarrow> uuid \<Rightarrow> uuid \<Rightarrow> uuid \<Rightarrow> ReportResolution \<Rightarrow> unit svc" where
  "cascadeCloseReports e messageId triggerReportId actorUserId resolution =
     thn (close_reports e actorUserId resolution (\<lambda>r. rp_messageId r = messageId))
    (bnd (update_report triggerReportId (touch_report e actorUserId)) (\<lambda>_. ret ()))"

definition emitTombstoned :: "env \<Rightarrow> tombstoned_event \<Rightarrow> unit svc" where
  "emitTombstoned e message = thn (publish e (PubMessageTombstoned message)) (emit (EvTombstonedPlatform message))"

definition emitUserKicked :: "env \<Rightarrow> uuid \<Rightarrow> string \<Rightarrow> unit svc" where
  "emitUserKicked e userId reason = publish e (PubUserKicked userId reason (now e))"

definition tombstone_tx :: "env \<Rightarrow> uuid \<Rightarrow> uuid \<Rightarrow> tombstone_dto \<Rightarrow> time svc" where
  "tombstone_tx e actorUserId messageId dto =
     thn (dbset (messages_update (tombstone (now e) messageId)))
    (thn (if truthy (td_reportId dto)
          then cascadeCloseReports e messageId (coalesce (td_reportId dto) []) actorUserId AUTO_CLOSED_TOMBSTONED
          else close_reports e actorUserId AUTO_CLOSED_TOMBSTONED (\<lambda>r. rp_messageId r = messageId))
    (thn (audit e (Some actorUserId) MESSAGE_TOMBSTONE T_MESSAGE messageId (td_reason dto)
           (JObj [(''scope'', JStr ''platform''), (''reportId'', jopt (td_reportId dto))]))
         (ret (now e))))"

definition tombstoneMessage :: "env \<Rightarrow> uuid \<Rightarrow> UserRole \<Rightarrow> uuid \<Rightarrow> tombstone_dto \<Rightarrow> (uuid \<times> time) svc" where
  "tombstoneMessage e actorUserId actorRole messageId dto =
     thn (ensure (actorRole = MODERATOR \<or> actorRole = ADMIN) (Forbidden ''Moderator or admin role required''))
    (bnd (dbget (\<lambda>d. find_message d messageId)) (\<lambda>found.
     bnd (require found (NotFound ''Message not found'')) (\<lambda>message.
     thn (ensure (m_deletedAt message = None) (Conflict ''Message is already tombstoned''))
    (bnd (tx (tombstone_tx e actorUserId messageId dto)) (\<lambda>tombstonedAt.
     thn (catch_ignore (emitTombstoned e \<lparr>te_messageId = messageId, te_threadId = m_threadId message,
            te_groupId = m_groupId message, te_senderUserId = m_senderUserId message,
            te_tombstonedBy = actorUserId, te_at = tombstonedAt\<rparr>))
         (ret (messageId, tombstonedAt)))))))"

definition restore_message :: "uuid \<Rightarrow> message_row list \<Rightarrow> message_row list" where
  "restore_message messageId = update_where (\<lambda>m. m_id m = messageId) (\<lambda>m. m\<lparr>m_deletedAt := None\<rparr>)"

definition untombstoneMessage :: "env \<Rightarrow> uuid \<Rightarrow> UserRole \<Rightarrow> uuid \<Rightarrow> string option \<Rightarrow> message_row svc" where
  "untombstoneMessage e actorUserId actorRole messageId reason =
     thn (ensure (actorRole = ADMIN) (Forbidden ''Admin role required''))
    (bnd (dbget (\<lambda>d. find_message d messageId)) (\<lambda>found.
     bnd (require found (NotFound ''Message not found'')) (\<lambda>message.
     thn (ensure (m_deletedAt message \<noteq> None) (BadRequest ''Message is not tombstoned''))
         (tx (thn (dbset (messages_update (restore_message messageId)))
             (bnd (dbget (\<lambda>d. find_message d messageId)) (\<lambda>foundUpdated.
              bnd (require foundUpdated (PrismaError ''P2025'')) (\<lambda>updated.
              thn (audit e (Some actorUserId) MESSAGE_UNTOMBSTONE T_MESSAGE messageId reason JNull)
                  (ret updated)))))))))"

subsection \<open>Suspensions\<close>

definition new_suspension :: "env \<Rightarrow> uuid \<Rightarrow> uuid \<Rightarrow> uuid \<Rightarrow> suspend_dto \<Rightarrow> suspension_row" where
  "new_suspension e i target actor dto = \<lparr>su_id = i, su_userId = target, su_suspendedByUserId = actor,
     su_reason = coalesce (sd_reason dto) ''No reason provided'', su_suspendedAt = now e, su_expiresAt = sd_expiresAt dto,
     su_revokedAt = None, su_revokedByUserId = None, su_revokeReason = None\<rparr>"

definition strike :: "env \<Rightarrow> user_row \<Rightarrow> user_row" where
  "strike e u = u\<lparr>u_status := SUSPENDED, u_strikeCount := u_strikeCount u + 1, u_lastStrikeAt := Some (now e), u_updatedAt := now e\<rparr>"

text \<open>\<open>user.update({ where: { id }, data })\<close>\<close>

definition update_user :: "uuid \<Rightarrow> (user_row \<Rightarrow> user_row) \<Rightarrow> user_row svc" where
  "update_user i f = thn (dbset (users_update (update_where (\<lambda>u. u_id u = i) f)))
     (bnd (dbget (\<lambda>d. find_user d i)) (\<lambda>found. require found (PrismaError ''P2025'')))"

definition create_suspension :: "env \<Rightarrow> uuid \<Rightarrow> uuid \<Rightarrow> suspend_dto \<Rightarrow> uuid svc" where
  "create_suspension e target actor dto = bnd (fresh e) (\<lambda>i. bnd (dbget id) (\<lambda>d.
     thn (ensure (\<not> exists_where (\<lambda>s. su_id s = i) (userSuspensions d)) (PrismaError ''P2002''))
    (thn (ensure (find_user d target \<noteq> None \<and> find_user d actor \<noteq> None) (PrismaError ''P2003''))
    (thn (dbset (userSuspensions_update (\<lambda>xs. xs @ [new_suspension e i target actor dto]))) (ret i)))))"

definition live_messages :: "uuid \<Rightarrow> db \<Rightarrow> uuid list" where
  "live_messages target d = map m_id (filter (\<lambda>m. m_senderUserId m = target \<and> m_deletedAt m = None) (messages d))"

text \<open>Tombstoning every message of the suspended user, with the reports about them and an audit row for each\<close>

definition tombstone_all :: "env \<Rightarrow> uuid \<Rightarrow> uuid \<Rightarrow> uuid list \<Rightarrow> unit svc" where
  "tombstone_all e actorUserId suspensionId ids = whenA (ids \<noteq> [])
     (thn (dbset (messages_update (update_where (\<lambda>m. m_id m \<in> set ids) (\<lambda>m. m\<lparr>m_deletedAt := Some (now e)\<rparr>))))
     (thn (close_reports e actorUserId AUTO_CLOSED_SUSPENDED (\<lambda>r. rp_messageId r \<in> set ids))
          (for_each ids (\<lambda>i. audit e (Some actorUserId) MESSAGE_TOMBSTONE T_MESSAGE i None
             (JObj [(''scope'', JStr ''platform''), (''cascadeFrom'', JStr ''USER_SUSPEND''), (''suspensionId'', JStr suspensionId)])))))"

definition close_trigger :: "env \<Rightarrow> uuid \<Rightarrow> string option \<Rightarrow> unit svc" where
  "close_trigger e actorUserId reportId = whenA (truthy reportId)
     (bnd (dbget (\<lambda>d. find_report d (coalesce reportId []))) (\<lambda>report.
      whenA (case report of None \<Rightarrow> False | Some r \<Rightarrow> report_open r)
        (bnd (update_report (coalesce reportId []) (close_report e actorUserId AUTO_CLOSED_SUSPENDED)) (\<lambda>_. ret ()))))"

text \<open>What follows the suspension and the strike: the sessions, the messages and the reports\<close>

definition suspend_cascade :: "env \<Rightarrow> uuid \<Rightarrow> uuid \<Rightarrow> suspend_dto \<Rightarrow> uuid \<Rightarrow> (uuid \<times> nat) svc" where
  "suspend_cascade e actorUserId targetUserId dto suspensionId =
     thn (dbset (revoke_tokens e (\<lambda>t. rt_userId t = targetUserId)))
    (bnd (dbget (live_messages targetUserId)) (\<lambda>ids.
     thn (tombstone_all e actorUserId suspensionId ids)
    (thn (close_trigger e actorUserId (sd_reportId dto))
    (thn (audit e (Some actorUserId) USER_SUSPEND T_USER targetUserId (sd_reason dto)
           (JObj [(''suspensionId'', JStr suspensionId),
                  (''expiresAt'', case sd_expiresAt dto of None \<Rightarrow> JNull | Some t \<Rightarrow> JTime t),
                  (''tombstonedMessageCount'', JNum (int (length ids))), (''reportId'', jopt (sd_reportId dto))]))
         (ret (suspensionId, length ids))))))"

definition suspend_tx :: "env \<Rightarrow> uuid \<Rightarrow> uuid \<Rightarrow> suspend_dto \<Rightarrow> (uuid \<times> nat) svc" where
  "suspend_tx e actorUserId targetUserId dto =
     bnd (create_suspension e targetUserId actorUserId dto) (\<lambda>suspensionId.
     bnd (update_user targetUserId (strike e)) (\<lambda>_.
     suspend_cascade e actorUserId targetUserId dto suspensionId))"

definition suspendUser :: "env \<Rightarrow> uuid \<Rightarrow> UserRole \<Rightarrow> uuid \<Rightarrow> suspend_dto \<Rightarrow> (uuid \<times> nat) svc" where
  "suspendUser e actorUserId actorRole targetUserId dto =
     thn (ensure (actorRole = ADMIN) (Forbidden ''Admin role required to suspend users''))
    (thn (ensure (targetUserId \<noteq> actorUserId) (BadRequest ''You cannot suspend yourself''))
    (bnd (dbget (\<lambda>d. find_user d targetUserId)) (\<lambda>found.
     bnd (require found (NotFound ''User not found'')) (\<lambda>target.
     thn (ensure (u_role target \<noteq> ADMIN) (Forbidden ''Cannot suspend an admin - demote first''))
    (thn (ensure (u_status target \<noteq> SUSPENDED) (Conflict ''User is already suspended''))
    (thn (ensure (case sd_expiresAt dto of None \<Rightarrow> True | Some t \<Rightarrow> now e < t) (BadRequest ''expiresAt must be in the future''))
    (bnd (tx (suspend_tx e actorUserId targetUserId dto)) (\<lambda>result.
     thn (catch_ignore (emitUserKicked e targetUserId ''SUSPENDED''))
         (ret result)))))))))"

text \<open>The audit rows of the next three operations are written outside the transaction that contains the
  call, as its last step: nothing that could undo the transaction follows.\<close>

definition resetStrikes :: "env \<Rightarrow> uuid \<Rightarrow> UserRole \<Rightarrow> uuid \<Rightarrow> string \<Rightarrow> (uuid \<times> int) svc" where
  "resetStrikes e actorUserId actorRole targetUserId reason =
     thn (ensure (actorRole = ADMIN) (Forbidden ''Admin role required to reset strikes''))
    (bnd (dbget (\<lambda>d. find_user d targetUserId)) (\<lambda>found.
     bnd (require found (NotFound ''User not found'')) (\<lambda>target.
     thn (ensure (u_strikeCount target \<noteq> 0) (BadRequest ''User has no strikes to reset''))
         (tx (bnd (update_user targetUserId (\<lambda>u. u\<lparr>u_strikeCount := 0, u_lastStrikeAt := None, u_updatedAt := now e\<rparr>)) (\<lambda>u.
              thn (audit e (Some actorUserId) STRIKE_RESET T_USER targetUserId (Some reason)
                    (JObj [(''previousCount'', JNum (u_strikeCount target))]))
                  (ret (u_id u, u_strikeCount u))))))))"

definition latest_unrevoked :: "db \<Rightarrow> uuid \<Rightarrow> suspension_row option" where
  "latest_unrevoked d userId = first_of (order_desc su_suspendedAt (filter (\<lambda>s. su_userId s = userId \<and> su_revokedAt s = None) (userSuspensions d)))"

definition revoke_suspension :: "time \<Rightarrow> uuid option \<Rightarrow> string option \<Rightarrow> suspension_row \<Rightarrow> suspension_row" where
  "revoke_suspension t actor reason s = s\<lparr>su_revokedAt := Some t, su_revokedByUserId := actor, su_revokeReason := reason\<rparr>"

text \<open>\<open>userSuspension.update({ where: { id }, data })\<close>\<close>

definition update_suspension :: "uuid \<Rightarrow> (suspension_row \<Rightarrow> suspension_row) \<Rightarrow> unit svc" where
  "update_suspension i f = bnd (dbget (\<lambda>d. exists_where (\<lambda>s. su_id s = i) (userSuspensions d))) (\<lambda>found.
     thn (ensure found (PrismaError ''P2025''))
         (dbset (userSuspensions_update (update_where (\<lambda>s. su_id s = i) f))))"

definition lift_suspension :: "env \<Rightarrow> uuid \<Rightarrow> uuid \<Rightarrow> time \<Rightarrow> uuid option \<Rightarrow> string option \<Rightarrow> json \<Rightarrow> unit svc" where
  "lift_suspension e suspensionId userId t actor reason metadata =
     thn (update_suspension suspensionId (revoke_suspension t actor reason))
    (bnd (update_user userId (\<lambda>u. u\<lparr>u_status := ACTIVE, u_updatedAt := now e\<rparr>)) (\<lambda>_.
     audit e actor USER_UNSUSPEND T_USER userId reason metadata))"

definition unsuspendUser :: "env \<Rightarrow> uuid \<Rightarrow> UserRole \<Rightarrow> uuid \<Rightarrow> string option \<Rightarrow> uuid svc" where
  "unsuspendUser e actorUserId actorRole targetUserId reason =
     thn (ensure (actorRole = ADMIN) (Forbidden ''Admin role required to unsuspend users''))
    (bnd (dbget (\<lambda>d. find_user d targetUserId)) (\<lambda>found.
     bnd (require found (NotFound ''User not found'')) (\<lambda>target.
     thn (ensure (u_status target = SUSPENDED) (BadRequest ''User is not suspended''))
    (bnd (dbget (\<lambda>d. latest_unrevoked d targetUserId)) (\<lambda>foundActive.
     bnd (require foundActive (BadRequest ''No active suspension found'')) (\<lambda>active.
     thn (tx (lift_suspension e (su_id active) targetUserId (now e) (Some actorUserId) reason
               (JObj [(''suspensionId'', JStr (su_id active))])))
         (ret (su_id active))))))))"

definition listSuspensions :: "uuid \<Rightarrow> int \<Rightarrow> suspension_row list svc" where
  "listSuspensions targetUserId limit = dbget (\<lambda>d. take (clamp limit)
     (order_desc su_suspendedAt (filter (\<lambda>s. su_userId s = targetUserId) (userSuspensions d))))"

definition getActiveSuspension :: "uuid \<Rightarrow> suspension_row option svc" where
  "getActiveSuspension targetUserId = dbget (\<lambda>d. latest_unrevoked d targetUserId)"

definition role_name :: "UserRole \<Rightarrow> string" where
  "role_name r = (case r of USER \<Rightarrow> ''USER'' | MODERATOR \<Rightarrow> ''MODERATOR'' | ADMIN \<Rightarrow> ''ADMIN'')"

definition changeUserRole :: "env \<Rightarrow> uuid \<Rightarrow> UserRole \<Rightarrow> uuid \<Rightarrow> UserRole \<Rightarrow> string option \<Rightarrow> (uuid \<times> UserRole) svc" where
  "changeUserRole e actorUserId actorRole targetUserId newRole reason =
     thn (ensure (actorRole = ADMIN) (Forbidden ''Admin role required to change user roles''))
    (thn (ensure (newRole = USER \<or> newRole = MODERATOR \<or> newRole = ADMIN) (BadRequest ''Invalid target role''))
    (bnd (dbget (\<lambda>d. find_user d targetUserId)) (\<lambda>found.
     bnd (require found (NotFound ''User not found'')) (\<lambda>target.
     thn (ensure (\<not> (u_status target = SUSPENDED \<and> newRole \<noteq> USER)) (BadRequest ''Cannot promote a suspended user - unsuspend first''))
    (let action = (if roleRank (u_role target) < roleRank newRole then ROLE_PROMOTE else ROLE_DEMOTE) in
     tx (bnd (update_user targetUserId (\<lambda>u. u\<lparr>u_role := newRole, u_updatedAt := now e\<rparr>)) (\<lambda>u.
         thn (audit e (Some actorUserId) action T_USER targetUserId reason
               (JObj [(''from'', JStr (role_name (u_role target))), (''to'', JStr (role_name newRole))]))
             (ret (u_id u, u_role u)))))))))"

section \<open>\<open>SuspensionReactivationService\<close>\<close>

definition expired_suspensions :: "time \<Rightarrow> db \<Rightarrow> suspension_row list" where
  "expired_suspensions t d = filter (\<lambda>s. su_revokedAt s = None
     \<and> (case su_expiresAt s of None \<Rightarrow> False | Some x \<Rightarrow> x < t)) (userSuspensions d)"

definition reactivateOne :: "env \<Rightarrow> suspension_row \<Rightarrow> time \<Rightarrow> unit svc" where
  "reactivateOne e s t = tx (lift_suspension e (su_id s) (su_userId s) t None (Some ''auto: expired'')
     (JObj [(''source'', JStr ''auto-reactivation''), (''suspensionId'', JStr (su_id s)),
            (''expiresAt'', case su_expiresAt s of None \<Rightarrow> JNull | Some x \<Rightarrow> JTime x)]))"

text \<open>The loop: a suspension that fails is logged and the next one is tried.\<close>

fun reactivate_all :: "env \<Rightarrow> time \<Rightarrow> suspension_row list \<Rightarrow> nat \<Rightarrow> nat svc" where
  "reactivate_all e t [] n = ret n"
| "reactivate_all e t (s # ss) n =
     bnd (catching (thn (reactivateOne e s t) (ret (n + 1))) (\<lambda>_. ret n)) (reactivate_all e t ss)"

definition runReactivation :: "env \<Rightarrow> time \<Rightarrow> nat svc" where
  "runReactivation e t = bnd (dbget (expired_suspensions t)) (\<lambda>expired.
     if expired = [] then ret 0 else reactivate_all e t expired 0)"

definition reactivateExpired :: "env \<Rightarrow> unit svc" where
  "reactivateExpired e = bnd (runReactivation e (now e)) (\<lambda>_. ret ())"

section \<open>\<open>AdminBootstrapService\<close>, \<open>AdminUsersService\<close> and the role guard\<close>

definition admin_hashes :: "string option \<Rightarrow> string list" where
  "admin_hashes raw = (if truthy raw
     then filter (\<lambda>s. s \<noteq> []) (map (\<lambda>s. toLowerCase (trim s)) (split_on (CHR '','') (coalesce raw []))) else [])"

definition bootstrap_one :: "env \<Rightarrow> string \<Rightarrow> string \<Rightarrow> unit svc" where
  "bootstrap_one e operator phoneHash = bnd (dbget (\<lambda>d. find_user_by_hash d phoneHash)) (\<lambda>found. case found of
     None \<Rightarrow> ret ()
   | Some user \<Rightarrow> whenA (u_role user \<noteq> ADMIN)
       (bnd (update_user (u_id user) (\<lambda>u. u\<lparr>u_role := ADMIN, u_updatedAt := now e\<rparr>)) (\<lambda>_.
        audit e None ROLE_PROMOTE T_USER (u_id user) None
          (JObj [(''source'', JStr ''env''), (''operator'', JStr operator), (''from'', JStr (role_name (u_role user))),
                 (''to'', JStr (role_name ADMIN))]))))"

definition onApplicationBootstrap :: "env \<Rightarrow> string option \<Rightarrow> string \<Rightarrow> unit svc" where
  "onApplicationBootstrap e raw operator = for_each (admin_hashes raw) (bootstrap_one e operator)"

record user_detail =
  ud_user :: user_row
  ud_filedReports :: "report_row list"
  ud_receivedReports :: "report_row list"
  ud_suspensions :: "suspension_row list"

definition getDetail :: "uuid \<Rightarrow> user_detail svc" where
  "getDetail userId = bnd (dbget (\<lambda>d. find_user d userId)) (\<lambda>found.
     bnd (require found (NotFound ''User not found'')) (\<lambda>user.
     dbget (\<lambda>d. \<lparr>ud_user = user,
       ud_filedReports = take 25 (order_desc rp_createdAt (filter (\<lambda>r. rp_reporterUserId r = userId) (reports d))),
       ud_receivedReports = take 25 (order_desc rp_createdAt (filter (\<lambda>r.
         (case find_message d (rp_messageId r) of None \<Rightarrow> False | Some m \<Rightarrow> m_senderUserId m = userId)) (reports d))),
       ud_suspensions = take 25 (order_desc su_suspendedAt (filter (\<lambda>s. su_userId s = userId) (userSuspensions d)))\<rparr>)))"

text \<open>\<open>phoneMasked: { contains }\<close> is sensitive to case, \<open>username: { contains, mode: 'insensitive' }\<close> is not.\<close>

definition searchUsers :: "string option \<Rightarrow> UserRole option \<Rightarrow> UserStatus option \<Rightarrow> int option \<Rightarrow> user_row list svc" where
  "searchUsers q role status limit =
     (let trimmed = trim (coalesce q []) in
      if truthy q \<and> trimmed = [] then ret []
      else dbget (\<lambda>d. take (clamp (coalesce limit 20)) (sort_key (\<lambda>u. (- u_strikeCount u, - u_createdAt u))
        (filter (\<lambda>u. unless role (\<lambda>r. u_role u = r) \<and> unless status (\<lambda>s. u_status u = s)
          \<and> (truthy q \<longrightarrow> contains_ci trimmed (u_username u)
               \<or> (case u_phoneMasked u of None \<Rightarrow> False | Some p \<Rightarrow> contains trimmed p))) (users d)))))"

text \<open>The roles that \<open>@RequireRole\<close> names on a handler, none when it names none\<close>

definition join_roles :: "UserRole list \<Rightarrow> string" where
  "join_roles rs = concat (map (\<lambda>(i, r). (if i = 0 then [] else '', '') @ role_name r) (enumerate 0 rs))"

definition roleCanActivate :: "UserRole list \<Rightarrow> auth_user option \<Rightarrow> bool svc" where
  "roleCanActivate required user = (if required = [] then ret True else
     bnd (require user (Forbidden ''Authentication required'')) (\<lambda>u.
     thn (ensure (au_role u \<in> set required)
           (Forbidden (''Requires one of: '' @ join_roles required @ '' (caller has '' @ role_name (au_role u) @ '')'')))
         (ret True)))"

section \<open>Frames\<close>

lemma audit_run: "audit e a ac ty i r md w = (Inr (), w\<lparr>w_supply := Suc (w_supply w), w_db := adminAuditLog_update (\<lambda>xs. xs @ [
     \<lparr>al_id = mkId e (w_supply w), al_actorUserId = a, al_action = ac, al_targetType = ty, al_targetId = i, al_reason = r,
      al_metadata = md, al_createdAt = now e\<rparr>]) (w_db w)\<rparr>)"
  by (simp add: audit_def audit_write_def act_simps Let_def)

lemma kdb_audit: "(\<And>d f. P (adminAuditLog_update f d) = P d) \<Longrightarrow> kdb P (audit e a ac ty i r md)"
  by (rule kdbI) (simp add: audit_run)

lemma kdb_update_report: "kdb P (dbset (reports_update (update_where (\<lambda>r. rp_id r = i) f))) \<Longrightarrow> kdb P (update_report i f)"
  unfolding update_report_def by (intro kdb_intros)

lemma kdb_update_user: "kdb P (dbset (users_update (update_where (\<lambda>r. u_id r = i) f))) \<Longrightarrow> kdb P (update_user i f)"
  unfolding update_user_def by (intro kdb_intros)

lemma kdb_redis_ops [kdb_intros]: "kdb P (redis_incr e k)" "kdb P (redis_expire e k t)"
  unfolding redis_incr_def redis_expire_def by (intro kdb_intros)+

lemma kdb_limits [kdb_intros]:
  "kdb P (checkDailyLimit e u l)" "kdb P (checkIpRateLimit e ip l)" "kdb P (trackCollusion e m)" "kdb P (check_limits e ru u c)"
  unfolding checkDailyLimit_def checkIpRateLimit_def trackCollusion_def check_limits_def by (intro kdb_intros)+

lemma kdb_send_pubs [kdb_intros]: "kdb P (emitTombstoned e m)" "kdb P (emitUserKicked e u r)"
  unfolding emitTombstoned_def emitUserKicked_def by (intro kdb_intros)+

section \<open>Reports only advance\<close>

text \<open>Identifiers of reports are unique, and a report has a resolution exactly when it is closed.\<close>

definition report_inv :: "report_row list \<Rightarrow> bool" where
  "report_inv rs \<longleftrightarrow> distinct (map rp_id rs) \<and> (\<forall>r\<in>set rs. (rp_status r = CLOSED) = (rp_resolution r \<noteq> None))"

text \<open>A later version of a report: the same subject, the status not earlier in the process, and final once
  closed.\<close>

definition report_le :: "report_row \<Rightarrow> report_row \<Rightarrow> bool" where
  "report_le r r' \<longleftrightarrow> rp_id r' = rp_id r \<and> rp_reporterUserId r' = rp_reporterUserId r \<and> rp_messageId r' = rp_messageId r
     \<and> rp_status r \<le> rp_status r' \<and> (rp_status r = CLOSED \<longrightarrow> rp_resolution r' = rp_resolution r)"

definition advances :: "report_row list \<Rightarrow> report_row list \<Rightarrow> bool" where
  "advances rs rs' \<longleftrightarrow> report_inv rs' \<and> (\<exists>ys zs. rs' = ys @ zs \<and> list_all2 report_le rs ys)"

lemma status_le_simps [simp]:
  "OPEN \<le> (s :: ReportStatus)" "s \<le> CLOSED" "(CLOSED \<le> s) = (s = CLOSED)" "(IN_REVIEW \<le> s) = (s \<noteq> OPEN)"
  by (cases s; simp add: less_eq_ReportStatus_def)+

lemma report_le_refl [simp]: "report_le r r"
  by (simp add: report_le_def)

lemma report_le_trans: "report_le a b \<Longrightarrow> report_le b c \<Longrightarrow> report_le a c"
  by (auto simp: report_le_def)

lemma advances_refl: "report_inv rs \<Longrightarrow> advances rs rs"
  by (metis advances_def append_Nil2 list_all2_refl report_le_refl)

lemma advancesD: "advances rs xs \<Longrightarrow> r \<in> set xs \<Longrightarrow> (rp_status r = CLOSED) = (rp_resolution r \<noteq> None)"
  by (auto simp: advances_def report_inv_def)

lemma advances_update:
  assumes "advances rs xs" and "\<And>r. r \<in> set xs \<Longrightarrow> p r \<Longrightarrow> report_le r (f r) \<and> (rp_status (f r) = CLOSED) = (rp_resolution (f r) \<noteq> None)"
  shows "advances rs (update_where p f xs)"
proof -
  from assms(1) obtain ys zs where yz: "xs = ys @ zs" "list_all2 report_le rs ys" and inv: "report_inv xs"
    by (auto simp: advances_def)
  have ids: "map rp_id (update_where p f xs) = map rp_id xs"
    using assms(2) by (auto simp: update_where_def report_le_def)
  have "report_inv (update_where p f xs)"
    using inv assms(2) by (auto simp: report_inv_def ids elim!: in_update_whereE)
  moreover have "list_all2 report_le ys (update_where p f ys)"
    using assms(2) yz(1) by (auto simp: update_where_def list_all2_conv_all_nth)
  then have "list_all2 report_le rs (update_where p f ys)"
    using yz(2) by (blast intro: list_all2_trans [of report_le report_le report_le] report_le_trans)
  ultimately show ?thesis using yz(1) by (auto simp: advances_def)
qed

lemma advances_append:
  "advances rs xs \<Longrightarrow> rp_id r \<notin> rp_id ` set xs \<Longrightarrow> rp_status r = OPEN \<Longrightarrow> rp_resolution r = None \<Longrightarrow> advances rs (xs @ [r])"
  by (fastforce simp: advances_def report_inv_def)

abbreviation adv :: "report_row list \<Rightarrow> db \<Rightarrow> bool" where
  "adv rs d \<equiv> advances rs (reports d)"

lemma adv_close_reports [kdb_intros]: "kdb (adv rs) (close_reports e a res p)"
  unfolding close_reports_def
  by (rule kdb_dbset) (auto intro!: advances_update simp: report_le_def close_report_def report_open_def)

lemma adv_audit [kdb_intros]: "kdb (adv rs) (audit e a ac ty i r md)"
  by (rule kdb_audit) simp

lemma adv_touch [kdb_intros]: "kdb (adv rs) (update_report i (touch_report e a))"
  by (rule kdb_update_report, rule kdb_dbset)
    (auto intro!: advances_update simp: report_le_def touch_report_def dest: advancesD)

lemma adv_update_user [kdb_intros]: "kdb (adv rs) (update_user i f)"
  by (intro kdb_update_user kdb_dbset) simp

lemma adv_update_suspension [kdb_intros]: "kdb (adv rs) (update_suspension i f)"
  unfolding update_suspension_def by (intro kdb_intros kdb_dbset) simp

text \<open>A report found by its identifier is the only row that an update by that identifier changes.\<close>

lemma advances_find:
  assumes "advances rs (reports d)" and "find_report d i = Some r" and "report_le r (f r)"
    and "(rp_status (f r) = CLOSED) = (rp_resolution (f r) \<noteq> None)"
  shows "advances rs (update_where (\<lambda>x. rp_id x = i) f (reports d))"
proof (rule advances_update [OF assms(1)])
  fix x assume x: "x \<in> set (reports d)" "rp_id x = i"
  have "r \<in> set (reports d)" "rp_id r = i" using assms(2) by (auto simp: find_report_def dest: find_Some_in)
  with x assms(1) have "x = r" by (auto simp: advances_def report_inv_def intro: unique_row [of rp_id "reports d"])
  with assms(3,4) show "report_le x (f x) \<and> (rp_status (f x) = CLOSED) = (rp_resolution (f x) \<noteq> None)" by simp
qed

lemma adv_found_update:
  assumes "\<And>r. find_report d i = Some r \<Longrightarrow> report_le r (f r) \<and> (rp_status (f r) = CLOSED) = (rp_resolution (f r) \<noteq> None)"
    and "find_report d i \<noteq> None" and "adv rs d"
  shows "adv rs (reports_update (update_where (\<lambda>x. rp_id x = i) f) d)"
  using assms advances_find [of rs d i] by auto

lemma adv_getReportById [kdb_intros]: "kdb P (getReportById i)"
  unfolding getReportById_def by (intro kdb_intros)

lemma adv_markInReview [kdb_intros]: "kdb (adv rs) (markInReview e a i)"
proof (rule kdbI)
  fix w :: world assume adv: "adv rs (w_db w)"
  show "adv rs (w_db (snd (markInReview e a i w)))"
  proof (cases "find_report (w_db w) i")
    case None
    then show ?thesis using adv by (simp add: markInReview_def act_simps)
  next
    case (Some r)
    have inv: "r \<in> set (reports (w_db w))" using Some by (auto simp: find_report_def dest: find_Some_in)
    have "rp_status r = OPEN \<Longrightarrow> adv rs (reports_update (update_where (\<lambda>x. rp_id x = i) (review_report e a)) (w_db w))"
      by (rule adv_found_update [OF _ _ adv])
        (use Some advancesD [OF adv inv] in \<open>auto simp: report_le_def review_report_def\<close>)
    moreover have "rp_status r \<noteq> CLOSED \<Longrightarrow> rp_status r \<noteq> IN_REVIEW \<Longrightarrow> rp_status r = OPEN" by (cases "rp_status r") auto
    ultimately show ?thesis
      using Some adv by (auto simp: markInReview_def getReportById_def update_report_def act_simps audit_run split: option.splits)
  qed
qed

lemma adv_dismiss [kdb_intros]: "kdb (adv rs) (dismiss e a i rsn)"
proof (rule kdbI)
  fix w :: world assume adv: "adv rs (w_db w)"
  show "adv rs (w_db (snd (dismiss e a i rsn w)))"
  proof (cases "find_report (w_db w) i")
    case None
    then show ?thesis using adv by (simp add: dismiss_def act_simps)
  next
    case (Some r)
    have "rp_status r \<noteq> CLOSED \<Longrightarrow> adv rs (reports_update (update_where (\<lambda>x. rp_id x = i) (close_report e a DISMISSED)) (w_db w))"
      by (rule adv_found_update [OF _ _ adv]) (use Some in \<open>auto simp: report_le_def close_report_def\<close>)
    then show ?thesis
      using Some adv by (auto simp: dismiss_def update_report_def act_simps audit_run split: option.splits)
  qed
qed

lemma adv_close_trigger [kdb_intros]: "kdb (adv rs) (close_trigger e a ri)"
proof (rule kdbI)
  fix w :: world assume adv: "adv rs (w_db w)"
  let ?i = "coalesce ri []"
  show "adv rs (w_db (snd (close_trigger e a ri w)))"
  proof (cases "find_report (w_db w) ?i")
    case None
    then show ?thesis using adv by (simp add: close_trigger_def act_simps)
  next
    case (Some r)
    have "report_open r \<Longrightarrow> adv rs (reports_update (update_where (\<lambda>x. rp_id x = ?i) (close_report e a AUTO_CLOSED_SUSPENDED)) (w_db w))"
      by (rule adv_found_update [OF _ _ adv]) (use Some in \<open>auto simp: report_le_def close_report_def report_open_def\<close>)
    then show ?thesis
      using Some adv by (auto simp: close_trigger_def update_report_def act_simps split: option.splits)
  qed
qed

lemma adv_createReport [kdb_intros]: "kdb (adv rs) (createReport e u dto ip)"
proof -
  have "kdb (adv rs) (upsert_report e u dto)"
  proof (rule kdbI)
    fix w :: world assume "adv rs (w_db w)"
    then show "adv rs (w_db (snd (upsert_report e u dto w)))"
      by (auto simp: upsert_report_def act_simps find_report_def find_None_all new_report_def intro!: advances_append split: option.split)
  qed
  then show ?thesis unfolding createReport_def by (intro kdb_intros)
qed

lemma adv_other_tables [kdb_intros]:
  "kdb (adv rs) (dbset (messages_update f))" "kdb (adv rs) (dbset (revoke_tokens e p))"
  by (rule kdb_dbset; simp add: revoke_tokens_def)+

lemma adv_create_suspension [kdb_intros]: "kdb (adv rs) (create_suspension e t a dto)"
  unfolding create_suspension_def by (intro kdb_intros kdb_dbset) simp

lemma adv_suspend_tx [kdb_intros]: "kdb (adv rs) (suspend_tx e a t dto)"
  unfolding suspend_tx_def suspend_cascade_def tombstone_all_def by (intro kdb_intros)

lemma adv_lift_suspension [kdb_intros]: "kdb (adv rs) (lift_suspension e i u t a r md)"
  unfolding lift_suspension_def by (intro kdb_intros)

lemma kdb_reactivate_all: "(\<And>s. kdb P (reactivateOne e s t)) \<Longrightarrow> kdb P (reactivate_all e t ss n)"
  by (induction ss arbitrary: n) (auto intro!: kdb_intros)

lemma adv_moderation [kdb_intros]:
  "kdb (adv rs) (tombstoneMessage e a ro m td)" "kdb (adv rs) (untombstoneMessage e a ro m r)"
  "kdb (adv rs) (suspendUser e a ro u sd)" "kdb (adv rs) (unsuspendUser e a ro u r)"
  "kdb (adv rs) (resetStrikes e a ro u r')" "kdb (adv rs) (changeUserRole e a ro u nr r)"
  unfolding tombstoneMessage_def tombstone_tx_def cascadeCloseReports_def untombstoneMessage_def suspendUser_def
    unsuspendUser_def resetStrikes_def changeUserRole_def
  by (intro kdb_intros kdb_tx_body)+

lemma adv_background [kdb_intros]:
  "kdb (adv rs) (reactivateExpired e)" "kdb (adv rs) (onApplicationBootstrap e raw op)"
  unfolding reactivateExpired_def runReactivation_def onApplicationBootstrap_def bootstrap_one_def reactivateOne_def
  by (intro kdb_intros kdb_tx_body kdb_reactivate_all; simp add: reactivateOne_def; intro kdb_intros kdb_tx_body)+

section \<open>The moderation steps\<close>

text \<open>Every operation that writes reports, suspensions, roles or accounts, called with any arguments, at any time and
  in any order, whatever its outcome.\<close>

inductive mod_step :: "world \<Rightarrow> world \<Rightarrow> bool" where
  report: "createReport e u dto ip w = (r, w') \<Longrightarrow> mod_step w w'"
| review: "markInReview e a i w = (r, w') \<Longrightarrow> mod_step w w'"
| dismissal: "dismiss e a i rsn w = (r, w') \<Longrightarrow> mod_step w w'"
| tombstoning: "tombstoneMessage e a ro m td w = (r, w') \<Longrightarrow> mod_step w w'"
| untombstoning: "untombstoneMessage e a ro m rsn w = (r, w') \<Longrightarrow> mod_step w w'"
| suspension: "suspendUser e a ro u sd w = (r, w') \<Longrightarrow> mod_step w w'"
| unsuspension: "unsuspendUser e a ro u rsn w = (r, w') \<Longrightarrow> mod_step w w'"
| strikes: "resetStrikes e a ro u rs w = (r, w') \<Longrightarrow> mod_step w w'"
| roles: "changeUserRole e a ro u nr rsn w = (r, w') \<Longrightarrow> mod_step w w'"
| reactivation: "reactivateExpired e w = (r, w') \<Longrightarrow> mod_step w w'"
| bootstrap: "onApplicationBootstrap e raw op w = (r, w') \<Longrightarrow> mod_step w w'"
| login: "verifyLoginOtp e p c mt w = (r, w') \<Longrightarrow> mod_step w w'"

inductive_cases mod_stepE: "mod_step w w'"

text \<open>A database predicate that every operation keeps holds after any number of steps.\<close>

lemma mod_steps_keep:
  assumes "mod_step\<^sup>*\<^sup>* w w'" and "P (w_db w)"
    and "\<And>x y. P (w_db x) \<Longrightarrow> mod_step x y \<Longrightarrow> P (w_db y)"
  shows "P (w_db w')"
  using assms(1,2) by (induction rule: rtranclp_induct) (auto intro: assms(3))

lemma kdb_login:
  assumes "\<And>i f. kdb P (dbset (otps_update f))" and "kdb P (findOrCreateUser e (normalizePhone p) (phone_hash e (normalizePhone p)))"
    and "\<And>d f. P (refreshTokens_update f d) = P d"
  shows "kdb P (verifyLoginOtp e p c mt)"
  unfolding verifyLoginOtp_def verifyOtp_def throwIfSuspended_def issueTokenPair_def Let_def
  by (intro kdb_intros assms kdb_dbset) (simp add: assms(3))

lemma adv_login [kdb_intros]: "kdb (adv rs) (verifyLoginOtp e p c mt)"
  by (rule kdb_login, rule kdb_dbset, simp, unfold findOrCreateUser_def, (intro kdb_intros kdb_dbset; simp), simp)

text \<open>A step of an operation that keeps a predicate keeps it.\<close>

lemma kdb_step: "m w = (r, w') \<Longrightarrow> P (w_db w) \<Longrightarrow> kdb P m \<Longrightarrow> P (w_db w')"
  by (rule kdb_result)

lemma adv_step: "adv rs (w_db x) \<Longrightarrow> mod_step x y \<Longrightarrow> adv rs (w_db y)"
  by (erule mod_stepE; erule kdb_step [where P = "adv rs"], assumption, intro kdb_intros)


end
