(* ===== verification/Suspensions.thy ===== *)
theory Suspensions
  imports Moderation
begin

text \<open>
  The theorems on sanctions: the status of an account always agrees with its suspensions, what suspending
  a user does to sessions, messages and reports, and what the scheduled reactivation does.
\<close>

section \<open>Account status and suspensions agree\<close>

definition unrevoked :: "uuid \<Rightarrow> suspension_row \<Rightarrow> bool" where
  "unrevoked i s \<longleftrightarrow> su_userId s = i \<and> su_revokedAt s = None"

text \<open>A user is \<open>SUSPENDED\<close> exactly when one suspension of the user is not revoked, and never more than one is.\<close>

definition susp_inv :: "db \<Rightarrow> bool" where
  "susp_inv d \<longleftrightarrow> distinct (map u_id (users d)) \<and> distinct (map su_id (userSuspensions d))
     \<and> su_userId ` set (userSuspensions d) \<subseteq> u_id ` set (users d)
     \<and> (\<forall>u\<in>set (users d). count_where (unrevoked (u_id u)) (userSuspensions d) = (if u_status u = SUSPENDED then 1 else 0))"

lemma susp_inv_cong:
  assumes "map (\<lambda>u. (u_id u, u_status u)) (users d') = map (\<lambda>u. (u_id u, u_status u)) (users d)"
    and "userSuspensions d' = userSuspensions d" and "susp_inv d"
  shows "susp_inv d'"
proof -
  have ids: "map u_id (users d') = map u_id (users d)"
    by (rule map_via_core [OF assms(1), of u_id fst]) simp
  then have im: "u_id ` set (users d') = u_id ` set (users d)" by (metis list.set_map)
  have "\<exists>v\<in>set (users d). u_id v = u_id u \<and> u_status v = u_status u" if "u \<in> set (users d')" for u
    using image_via_core [OF assms(1) that] by auto
  with assms(2,3) ids im show ?thesis unfolding susp_inv_def by (metis (no_types, lifting))
qed

lemma susp_other [kdb_intros]:
  "kdb susp_inv (dbset (messages_update f))" "kdb susp_inv (dbset (reports_update g))"
  "kdb susp_inv (dbset (revoke_tokens e p))" "kdb susp_inv (dbset (otps_update h))" "kdb susp_inv (audit e a ac ty i r md)"
  by (rule kdb_dbset, erule susp_inv_cong [rotated 2]; simp add: revoke_tokens_def)+
    (rule kdb_audit, simp add: susp_inv_def)

lemma susp_update_user:
  assumes "\<And>u. u_id (f u) = u_id u \<and> u_status (f u) = u_status u"
  shows "kdb susp_inv (update_user i f)"
  by (rule kdb_update_user, rule kdb_dbset, erule susp_inv_cong [rotated 2])
    (simp_all add: map_update_where assms)

lemma susp_reports [kdb_intros]:
  "kdb susp_inv (close_reports e a res p)" "kdb susp_inv (update_report i f)" "kdb susp_inv (close_trigger e a ri)"
  "kdb susp_inv (createReport e u dto ip)" "kdb susp_inv (markInReview e a i)" "kdb susp_inv (dismiss e a i rsn)"
  unfolding close_reports_def update_report_def close_trigger_def createReport_def upsert_report_def markInReview_def
    dismiss_def getReportById_def
  by (intro kdb_intros)+

lemma susp_tombstones [kdb_intros]:
  "kdb susp_inv (tombstone_all e a sid ids)" "kdb susp_inv (tombstoneMessage e a ro m td)"
  "kdb susp_inv (untombstoneMessage e a ro m r)"
  unfolding tombstone_all_def tombstoneMessage_def tombstone_tx_def cascadeCloseReports_def untombstoneMessage_def
  by (intro kdb_intros kdb_tx_body)+

lemma susp_accounts [kdb_intros]:
  "kdb susp_inv (resetStrikes e a ro u r')" "kdb susp_inv (changeUserRole e a ro u nr r)"
  "kdb susp_inv (onApplicationBootstrap e raw op)"
  unfolding resetStrikes_def changeUserRole_def onApplicationBootstrap_def bootstrap_one_def
  by (intro kdb_intros kdb_tx_body susp_update_user; simp)+

subsection \<open>Imposing a suspension\<close>

lemma count_where_cong: "(\<And>r. r \<in> set rs \<Longrightarrow> p r = q r) \<Longrightarrow> count_where p rs = count_where q rs"
  by (auto simp: count_where_def intro!: arg_cong [of _ _ length] filter_cong)

lemma susp_inv_impose:
  assumes "susp_inv d" and "find_user d t = Some u" and "u_status u \<noteq> SUSPENDED"
    and "\<forall>s\<in>set (userSuspensions d). su_id s \<noteq> i"
  shows "susp_inv (users_update (update_where (\<lambda>u. u_id u = t) (strike e))
    (userSuspensions_update (\<lambda>xs. xs @ [new_suspension e i t a dto]) d))"
proof -
  let ?us = "update_where (\<lambda>u. u_id u = t) (strike e) (users d)" and ?n = "new_suspension e i t a dto"
  note u = find_userD [OF assms(2)]
  have ids: "map u_id ?us = map u_id (users d)"
    by (rule map_update_where) (simp add: strike_def)
  then have im: "u_id ` set ?us = u_id ` set (users d)" by (metis list.set_map)
  have new: "su_id ?n = i" "su_userId ?n = t" "unrevoked j ?n = (j = t)" for j
    by (auto simp: new_suspension_def unrevoked_def)
  have status: "count_where (unrevoked (u_id v)) (userSuspensions d @ [?n]) = (if u_status v = SUSPENDED then 1 else 0)"
    if "v \<in> set ?us" for v
  proof -
    from that obtain x where x: "x \<in> set (users d)" "v = (if u_id x = t then strike e x else x)" by (rule in_update_whereE)
    have old: "count_where (unrevoked (u_id x)) (userSuspensions d) = (if u_status x = SUSPENDED then 1 else 0)"
      using assms(1) x(1) by (simp add: susp_inv_def)
    show ?thesis
    proof (cases "u_id x = t")
      case True
      then have "x = u" using assms(1) u x(1) by (auto simp: susp_inv_def intro: unique_row [of u_id "users d"])
      with True x(2) old assms(3) show ?thesis by (simp add: new strike_def)
    next
      case False
      with x(2) old show ?thesis by (simp add: new)
    qed
  qed
  show ?thesis
    using assms(1,4) u status by (auto simp: susp_inv_def ids im new)
qed

text \<open>The steps of the transaction: the suspension and the strike, then writes to other tables.\<close>

definition suspended :: "env \<Rightarrow> uuid \<Rightarrow> uuid \<Rightarrow> uuid \<Rightarrow> suspend_dto \<Rightarrow> db \<Rightarrow> db" where
  "suspended e i t a dto d = users_update (update_where (\<lambda>u. u_id u = t) (strike e))
     (userSuspensions_update (\<lambda>xs. xs @ [new_suspension e i t a dto]) d)"

lemma suspend_tx_steps:
  assumes "suspend_tx e a t dto w = (Inr r, w')"
  obtains i where "i = mkId e (w_supply w)" "\<forall>s\<in>set (userSuspensions (w_db w)). su_id s \<noteq> i"
    "suspend_cascade e a t dto i (w\<lparr>w_supply := Suc (w_supply w), w_db := suspended e i t a dto (w_db w)\<rparr>) = (Inr r, w')"
  using assms unfolding suspend_tx_def
  by (auto simp: create_suspension_def update_user_def ok_simps suspended_def)

lemma susp_cascade [kdb_intros]: "kdb susp_inv (suspend_cascade e a t dto i)"
  unfolding suspend_cascade_def by (intro kdb_intros)

lemma susp_suspendUser [kdb_intros]: "kdb susp_inv (suspendUser e a ro t dto)"
proof (rule kdbI)
  fix w :: world assume inv: "susp_inv (w_db w)"
  have keep: "susp_inv (w_db w')" if found: "find_user (w_db w) t = Some u" "u_status u \<noteq> SUSPENDED"
    and run: "suspend_tx e a t dto w = (Inr r, w')" for u r w'
  proof -
    from run obtain i where st: "\<forall>s\<in>set (userSuspensions (w_db w)). su_id s \<noteq> i"
      "suspend_cascade e a t dto i (w\<lparr>w_supply := Suc (w_supply w), w_db := suspended e i t a dto (w_db w)\<rparr>) = (Inr r, w')"
      by (rule suspend_tx_steps)
    show ?thesis
      by (rule kdb_result [OF susp_cascade _ st(2)]) (simp add: suspended_def susp_inv_impose [OF inv found st(1)])
  qed
  show "susp_inv (w_db (snd (suspendUser e a ro t dto w)))"
  proof (cases "suspendUser e a ro t dto w")
    case (Pair r w')
    then show ?thesis
      using inv by (auto simp: suspendUser_def act_simps catch_ignore_def emitUserKicked_def publish_def
          split: option.splits prod.splits sum.splits if_splits dest: keep)
  qed
qed

subsection \<open>Lifting a suspension\<close>

lemma count_where_revoke:
  assumes "distinct (map su_id ss)" and "s \<in> set ss" and "su_revokedAt s = None"
  shows "count_where (unrevoked j) (update_where (\<lambda>x. su_id x = su_id s) (revoke_suspension t a r) ss)
    = count_where (unrevoked j) ss - (if j = su_userId s then 1 else 0)"
  using assms
proof (induction ss)
  case (Cons x ss)
  show ?case
  proof (cases "su_id x = su_id s")
    case True
    with Cons.prems have "x = s" by (auto simp: image_iff)
    moreover have "update_where (\<lambda>x. su_id x = su_id s) (revoke_suspension t a r) ss = ss"
      by (rule update_where_id) (use Cons.prems True in \<open>auto simp: image_iff\<close>)
    moreover have "\<not> unrevoked j (revoke_suspension t a r s)" "unrevoked j s = (j = su_userId s)"
      using Cons.prems by (auto simp: unrevoked_def revoke_suspension_def)
    ultimately show ?thesis by simp
  next
    case False
    then have s: "s \<in> set ss" using Cons.prems by auto
    then have "unrevoked (su_userId s) s" "0 < count_where (unrevoked (su_userId s)) ss"
      using Cons.prems by (auto simp: unrevoked_def neq0_conv [symmetric] simp del: neq0_conv)
    with s False Cons show ?thesis by auto
  qed
qed simp

lemma susp_inv_lift:
  assumes "susp_inv d" and "s \<in> set (userSuspensions d)" and "su_revokedAt s = None"
  shows "susp_inv (users_update (update_where (\<lambda>u. u_id u = su_userId s) (\<lambda>u. u\<lparr>u_status := ACTIVE, u_updatedAt := n\<rparr>))
    (userSuspensions_update (update_where (\<lambda>x. su_id x = su_id s) (revoke_suspension t a r)) d))"
proof -
  let ?f = "\<lambda>u. u\<lparr>u_status := ACTIVE, u_updatedAt := n\<rparr>"
  let ?us = "update_where (\<lambda>u. u_id u = su_userId s) ?f (users d)"
  let ?ss = "update_where (\<lambda>x. su_id x = su_id s) (revoke_suspension t a r) (userSuspensions d)"
  have ids: "map u_id ?us = map u_id (users d)" by (rule map_update_where) simp
  have sids: "map su_id ?ss = map su_id (userSuspensions d)" by (rule map_update_where) (simp add: revoke_suspension_def)
  have sus: "map su_userId ?ss = map su_userId (userSuspensions d)" by (rule map_update_where) (simp add: revoke_suspension_def)
  have sets: "u_id ` set ?us = u_id ` set (users d)" "su_userId ` set ?ss = su_userId ` set (userSuspensions d)"
    using ids sus by (metis list.set_map)+
  have "count_where (unrevoked (u_id v)) ?ss = (if u_status v = SUSPENDED then 1 else 0)" if "v \<in> set ?us" for v
  proof -
    from that obtain x where x: "x \<in> set (users d)" "v = (if u_id x = su_userId s then ?f x else x)" by (rule in_update_whereE)
    then have "count_where (unrevoked (u_id x)) (userSuspensions d) = (if u_status x = SUSPENDED then 1 else 0)"
      using assms(1) by (simp add: susp_inv_def)
    then show ?thesis
      using x(2) count_where_revoke [OF _ assms(2,3), of "u_id x" t a r] assms(1) by (auto simp: susp_inv_def split: if_splits)
  qed
  then show ?thesis using assms(1) by (auto simp: susp_inv_def ids sids sets)
qed

text \<open>With the invariant, lifting an unrevoked suspension always succeeds: its user exists.\<close>

definition lifted :: "env \<Rightarrow> suspension_row \<Rightarrow> time \<Rightarrow> uuid option \<Rightarrow> string option \<Rightarrow> db \<Rightarrow> db" where
  "lifted e s t a r d = users_update (update_where (\<lambda>u. u_id u = su_userId s) (\<lambda>u. u\<lparr>u_status := ACTIVE, u_updatedAt := now e\<rparr>))
     (userSuspensions_update (update_where (\<lambda>x. su_id x = su_id s) (revoke_suspension t a r)) d)"

lemma lifted_ids: "map u_id (users (lifted e s t a r d)) = map u_id (users d)"
  unfolding lifted_def by (simp add: map_update_where)

lemma lift_suspension_run:
  assumes "susp_inv (w_db w)" and "s \<in> set (userSuspensions (w_db w))"
  shows "\<exists>w'. lift_suspension e (su_id s) (su_userId s) t a r md w = (Inr (), w')
    \<and> (\<exists>f. w_db w' = adminAuditLog_update f (lifted e s t a r (w_db w)))"
proof -
  have "su_userId s \<in> u_id ` set (users (w_db w))" using assms by (auto simp: susp_inv_def)
  then have "su_userId s \<in> u_id ` set (users (lifted e s t a r (w_db w)))"
    using lifted_ids [of e s t a r "w_db w"] by (metis list.set_map)
  then have "find_user (lifted e s t a r (w_db w)) (su_userId s) \<noteq> None"
    by (auto simp: find_user_def find_None_all)
  moreover have "\<exists>x\<in>set (userSuspensions (w_db w)). su_id x = su_id s" using assms(2) by blast
  ultimately show ?thesis
    by (auto simp: lift_suspension_def update_suspension_def update_user_def act_simps audit_run lifted_def)
qed

lemma susp_inv_lifted: "susp_inv d \<Longrightarrow> s \<in> set (userSuspensions d) \<Longrightarrow> su_revokedAt s = None \<Longrightarrow> susp_inv (lifted e s t a r d)"
  unfolding lifted_def by (rule susp_inv_lift)

lemma susp_unsuspendUser [kdb_intros]: "kdb susp_inv (unsuspendUser e a ro u r)"
proof (rule kdbI)
  fix w :: world assume inv: "susp_inv (w_db w)"
  show "susp_inv (w_db (snd (unsuspendUser e a ro u r w)))"
  proof (cases "latest_unrevoked (w_db w) u")
    case None
    then show ?thesis using inv by (simp add: unsuspendUser_def act_simps branch_simps split: option.splits)
  next
    case (Some s)
    then have s: "s \<in> set (userSuspensions (w_db w))" "su_userId s = u" "su_revokedAt s = None"
      by (auto simp: latest_unrevoked_def dest!: first_of_in)
    from lift_suspension_run [OF inv s(1), of e "now e" "Some a" r "JObj [(''suspensionId'', JStr (su_id s))]"]
    obtain w' f where run: "lift_suspension e (su_id s) u (now e) (Some a) r (JObj [(''suspensionId'', JStr (su_id s))]) w = (Inr (), w')"
      "w_db w' = adminAuditLog_update f (lifted e s (now e) (Some a) r (w_db w))" using s(2) by auto
    then have "susp_inv (w_db w')"
      using susp_inv_lifted [OF inv s(1,3), of e "now e" "Some a" r] by (simp add: susp_inv_def)
    then show ?thesis
      using inv Some run(1) by (simp add: unsuspendUser_def act_simps branch_simps split: option.splits)
  qed
qed

subsection \<open>Automatic reactivation\<close>

text \<open>The loop lifts every suspension of its list, whatever else it has already lifted.\<close>

fun lifted_all :: "env \<Rightarrow> time \<Rightarrow> suspension_row list \<Rightarrow> db \<Rightarrow> db" where
  "lifted_all e t [] d = d"
| "lifted_all e t (s # ss) d = lifted_all e t ss (lifted e s t None (Some ''auto: expired'') d)"

lemma lifted_audit: "lifted e s t a r (adminAuditLog_update f d) = adminAuditLog_update f (lifted e s t a r d)"
  by (simp add: lifted_def)

lemma lifted_all_audit: "lifted_all e t ss (adminAuditLog_update f d) = adminAuditLog_update f (lifted_all e t ss d)"
  by (induction ss arbitrary: d) (simp_all add: lifted_audit)

lemma susp_inv_audit: "susp_inv (adminAuditLog_update f d) = susp_inv d"
  by (simp add: susp_inv_def)

definition pending_lifts :: "suspension_row list \<Rightarrow> db \<Rightarrow> bool" where
  "pending_lifts ss d \<longleftrightarrow> distinct (map su_id ss) \<and> (\<forall>s\<in>set ss. s \<in> set (userSuspensions d) \<and> su_revokedAt s = None)"

lemma pending_lifts_step:
  assumes "pending_lifts (s # ss) d"
  shows "pending_lifts ss (lifted e s t a r d)"
proof -
  have "x \<in> set (userSuspensions (lifted e s t a r d))" if "x \<in> set ss" for x
  proof -
    have "x \<in> set (userSuspensions d)" "su_id x \<noteq> su_id s"
      using that assms by (auto simp: pending_lifts_def image_iff)
    then show ?thesis unfolding lifted_def by (force simp: set_update_where)
  qed
  with assms show ?thesis by (simp add: pending_lifts_def)
qed

lemma susp_inv_lifted_all: "susp_inv d \<Longrightarrow> pending_lifts ss d \<Longrightarrow> susp_inv (lifted_all e t ss d)"
proof (induction ss arbitrary: d)
  case (Cons s ss)
  then have "susp_inv (lifted e s t None (Some ''auto: expired'') d)"
    by (intro susp_inv_lifted) (auto simp: pending_lifts_def)
  with Cons.IH pending_lifts_step [OF Cons.prems(2)] show ?case by simp
qed simp

lemma reactivate_all_run:
  assumes "susp_inv (w_db w)" and "pending_lifts ss (w_db w)"
  shows "\<exists>w'. reactivate_all e t ss n w = (Inr (n + length ss), w')
    \<and> (\<exists>f. w_db w' = adminAuditLog_update f (lifted_all e t ss (w_db w)))"
  using assms
proof (induction ss arbitrary: n w)
  case Nil
  then show ?case by (auto simp: act_simps intro: exI [of _ id])
next
  case (Cons s ss)
  let ?r = "Some ''auto: expired''"
  have s: "s \<in> set (userSuspensions (w_db w))" "su_revokedAt s = None" using Cons.prems(2) by (auto simp: pending_lifts_def)
  have "\<exists>w1. reactivateOne e s t w = (Inr (), w1) \<and> (\<exists>f. w_db w1 = adminAuditLog_update f (lifted e s t None ?r (w_db w)))"
    by (simp only: reactivateOne_def tx_ok) (rule lift_suspension_run [OF Cons.prems(1) s(1)])
  then obtain w1 f where w1: "reactivateOne e s t w = (Inr (), w1)" "w_db w1 = adminAuditLog_update f (lifted e s t None ?r (w_db w))" by blast
  have "susp_inv (w_db w1)" "pending_lifts ss (w_db w1)"
    using susp_inv_lifted [OF Cons.prems(1) s, of e t None ?r] pending_lifts_step [OF Cons.prems(2), of e t None ?r]
    by (simp_all add: w1(2) susp_inv_audit pending_lifts_def)
  from Cons.IH [OF this, of "n + 1"] obtain w' g where "reactivate_all e t ss (n + 1) w1 = (Inr (n + length (s # ss)), w')"
      "w_db w' = adminAuditLog_update g (lifted_all e t ss (w_db w1))" by auto
  with w1 show ?case by (auto simp: act_simps lifted_all_audit intro: exI [of _ "g \<circ> f"])
qed

lemma expired_pending: "susp_inv d \<Longrightarrow> pending_lifts (expired_suspensions t d) d"
  by (auto simp: pending_lifts_def expired_suspensions_def susp_inv_def intro: distinct_map_filter)

lemma runReactivation_run:
  assumes "susp_inv (w_db w)"
  shows "\<exists>w'. runReactivation e t w = (Inr (length (expired_suspensions t (w_db w))), w')
    \<and> (\<exists>f. w_db w' = adminAuditLog_update f (lifted_all e t (expired_suspensions t (w_db w)) (w_db w)))"
  using reactivate_all_run [OF assms expired_pending [OF assms, of t], of e t 0]
  by (cases "expired_suspensions t (w_db w) = []") (auto simp: runReactivation_def act_simps intro: exI [of _ id])

lemma susp_reactivation [kdb_intros]: "kdb susp_inv (reactivateExpired e)"
proof (rule kdbI)
  fix w :: world assume inv: "susp_inv (w_db w)"
  from runReactivation_run [OF inv, of e "now e"] susp_inv_lifted_all [OF inv expired_pending [OF inv], of e "now e" "now e"]
  show "susp_inv (w_db (snd (reactivateExpired e w)))"
    by (auto simp: reactivateExpired_def act_simps susp_inv_audit)
qed

lemma susp_inv_new_user:
  assumes "susp_inv d" and "find_user d (u_id u) = None" and "u_status u = ACTIVE"
  shows "susp_inv (users_update (\<lambda>us. us @ [u]) d)"
proof -
  have new: "\<forall>x\<in>set (users d). u_id x \<noteq> u_id u" using assms(2) by (simp add: find_user_def find_None_all)
  then have "\<forall>s\<in>set (userSuspensions d). su_userId s \<noteq> u_id u" using assms(1) by (auto simp: susp_inv_def)
  then have "count_where (unrevoked (u_id u)) (userSuspensions d) = 0" by (auto simp: unrevoked_def)
  with new assms(1,3) show ?thesis by (auto simp: susp_inv_def)
qed

lemma susp_login [kdb_intros]: "kdb susp_inv (verifyLoginOtp e p c mt)"
proof (rule kdb_login)
  show "kdb susp_inv (findOrCreateUser e (normalizePhone p) (phone_hash e (normalizePhone p)))"
  proof (rule kdbI)
    fix w :: world assume "susp_inv (w_db w)"
    then show "susp_inv (w_db (snd (findOrCreateUser e (normalizePhone p) (phone_hash e (normalizePhone p)) w)))"
      by (auto simp: findOrCreateUser_def act_simps map_update_where intro: susp_inv_new_user susp_inv_cong split: option.splits)
  qed
qed (auto simp: susp_inv_def intro: kdb_intros)

lemma susp_step: "susp_inv (w_db x) \<Longrightarrow> mod_step x y \<Longrightarrow> susp_inv (w_db y)"
  by (erule mod_stepE; erule kdb_step [where P = susp_inv], assumption, intro kdb_intros)

text \<open>What the invariant says of one account\<close>

lemma susp_inv_account:
  assumes "susp_inv d" and "u \<in> set (users d)"
  shows "(u_status u = SUSPENDED) = (\<exists>s\<in>set (userSuspensions d). su_userId s = u_id u \<and> su_revokedAt s = None)
    \<and> length (filter (\<lambda>s. su_userId s = u_id u \<and> su_revokedAt s = None) (userSuspensions d)) \<le> 1"
proof -
  have c: "count_where (unrevoked (u_id u)) (userSuspensions d) = (if u_status u = SUSPENDED then 1 else 0)"
    using assms by (simp add: susp_inv_def)
  have "(u_status u = SUSPENDED) = (\<exists>s\<in>set (userSuspensions d). unrevoked (u_id u) s)"
    using c count_where_0 [of "unrevoked (u_id u)" "userSuspensions d"] by (auto split: if_splits)
  moreover have "length (filter (unrevoked (u_id u)) (userSuspensions d)) \<le> 1" using c by (simp add: count_where_def)
  moreover have "unrevoked (u_id u) = (\<lambda>s. su_userId s = u_id u \<and> su_revokedAt s = None)" by (auto simp: unrevoked_def)
  ultimately show ?thesis by simp
qed

subsection \<open>What a run of the reactivation does\<close>

lemma update_where_or:
  assumes "\<And>x. q (f x) = q x" and "\<And>x. f (f x) = f x"
  shows "update_where q f (update_where p f xs) = update_where (\<lambda>x. p x \<or> q x) f xs"
  by (induction xs) (auto simp: assms)

lemma lifted_all_suspensions:
  "userSuspensions (lifted_all e t ss d) =
     update_where (\<lambda>x. su_id x \<in> su_id ` set ss) (revoke_suspension t None (Some ''auto: expired'')) (userSuspensions d)"
proof (induction ss arbitrary: d)
  case (Cons s ss)
  then show ?case
    by (simp add: lifted_def) (subst update_where_or; simp add: revoke_suspension_def)
qed (simp add: update_where_def)

lemma lifted_all_users:
  "users (lifted_all e t ss d) =
     update_where (\<lambda>u. u_id u \<in> su_userId ` set ss) (\<lambda>u. u\<lparr>u_status := ACTIVE, u_updatedAt := now e\<rparr>) (users d)"
proof (induction ss arbitrary: d)
  case (Cons s ss)
  then show ?case by (simp add: lifted_def update_where_or)
qed (simp add: update_where_def)

lemma none_expired_after: "expired_suspensions t (lifted_all e t (expired_suspensions t d) d) = []"
proof -
  have "\<not> (su_revokedAt x = None \<and> (case su_expiresAt x of None \<Rightarrow> False | Some y \<Rightarrow> y < t))"
    if x: "x \<in> set (userSuspensions (lifted_all e t (expired_suspensions t d) d))" for x
  proof -
    from x obtain y where y: "y \<in> set (userSuspensions d)"
        "x = (if su_id y \<in> su_id ` set (expired_suspensions t d) then revoke_suspension t None (Some ''auto: expired'') y else y)"
      unfolding lifted_all_suspensions by (rule in_update_whereE)
    then show ?thesis by (auto simp: expired_suspensions_def revoke_suspension_def split: if_splits)
  qed
  then show ?thesis by (auto simp: expired_suspensions_def filter_empty_conv)
qed

text \<open>C32: Reactivation reaches every expired suspension.  A run of the scheduled job answers with the number of
  suspensions that had expired and were not revoked; none is left afterwards; exactly the users of those
  suspensions became \<open>ACTIVE\<close> and every other account keeps its row; and the agreement of status and
  suspensions still holds, so those users are no longer refused.\<close>

theorem reactivation_complete:
  assumes "susp_inv (w_db w)"
  shows "\<exists>w'. runReactivation e t w = (Inr (length (expired_suspensions t (w_db w))), w')
    \<and> expired_suspensions t (w_db w') = [] \<and> susp_inv (w_db w')
    \<and> users (w_db w') = map (\<lambda>u. if \<exists>s\<in>set (expired_suspensions t (w_db w)). su_userId s = u_id u
                                then u\<lparr>u_status := ACTIVE, u_updatedAt := now e\<rparr> else u) (users (w_db w))"
proof -
  let ?ex = "expired_suspensions t (w_db w)"
  from runReactivation_run [OF assms, of e t] obtain w' f
    where w': "runReactivation e t w = (Inr (length ?ex), w')" "w_db w' = adminAuditLog_update f (lifted_all e t ?ex (w_db w))" by blast
  have "expired_suspensions t (w_db w') = []"
    using none_expired_after [of t e "w_db w"] by (simp add: w'(2) expired_suspensions_def)
  moreover have "susp_inv (w_db w')"
    using susp_inv_lifted_all [OF assms expired_pending [OF assms], of e t t] by (simp add: w'(2) susp_inv_audit)
  moreover have "users (w_db w') = map (\<lambda>u. if \<exists>s\<in>set ?ex. su_userId s = u_id u
        then u\<lparr>u_status := ACTIVE, u_updatedAt := now e\<rparr> else u) (users (w_db w))"
    by (auto simp: w'(2) lifted_all_users update_where_def image_iff)
  ultimately show ?thesis using w'(1) by blast
qed

section \<open>What suspending a user does\<close>

text \<open>The tables that the cascade does not touch after its own step.\<close>

definition core :: "db \<Rightarrow> user_row list \<times> suspension_row list \<times> refresh_token_row list \<times> message_row list" where
  "core d = (users d, userSuspensions d, refreshTokens d, messages d)"

lemma core_frames [kdb_intros]:
  "kdb (\<lambda>d. core d = c) (close_reports e a res p)" "kdb (\<lambda>d. core d = c) (update_report i f)"
  "kdb (\<lambda>d. core d = c) (audit e ac act ty i r md)" "kdb (\<lambda>d. core d = c) (close_trigger e a ri)"
  unfolding close_reports_def update_report_def close_trigger_def audit_def audit_write_def
  by (intro kdb_intros kdb_dbset; simp add: core_def)+

text \<open>The number of audit rows, and that the other writes of the cascade leave the audit log alone.\<close>

lemma audit_frames [kdb_intros]:
  "kdb (\<lambda>d. adminAuditLog d = c) (close_reports e a res p)" "kdb (\<lambda>d. adminAuditLog d = c) (update_report i f)"
  "kdb (\<lambda>d. adminAuditLog d = c) (close_trigger e a ri)"
  unfolding close_reports_def update_report_def close_trigger_def
  by (intro kdb_intros kdb_dbset; simp)+

lemma audit_effect:
  "audit e ac act ty i r md w = (Inr u, w') \<Longrightarrow>
   \<exists>s. w_db w' = adminAuditLog_update (\<lambda>xs. xs @ [s]) (w_db w) \<and> al_action s = act \<and> al_targetId s = i \<and> al_actorUserId s = ac"
  by (auto simp: audit_run)

lemma audit_loop:
  "\<exists>w' rows. for_each ids (\<lambda>i. audit e (Some a) ac ty i r md) w = (Inr (), w')
     \<and> w_db w' = adminAuditLog_update (\<lambda>xs. xs @ rows) (w_db w)
     \<and> map al_targetId rows = ids \<and> (\<forall>x\<in>set rows. al_action x = ac \<and> al_actorUserId x = Some a)"
proof (induction ids arbitrary: w)
  case Nil
  then show ?case by (auto simp: act_simps intro!: exI [of _ "[]"])
next
  case (Cons i ids)
  obtain w1 x where w1: "audit e (Some a) ac ty i r md w = (Inr (), w1)" "w_db w1 = adminAuditLog_update (\<lambda>xs. xs @ [x]) (w_db w)"
      "al_targetId x = i" "al_action x = ac" "al_actorUserId x = Some a"
    by (simp add: audit_run)
  from Cons.IH [of w1] obtain w' rows where w': "for_each ids (\<lambda>i. audit e (Some a) ac ty i r md) w1 = (Inr (), w')"
      "w_db w' = adminAuditLog_update (\<lambda>xs. xs @ rows) (w_db w1)" "map al_targetId rows = ids"
      "\<forall>x\<in>set rows. al_action x = ac \<and> al_actorUserId x = Some a" by blast
  then show ?case
    using w1 by (intro exI [of _ w'] exI [of _ "x # rows"]) (auto simp: act_simps w1(2) comp_def)
qed

text \<open>Tombstoning the messages of a user, as one rewriting of the table.\<close>

definition silenced :: "env \<Rightarrow> uuid \<Rightarrow> message_row list \<Rightarrow> message_row list" where
  "silenced e t = map (\<lambda>m. if m_senderUserId m = t \<and> m_deletedAt m = None then m\<lparr>m_deletedAt := Some (now e)\<rparr> else m)"

lemma silenced_ids:
  assumes "distinct (map m_id (messages d))"
  shows "update_where (\<lambda>m. m_id m \<in> set (live_messages t d)) (\<lambda>m. m\<lparr>m_deletedAt := Some (now e)\<rparr>) (messages d) = silenced e t (messages d)"
proof -
  have "m_id m \<in> set (live_messages t d) \<longleftrightarrow> m_senderUserId m = t \<and> m_deletedAt m = None" if "m \<in> set (messages d)" for m
    using unique_row [OF assms that] that by (auto simp: live_messages_def)
  then show ?thesis by (auto simp: update_where_def silenced_def)
qed

lemma tombstone_all_effect:
  assumes "distinct (map m_id (messages (w_db w)))" and "tombstone_all e a i (live_messages t (w_db w)) w = (Inr x, w')"
  shows "core (w_db w') = core (messages_update (silenced e t) (w_db w))
    \<and> (\<exists>rows. adminAuditLog (w_db w') = adminAuditLog (w_db w) @ rows \<and> map al_targetId rows = live_messages t (w_db w)
         \<and> (\<forall>r\<in>set rows. al_action r = MESSAGE_TOMBSTONE \<and> al_actorUserId r = Some a))"
proof (cases "live_messages t (w_db w) = []")
  case True
  then have "silenced e t (messages (w_db w)) = messages (w_db w)"
    by (auto simp: live_messages_def silenced_def filter_empty_conv intro!: map_idI)
  with True assms(2) show ?thesis by (auto simp: tombstone_all_def act_simps core_def)
next
  case False
  let ?ids = "live_messages t (w_db w)"
  from assms(2) False obtain w1 w2 y where r: "dbset (messages_update (update_where (\<lambda>m. m_id m \<in> set ?ids) (\<lambda>m. m\<lparr>m_deletedAt := Some (now e)\<rparr>))) w = (Inr (), w1)"
      "close_reports e a AUTO_CLOSED_SUSPENDED (\<lambda>r. rp_messageId r \<in> set ?ids) w1 = (Inr y, w2)"
      "for_each ?ids (\<lambda>i'. audit e (Some a) MESSAGE_TOMBSTONE T_MESSAGE i' None
        (JObj [(''scope'', JStr ''platform''), (''cascadeFrom'', JStr ''USER_SUSPEND''), (''suspensionId'', JStr i)])) w2 = (Inr x, w')"
    by (auto simp: tombstone_all_def whenA_def thn_ok)
  have w1: "w_db w1 = messages_update (silenced e t) (w_db w)"
    using r(1) silenced_ids [OF assms(1), of t e] by (auto simp: act_simps)
  have w2: "core (w_db w2) = core (w_db w1)" "adminAuditLog (w_db w2) = adminAuditLog (w_db w1)"
    by (rule kdb_result [OF core_frames(1) refl r(2)], rule kdb_result [OF audit_frames(1) refl r(2)])
  from audit_loop [of ?ids e a MESSAGE_TOMBSTONE T_MESSAGE None "JObj [(''scope'', JStr ''platform''), (''cascadeFrom'', JStr ''USER_SUSPEND''), (''suspensionId'', JStr i)]" w2] r(3)
  show ?thesis using w1 w2 by (auto simp: core_def)
qed

lemma suspend_cascade_effect:
  assumes "suspend_cascade e a t dto i w = (Inr r, w')" and "distinct (map m_id (messages (w_db w)))"
  shows "core (w_db w') = core (messages_update (silenced e t) (revoke_tokens e (\<lambda>x. rt_userId x = t) (w_db w)))
    \<and> r = (i, length (live_messages t (w_db w)))
    \<and> (\<exists>rows s. adminAuditLog (w_db w') = adminAuditLog (w_db w) @ rows @ [s] \<and> map al_targetId rows = live_messages t (w_db w)
         \<and> (\<forall>r\<in>set rows. al_action r = MESSAGE_TOMBSTONE \<and> al_actorUserId r = Some a)
         \<and> al_action s = USER_SUSPEND \<and> al_targetId s = t \<and> al_actorUserId s = Some a)"
proof -
  let ?d = "revoke_tokens e (\<lambda>x. rt_userId x = t) (w_db w)"
  have same: "live_messages t ?d = live_messages t (w_db w)" "messages ?d = messages (w_db w)"
    "adminAuditLog ?d = adminAuditLog (w_db w)"
    by (simp_all add: live_messages_def revoke_tokens_def)
  from assms(1) obtain x y z w2 w3 md where r:
      "tombstone_all e a i (live_messages t ?d) (w\<lparr>w_db := ?d\<rparr>) = (Inr x, w2)" "close_trigger e a (sd_reportId dto) w2 = (Inr y, w3)"
      "r = (i, length (live_messages t (w_db w)))"
      "audit e (Some a) USER_SUSPEND T_USER t (sd_reason dto) md w3 = (Inr z, w')"
    unfolding suspend_cascade_def by (auto simp: thn_ok bnd_ok dbset_ok dbget_ok ret_ok same)
  have w2: "core (w_db w2) = core (messages_update (silenced e t) ?d)" "\<exists>rows. adminAuditLog (w_db w2) = adminAuditLog (w_db w) @ rows
      \<and> map al_targetId rows = live_messages t (w_db w) \<and> (\<forall>r\<in>set rows. al_action r = MESSAGE_TOMBSTONE \<and> al_actorUserId r = Some a)"
    using tombstone_all_effect [of "w\<lparr>w_db := ?d\<rparr>" e a i t x w2] r(1) assms(2) by (simp_all add: same)
  have w3: "core (w_db w3) = core (w_db w2)" "adminAuditLog (w_db w3) = adminAuditLog (w_db w2)"
    by (rule kdb_result [OF core_frames(4) refl r(2)], rule kdb_result [OF audit_frames(3) refl r(2)])
  show ?thesis using r(3) audit_effect [OF r(4)] w2 w3 by (auto simp: core_def)
qed

lemma quiet_suspend_tx: "quiet (suspend_tx e a t dto)"
  unfolding suspend_tx_def create_suspension_def update_user_def suspend_cascade_def tombstone_all_def close_trigger_def
    close_reports_def update_report_def audit_def audit_write_def
  by (intro quiet_intros)

lemma suspendUser_ok:
  assumes "suspendUser e a ro t dto w = (Inr r, w')"
  obtains u i w1 where "ro = ADMIN" "a \<noteq> t" "find_user (w_db w) t = Some u" "u_role u \<noteq> ADMIN" "u_status u \<noteq> SUSPENDED"
    "suspend_cascade e a t dto i (w\<lparr>w_supply := Suc (w_supply w), w_db := suspended e i t a dto (w_db w)\<rparr>) = (Inr r, w1)"
    "w_db w' = w_db w1" "redisErr e = None \<longrightarrow> w_pubs w' = w_pubs w @ [PubUserKicked t ''SUSPENDED'' (now e)]"
    "case sd_expiresAt dto of None \<Rightarrow> True | Some x \<Rightarrow> now e < x"
proof -
  from assms obtain u w1 where g: "ro = ADMIN" "a \<noteq> t" "find_user (w_db w) t = Some u" "u_role u \<noteq> ADMIN" "u_status u \<noteq> SUSPENDED"
      "case sd_expiresAt dto of None \<Rightarrow> True | Some x \<Rightarrow> now e < x"
      "suspend_tx e a t dto w = (Inr r, w1)" and k: "catch_ignore (emitUserKicked e t ''SUSPENDED'') w1 = (Inr (), w')"
    unfolding suspendUser_def by (auto simp: ok_simps)
  from g(7) obtain i where i: "suspend_cascade e a t dto i (w\<lparr>w_supply := Suc (w_supply w), w_db := suspended e i t a dto (w_db w)\<rparr>) = (Inr r, w1)"
    by (rule suspend_tx_steps)
  have "w_db w' = w_db w1" using k by (auto simp: catch_ignore_def emitUserKicked_def publish_def act_simps split: option.splits)
  moreover have "redisErr e = None \<longrightarrow> w_pubs w' = w_pubs w @ [PubUserKicked t ''SUSPENDED'' (now e)]"
    using k quiet_result(3) [OF quiet_suspend_tx g(7)] by (auto simp: catch_ignore_def emitUserKicked_def publish_def act_simps)
  ultimately show thesis by (rule that [OF g(1-5) i _ _ g(6)])
qed

lemma suspended_simps [simp]:
  "messages (suspended e i t a dto d) = messages d" "refreshTokens (suspended e i t a dto d) = refreshTokens d"
  "adminAuditLog (suspended e i t a dto d) = adminAuditLog d" "live_messages t' (suspended e i t a dto d) = live_messages t' d"
  "userSuspensions (suspended e i t a dto d) = userSuspensions d @ [new_suspension e i t a dto]"
  by (simp_all add: suspended_def live_messages_def)

lemma suspended_user:
  assumes "find_user d t = Some u"
  shows "find_user (suspended e i t a dto d) t = Some (strike e u)"
proof -
  have "u_id u = t" "List.find (\<lambda>u. u_id u = t) (users d) = Some u" using assms by (auto simp: find_user_def dest: find_Some_in)
  then show ?thesis by (simp add: suspended_def find_user_def find_update_where strike_def)
qed

text \<open>C7: What suspending a user does.  It succeeds only for an administrator, against another user who is neither an
  administrator nor suspended; the target is then suspended with one more strike, every session of the target
  is revoked and no other session is touched, every message of the target that was not deleted is tombstoned
  and no other message changes, one audit row is written per tombstoned message and one for the suspension, and
  the connected clients are told to disconnect the target when Redis answers.\<close>

theorem suspendUser_effect:
  assumes "suspendUser e a ro t dto w = (Inr (i, n), w')" and "key_inv (w_db w)"
  shows "ro = ADMIN \<and> a \<noteq> t
    \<and> (\<exists>u. find_user (w_db w) t = Some u \<and> u_role u \<noteq> ADMIN \<and> u_status u = ACTIVE \<and> find_user (w_db w') t = Some (strike e u))
    \<and> (\<forall>x\<in>set (refreshTokens (w_db w')). rt_userId x = t \<longrightarrow> rt_revokedAt x \<noteq> None)
    \<and> filter (\<lambda>x. rt_userId x \<noteq> t) (refreshTokens (w_db w')) = filter (\<lambda>x. rt_userId x \<noteq> t) (refreshTokens (w_db w))
    \<and> messages (w_db w') = map (\<lambda>m. if m_senderUserId m = t \<and> m_deletedAt m = None then m\<lparr>m_deletedAt := Some (now e)\<rparr> else m) (messages (w_db w))
    \<and> n = length (live_messages t (w_db w))
    \<and> (\<exists>rows. adminAuditLog (w_db w') = adminAuditLog (w_db w) @ rows \<and> map al_targetId rows = live_messages t (w_db w) @ [t]
         \<and> map al_action rows = replicate n MESSAGE_TOMBSTONE @ [USER_SUSPEND])
    \<and> (redisErr e = None \<longrightarrow> w_pubs w' = w_pubs w @ [PubUserKicked t ''SUSPENDED'' (now e)])"
proof -
  from assms(1) obtain u j w1 where r: "ro = ADMIN" "a \<noteq> t" "find_user (w_db w) t = Some u" "u_role u \<noteq> ADMIN" "u_status u \<noteq> SUSPENDED"
    "suspend_cascade e a t dto j (w\<lparr>w_supply := Suc (w_supply w), w_db := suspended e j t a dto (w_db w)\<rparr>) = (Inr (i, n), w1)"
    "w_db w' = w_db w1" "redisErr e = None \<longrightarrow> w_pubs w' = w_pubs w @ [PubUserKicked t ''SUSPENDED'' (now e)]" by (rule suspendUser_ok)
  from suspend_cascade_effect [OF r(6)] assms(2)
  have eff: "core (w_db w') = core (messages_update (silenced e t) (revoke_tokens e (\<lambda>x. rt_userId x = t) (suspended e j t a dto (w_db w))))"
    "n = length (live_messages t (w_db w))"
    "\<exists>rows s. adminAuditLog (w_db w') = adminAuditLog (w_db w) @ rows @ [s] \<and> map al_targetId rows = live_messages t (w_db w)
         \<and> (\<forall>r\<in>set rows. al_action r = MESSAGE_TOMBSTONE) \<and> al_action s = USER_SUSPEND \<and> al_targetId s = t"
    by (auto simp: key_inv_def r(7))
  have tables: "users (w_db w') = users (suspended e j t a dto (w_db w))" "messages (w_db w') = silenced e t (messages (w_db w))"
    "refreshTokens (w_db w') = refreshTokens (revoke_tokens e (\<lambda>x. rt_userId x = t) (w_db w))"
    using eff(1) by (simp_all add: core_def revoke_tokens_def)
  have "u_status u = ACTIVE" using r(5) by (cases "u_status u") auto
  moreover have "find_user (w_db w') t = Some (strike e u)"
    using suspended_user [OF r(3), of e j a dto] tables(1) by (simp add: find_user_def)
  moreover have "\<forall>x\<in>set (refreshTokens (w_db w')). rt_userId x = t \<longrightarrow> rt_revokedAt x \<noteq> None"
    using revoke_tokens_all [of _ e "\<lambda>x. rt_userId x = t" "w_db w"] by (auto simp: tables(3))
  moreover have "filter (\<lambda>x. rt_userId x \<noteq> t) (refreshTokens (w_db w')) = filter (\<lambda>x. rt_userId x \<noteq> t) (refreshTokens (w_db w))"
    unfolding tables(3) revoke_tokens_def by simp (rule filter_update_where_other, simp)
  moreover have "\<exists>rows. adminAuditLog (w_db w') = adminAuditLog (w_db w) @ rows \<and> map al_targetId rows = live_messages t (w_db w) @ [t]
         \<and> map al_action rows = replicate n MESSAGE_TOMBSTONE @ [USER_SUSPEND]"
  proof -
    from eff(3) obtain rows s where x: "adminAuditLog (w_db w') = adminAuditLog (w_db w) @ rows @ [s]" "map al_targetId rows = live_messages t (w_db w)"
      "\<forall>r\<in>set rows. al_action r = MESSAGE_TOMBSTONE" "al_action s = USER_SUSPEND" "al_targetId s = t" by blast
    have "length rows = n" using x(2) eff(2) by (metis length_map)
    then have "map al_action rows = replicate n MESSAGE_TOMBSTONE" using x(3) by (auto simp: map_replicate_const [symmetric] intro!: map_cong)
    with x show ?thesis by (intro exI [of _ "rows @ [s]"]) simp
  qed
  ultimately show ?thesis using r(1-4,8) eff(2) tables(2) by (simp add: silenced_def)
qed

text \<open>Right after the suspension the target has an active suspension for every clock before its expiry.\<close>

lemma suspended_active:
  assumes "userSuspensions d = ss @ [new_suspension e i t a dto]" and "case sd_expiresAt dto of None \<Rightarrow> True | Some x \<Rightarrow> now e' < x"
  shows "active_suspension e' d t \<noteq> None"
proof -
  have "new_suspension e i t a dto \<in> set (filter (\<lambda>s. su_userId s = t \<and> su_revokedAt s = None
      \<and> (case su_expiresAt s of None \<Rightarrow> True | Some x \<Rightarrow> now e' < x)) (userSuspensions d))"
    using assms by (simp add: new_suspension_def)
  then show ?thesis unfolding active_suspension_def by (rule first_of_order_desc)
qed

lemma suspendUser_tables:
  assumes "suspendUser e a ro t dto w = (Inr r, w')" and "key_inv (w_db w)"
  obtains j where "userSuspensions (w_db w') = userSuspensions (w_db w) @ [new_suspension e j t a dto]"
    and "refreshTokens (w_db w') = refreshTokens (revoke_tokens e (\<lambda>x. rt_userId x = t) (w_db w))"
proof -
  from assms(1) obtain v j w1 where r: "find_user (w_db w) t = Some v"
    "suspend_cascade e a t dto j (w\<lparr>w_supply := Suc (w_supply w), w_db := suspended e j t a dto (w_db w)\<rparr>) = (Inr r, w1)"
    "w_db w' = w_db w1" by (rule suspendUser_ok)
  from suspend_cascade_effect [OF r(2)] assms(2)
  have eff: "core (w_db w') = core (messages_update (silenced e t) (revoke_tokens e (\<lambda>x. rt_userId x = t) (suspended e j t a dto (w_db w))))"
    by (auto simp: key_inv_def r(3))
  show thesis by (rule that [of j]) (use eff in \<open>simp_all add: core_def revoke_tokens_def\<close>)
qed

text \<open>No session of the target survives.\<close>

lemma suspended_sessions:
  assumes "suspendUser e a ro t dto w = (Inr r, w')" and "key_inv (w_db w)"
    and "x \<in> set (refreshTokens (w_db w'))" and "rt_revokedAt x = None"
  shows "rt_userId x \<noteq> t"
proof -
  from assms(1,2) obtain j where "refreshTokens (w_db w') = refreshTokens (revoke_tokens e (\<lambda>x. rt_userId x = t) (w_db w))"
    by (rule suspendUser_tables)
  then show ?thesis using revoke_tokens_all [of x e "\<lambda>x. rt_userId x = t" "w_db w"] assms(3,4) by auto
qed

text \<open>C8: A suspended user is locked out.  In the state that a suspension leaves, whatever token, code or ticket is
  presented: no request passes the bearer guard as the target; as long as the suspension has not expired no
  login and no refresh gives the target a session; and no socket ticket of a session of the target opens a
  connection.\<close>

theorem suspended_locked_out:
  assumes "suspendUser e a ro t dto w = (Inr r, w')" and "key_inv (w_db w)" and "token_inv (w_db w)"
  shows "(\<forall>e' verify header u w2. canActivate e' verify header w' = (Inr u, w2) \<longrightarrow> au_userId u \<noteq> t)
    \<and> (\<forall>e' p code tok meta tp w2. (case sd_expiresAt dto of None \<Rightarrow> True | Some x \<Rightarrow> now e' < x) \<longrightarrow>
         verifyLoginOtp e' p code meta w' = (Inr tp, w2) \<or> refresh e' tok meta w' = (Inr tp, w2) \<longrightarrow> tp_userId tp \<noteq> t)
    \<and> (\<forall>e' ticket sock uid did sid w2. consumeSocketTicket e' ticket sock w' = (Inr (uid, did, sid), w2) \<longrightarrow>
         (\<exists>s. find_session (w_db w') sid = Some s \<and> rt_userId s \<noteq> t))"
proof -
  from assms(1,2) obtain j where susp: "userSuspensions (w_db w') = userSuspensions (w_db w) @ [new_suspension e j t a dto]"
    and toks: "refreshTokens (w_db w') = refreshTokens (revoke_tokens e (\<lambda>x. rt_userId x = t) (w_db w))" by (rule suspendUser_tables)
  have inv: "token_inv (w_db w')" using assms(3) by (simp add: token_inv_def toks revoke_tokens_keys)
  note dead = suspended_sessions [OF assms(1,2)]
  have "au_userId u \<noteq> t" if "canActivate e' verify header w' = (Inr u, w2)" for e' verify header u w2
    using that dead find_sessionD by (auto simp: guard_admits)
  moreover have "tp_userId tp \<noteq> t" if "case sd_expiresAt dto of None \<Rightarrow> True | Some x \<Rightarrow> now e' < x"
    "verifyLoginOtp e' p code meta w' = (Inr tp, w2) \<or> refresh e' tok meta w' = (Inr tp, w2)" for e' p code tok meta tp w2
    using issued_unsuspended [OF that(2) inv] suspended_active [OF susp that(1)] by auto
  moreover have "\<exists>s. find_session (w_db w') sid = Some s \<and> rt_userId s \<noteq> t"
    if "consumeSocketTicket e' ticket sock w' = (Inr (uid, did, sid), w2)" for e' ticket sock uid did sid w2
  proof -
    from that have "consume_tx e' (sha256 e' ticket) sock w' = (Inr (uid, did, sid), w2)" by (simp add: consumeSocketTicket_def ok_simps)
    then show ?thesis by (rule consume_tx_ok) (use dead find_sessionD in fastforce)
  qed
  ultimately show ?thesis by blast
qed

section \<open>Runs of the example deployment\<close>

text \<open>Ann, the administrator, and Bob have exchanged a message each; Bob has a session of his own and has reported
  the message of Ann.\<close>

definition demo_bob_token :: refresh_token_row where
  "demo_bob_token = demo_token\<lparr>rt_id := ''s2'', rt_userId := ''bob'', rt_tokenHash := ''hbobtok''\<rparr>"

definition demo_report :: create_report_dto where
  "demo_report = \<lparr>cr_messageId = ''i1'', cr_reason = SPAM, cr_freeText = None\<rparr>"

definition demo_message :: "uuid \<Rightarrow> uuid \<Rightarrow> uuid \<Rightarrow> int \<Rightarrow> message_row" where
  "demo_message i u d n = \<lparr>m_id = i, m_threadId = Some ''i0'', m_groupId = None, m_senderUserId = u, m_senderDeviceId = d,
     m_idempotencyKey = i, m_threadSequence = n, m_contentType = TEXT, m_replyToMessageId = None, m_forwarded = False,
     m_createdAt = 0, m_deletedAt = None, m_editedAt = None, m_lastEditIdempotencyKey = None\<rparr>"

definition demo_mod_world :: world where
  "demo_mod_world = demo_world\<lparr>w_supply := 3, w_db := demo_db\<lparr>refreshTokens := [demo_token, demo_bob_token],
     directThreads := [\<lparr>th_id = ''i0'', th_userAId = ''ann'', th_userBId = ''bob'', th_latestSequence = 2, th_createdAt = 0, th_updatedAt = 0\<rparr>],
     messages := [demo_message ''i1'' ''ann'' ''a1'' 1, demo_message ''i2'' ''bob'' ''b1'' 2]\<rparr>\<rparr>"

definition demo_reported_world :: world where
  "demo_reported_world = demo_mod_world\<lparr>w_db := (w_db demo_mod_world)\<lparr>reports := [new_report demo_env ''r'' ''bob'' demo_report]\<rparr>\<rparr>"

definition demo_suspend :: "time option \<Rightarrow> suspend_dto" where
  "demo_suspend x = \<lparr>sd_reason = Some ''spam'', sd_expiresAt = x, sd_reportId = None\<rparr>"

lemma demo_susp_inv: "susp_inv (w_db demo_mod_world)"
  by (simp add: susp_inv_def demo_mod_world_def demo_db_def empty_db_def demo_user_def)

lemma demo_mod_key_inv: "key_inv (w_db demo_mod_world)"
  by (simp add: key_inv_def demo_mod_world_def demo_message_def demo_db_def empty_db_def)

lemma demo_mod_token_inv: "token_inv (w_db demo_mod_world)"
  by (simp add: token_inv_def demo_mod_world_def demo_bob_token_def demo_token_def)

theorem suspendUser_effect_witness:
  "\<exists>i n w'. suspendUser demo_env ''ann'' ADMIN ''bob'' (demo_suspend None) demo_mod_world = (Inr (i, n), w')
     \<and> n = length (live_messages ''bob'' (w_db demo_mod_world))
     \<and> (\<forall>x\<in>set (refreshTokens (w_db w')). rt_userId x = ''bob'' \<longrightarrow> rt_revokedAt x \<noteq> None)"
proof -
  have "\<not> isl (fst (suspendUser demo_env ''ann'' ADMIN ''bob'' (demo_suspend None) demo_mod_world))" by code_simp
  then obtain r w' where "suspendUser demo_env ''ann'' ADMIN ''bob'' (demo_suspend None) demo_mod_world = (Inr r, w')" by (rule run_okE)
  then obtain i n where run: "suspendUser demo_env ''ann'' ADMIN ''bob'' (demo_suspend None) demo_mod_world = (Inr (i, n), w')" by (cases r) auto
  from suspendUser_effect [OF run demo_mod_key_inv] run show ?thesis by blast
qed

theorem suspended_locked_out_witness:
  "\<exists>r w'. suspendUser demo_env ''ann'' ADMIN ''bob'' (demo_suspend None) demo_mod_world = (Inr r, w')
     \<and> (\<forall>tok tp w2. refresh demo_env tok demo_meta w' = (Inr tp, w2) \<longrightarrow> tp_userId tp \<noteq> ''bob'')"
proof -
  have "\<not> isl (fst (suspendUser demo_env ''ann'' ADMIN ''bob'' (demo_suspend None) demo_mod_world))" by code_simp
  then obtain r w' where run: "suspendUser demo_env ''ann'' ADMIN ''bob'' (demo_suspend None) demo_mod_world = (Inr r, w')" by (rule run_okE)
  have "sd_expiresAt (demo_suspend None) = None" by (simp add: demo_suspend_def)
  with suspended_locked_out [OF run demo_mod_key_inv demo_mod_token_inv]
  have "\<forall>tok tp w2. refresh demo_env tok demo_meta w' = (Inr tp, w2) \<longrightarrow> tp_userId tp \<noteq> ''bob''" by auto
  with run show ?thesis by blast
qed

text \<open>A suspension that ends a second later is lifted by the job that runs an hour later.\<close>

definition demo_suspended_world :: world where
  "demo_suspended_world = snd (suspendUser demo_env ''ann'' ADMIN ''bob'' (demo_suspend (Some 1001000)) demo_mod_world)"

lemma demo_suspended_inv: "susp_inv (w_db demo_suspended_world)"
  unfolding demo_suspended_world_def by (rule kdbD [OF susp_suspendUser demo_susp_inv])

theorem reactivation_complete_witness:
  "length (expired_suspensions 4600000 (w_db demo_suspended_world)) = 1
   \<and> (\<exists>w'. runReactivation demo_env 4600000 demo_suspended_world = (Inr 1, w') \<and> expired_suspensions 4600000 (w_db w') = [])"
proof -
  have n: "length (expired_suspensions 4600000 (w_db demo_suspended_world)) = 1" by code_simp
  from reactivation_complete [OF demo_suspended_inv, of demo_env 4600000] n show ?thesis by auto
qed


end
