(* ===== verification/Reactions.thy ===== *)
theory Reactions
  imports Group_Chat
begin

text \<open>
  Reactions: \<open>src/reactions/reactions.service.ts\<close> and the worker \<open>src/reactions/queue/reaction-fanout.processor.ts\<close>.
  The specification of the component is a partial map from (user, message) to the emoji; toggling refines
  its update.  The counts of a message are cached in Redis; the cache is exact while Redis answers.  The
  expiry of a cached entry (300 seconds) only makes it absent.
\<close>

section \<open>\<open>ReactionsService\<close>\<close>

record reaction_count =
  rc_emoji :: string
  rc_count :: nat
  rc_reacted :: bool

definition find_reaction :: "db \<Rightarrow> uuid \<Rightarrow> uuid \<Rightarrow> reaction_row option" where
  "find_reaction d userId messageId = List.find (\<lambda>r. rx_userId r = userId \<and> rx_messageId r = messageId) (messageReactions d)"

text \<open>\<open>assertMessageAccess\<close> of this service\<close>

definition reaction_access :: "db \<Rightarrow> uuid \<Rightarrow> message_row \<Rightarrow> error option" where
  "reaction_access d userId message = (case m_threadId message of
     Some t \<Rightarrow> (case find_thread d t of
         Some th \<Rightarrow> if th_userAId th = userId \<or> th_userBId th = userId then None
                    else Some (Forbidden ''Not a participant in this thread'')
       | None \<Rightarrow> Some (Forbidden ''Not a participant in this thread''))
   | None \<Rightarrow> (case m_groupId message of
         Some g \<Rightarrow> if find_member d g userId \<noteq> None then None else Some (Forbidden ''Not a member of this group'')
       | None \<Rightarrow> None))"

definition assertReactionAccess :: "uuid \<Rightarrow> uuid \<Rightarrow> message_row svc" where
  "assertReactionAccess userId messageId = bnd (dbget (\<lambda>d. find_message d messageId)) (\<lambda>found.
     bnd (require found (NotFound ''Message not found'')) (\<lambda>message.
     bnd (dbget (\<lambda>d. reaction_access d userId message)) (\<lambda>denied.
     case denied of Some er \<Rightarrow> throw er | None \<Rightarrow> ret message)))"

definition invalidateCache :: "env \<Rightarrow> uuid \<Rightarrow> unit svc" where
  "invalidateCache e messageId = redis_set e (\<lambda>r. r\<lparr>r_reactions := (r_reactions r)(messageId := None)\<rparr>)"

definition getCachedReactions :: "env \<Rightarrow> uuid \<Rightarrow> (string \<times> nat) list option svc" where
  "getCachedReactions e messageId = redis_get e (\<lambda>r. r_reactions r messageId)"

definition cacheReactions :: "env \<Rightarrow> uuid \<Rightarrow> reaction_count list \<Rightarrow> unit svc" where
  "cacheReactions e messageId data = redis_set e (\<lambda>r. r\<lparr>r_reactions :=
     (r_reactions r)(messageId := Some (map (\<lambda>c. (rc_emoji c, rc_count c)) data))\<rparr>)"

text \<open>A group message goes through the fan-out queue, a direct one to the other participant at once.\<close>

definition emitReactionEvent :: "env \<Rightarrow> bool \<Rightarrow> uuid \<Rightarrow> uuid \<Rightarrow> message_row \<Rightarrow> uuid \<Rightarrow> string \<Rightarrow> unit svc" where
  "emitReactionEvent e created reactionId messageId message userId emoji =
     (case m_groupId message of
        Some g \<Rightarrow> queue_add e (ReactionFanout \<lparr>rj_reactionId = reactionId, rj_messageId = messageId, rj_groupId = Some g,
             rj_threadId = None, rj_userId = userId, rj_emoji = emoji, rj_createdAt = now e, rj_created = created\<rparr>)
      | None \<Rightarrow> bnd (dbget (\<lambda>d. thread_others d message userId)) (\<lambda>targets. case targets of
          None \<Rightarrow> ret ()
        | Some ts \<Rightarrow> emit (EvReaction \<lparr>rj_reactionId = reactionId, rj_messageId = messageId, rj_groupId = None,
             rj_threadId = m_threadId message, rj_userId = userId, rj_emoji = emoji, rj_createdAt = now e,
             rj_created = created\<rparr> ts)))"

definition delete_reaction :: "uuid \<Rightarrow> db \<Rightarrow> db" where
  "delete_reaction i = messageReactions_update (delete_where (\<lambda>r. rx_id r = i))"

definition new_reaction :: "env \<Rightarrow> uuid \<Rightarrow> uuid \<Rightarrow> uuid \<Rightarrow> string \<Rightarrow> reaction_row" where
  "new_reaction e i userId messageId emoji = \<lparr>rx_id = i, rx_messageId = messageId, rx_userId = userId, rx_emoji = emoji, rx_createdAt = now e\<rparr>"

definition upsert_reaction :: "env \<Rightarrow> uuid \<Rightarrow> uuid \<Rightarrow> string \<Rightarrow> uuid svc" where
  "upsert_reaction e userId messageId emoji = bnd (dbget (\<lambda>d. find_reaction d userId messageId)) (\<lambda>found. case found of
     Some x \<Rightarrow> thn (dbset (messageReactions_update (update_where (\<lambda>r. rx_userId r = userId \<and> rx_messageId r = messageId)
                   (\<lambda>r. r\<lparr>rx_emoji := emoji\<rparr>)))) (ret (rx_id x))
   | None \<Rightarrow> bnd (fresh e) (\<lambda>i. bnd (dbget id) (\<lambda>d.
       thn (ensure (\<not> exists_where (\<lambda>r. rx_id r = i) (messageReactions d)) (PrismaError ''P2002''))
      (thn (ensure (find_user d userId \<noteq> None \<and> find_message d messageId \<noteq> None) (PrismaError ''P2003''))
      (thn (dbset (messageReactions_update (\<lambda>rs. rs @ [new_reaction e i userId messageId emoji]))) (ret i))))))"

text \<open>The answer tells whether the reaction was added (otherwise removed), with its emoji and id.\<close>

definition toggle_tx :: "env \<Rightarrow> uuid \<Rightarrow> uuid \<Rightarrow> string \<Rightarrow> (bool \<times> string \<times> uuid) svc" where
  "toggle_tx e userId messageId emoji = bnd (dbget (\<lambda>d. find_reaction d userId messageId)) (\<lambda>existing.
     let upsert = bnd (upsert_reaction e userId messageId emoji) (\<lambda>i. ret (True, emoji, i)) in
     case existing of
       None \<Rightarrow> upsert
     | Some x \<Rightarrow> if rx_emoji x = emoji
         then thn (dbset (delete_reaction (rx_id x))) (ret (False, rx_emoji x, rx_id x))
         else upsert)"

definition toggle :: "env \<Rightarrow> uuid \<Rightarrow> uuid \<Rightarrow> string \<Rightarrow> (bool \<times> string) svc" where
  "toggle e userId messageId emoji =
     bnd (assertReactionAccess userId messageId) (\<lambda>message.
     bnd (tx (toggle_tx e userId messageId emoji)) (\<lambda>(added, emoji', reactionId).
     thn (invalidateCache e messageId)
    (thn (emitReactionEvent e added reactionId messageId message userId emoji')
         (ret (added, emoji')))))"

definition remove_tx :: "uuid \<Rightarrow> uuid \<Rightarrow> reaction_row option svc" where
  "remove_tx userId messageId = bnd (dbget (\<lambda>d. find_reaction d userId messageId)) (\<lambda>existing. case existing of
     None \<Rightarrow> ret None
   | Some x \<Rightarrow> thn (dbset (delete_reaction (rx_id x))) (ret (Some x)))"

definition removeReaction :: "env \<Rightarrow> uuid \<Rightarrow> uuid \<Rightarrow> bool svc" where
  "removeReaction e userId messageId =
     bnd (assertReactionAccess userId messageId) (\<lambda>message.
     bnd (tx (remove_tx userId messageId)) (\<lambda>result. case result of
       None \<Rightarrow> ret False
     | Some x \<Rightarrow>
         thn (invalidateCache e messageId)
        (thn (emitReactionEvent e False (rx_id x) messageId message userId (rx_emoji x))
             (ret True))))"

text \<open>\<open>counts.set(r.emoji, (counts.get(r.emoji) ?? 0) + 1)\<close>; a \<open>Map\<close> keeps its keys in insertion order.\<close>

fun bump :: "string \<Rightarrow> (string \<times> nat) list \<Rightarrow> (string \<times> nat) list" where
  "bump emoji [] = [(emoji, 1)]"
| "bump emoji ((x, n) # cs) = (if x = emoji then (x, n + 1) # cs else (x, n) # bump emoji cs)"

definition emoji_counts :: "string list \<Rightarrow> (string \<times> nat) list" where
  "emoji_counts xs = foldl (\<lambda>cs x. bump x cs) [] xs"

definition emojis_of :: "db \<Rightarrow> uuid \<Rightarrow> string list" where
  "emojis_of d messageId = map rx_emoji (filter (\<lambda>r. rx_messageId r = messageId) (messageReactions d))"

definition with_reacted :: "string option \<Rightarrow> (string \<times> nat) list \<Rightarrow> reaction_count list" where
  "with_reacted own cs = map (\<lambda>(x, n). \<lparr>rc_emoji = x, rc_count = n, rc_reacted = (own = Some x)\<rparr>) cs"

definition getAggregated :: "env \<Rightarrow> uuid \<Rightarrow> uuid \<Rightarrow> reaction_count list svc" where
  "getAggregated e userId messageId =
     bnd (assertReactionAccess userId messageId) (\<lambda>_.
     bnd (dbget (\<lambda>d. map_option rx_emoji (find_reaction d userId messageId))) (\<lambda>own.
     bnd (getCachedReactions e messageId) (\<lambda>cached. case cached of
       Some cs \<Rightarrow> ret (with_reacted own cs)
     | None \<Rightarrow>
         bnd (dbget (\<lambda>d. emojis_of d messageId)) (\<lambda>emojis.
         let result = with_reacted own (emoji_counts emojis) in
         thn (cacheReactions e messageId result) (ret result)))))"

section \<open>\<open>ReactionFanoutProcessor\<close>\<close>

text \<open>The members of a group: from the cache, or from the table and then into the cache.\<close>

definition group_member_ids :: "env \<Rightarrow> uuid \<Rightarrow> uuid list svc" where
  "group_member_ids e groupId = bnd (getGroupMemberIds e groupId) (\<lambda>cached. case cached of
     Some ids \<Rightarrow> ret ids
   | None \<Rightarrow> bnd (dbget (\<lambda>d. map gm_userId (filter (\<lambda>m. gm_groupId m = groupId) (groupMembers d)))) (\<lambda>ids.
       thn (catch_ignore (setGroupMemberIds e groupId ids)) (ret ids)))"

definition processReactionFanout :: "env \<Rightarrow> reaction_payload \<Rightarrow> nat svc" where
  "processReactionFanout e j = bnd (group_member_ids e (coalesce (rj_groupId j) [])) (\<lambda>memberIds.
     let targetUserIds = filter (\<lambda>i. i \<noteq> rj_userId j) memberIds in
     if targetUserIds = [] then ret 0
     else thn (emit (EvReaction j targetUserIds)) (ret (length targetUserIds)))"

section \<open>The specification\<close>

text \<open>What users see: at most one emoji per user and message.\<close>

definition reactions_abs :: "db \<Rightarrow> uuid \<times> uuid \<Rightarrow> string option" where
  "reactions_abs d k = map_option rx_emoji (find_reaction d (fst k) (snd k))"

definition toggle_spec :: "string \<Rightarrow> string option \<Rightarrow> string option" where
  "toggle_spec x cur = (if cur = Some x then None else Some x)"

definition reaction_inv :: "db \<Rightarrow> bool" where
  "reaction_inv d \<longleftrightarrow> distinct (map rx_id (messageReactions d))
     \<and> distinct (map (\<lambda>r. (rx_userId r, rx_messageId r)) (messageReactions d))"

lemma find_reaction_eq:
  "find_reaction d u m = List.find (\<lambda>r. (rx_userId r, rx_messageId r) = (u, m)) (messageReactions d)"
  by (simp add: find_reaction_def)

lemma find_reactionD:
  "find_reaction d u m = Some r \<Longrightarrow> r \<in> set (messageReactions d) \<and> rx_userId r = u \<and> rx_messageId r = m"
  by (auto simp: find_reaction_def dest: find_Some_in)

lemma find_reaction_in:
  "reaction_inv d \<Longrightarrow> r \<in> set (messageReactions d) \<Longrightarrow> find_reaction d (rx_userId r) (rx_messageId r) = Some r"
  unfolding reaction_inv_def find_reaction_eq by (rule find_unique [of "\<lambda>r. (rx_userId r, rx_messageId r)"]) auto

text \<open>Removing the row that was found removes exactly the entry of the map.\<close>

lemma delete_found:
  assumes "reaction_inv d" and "find_reaction d u m = Some x"
  shows "messageReactions (delete_reaction (rx_id x) d) = filter (\<lambda>r. \<not> (rx_userId r = u \<and> rx_messageId r = m)) (messageReactions d)"
proof -
  note x = find_reactionD [OF assms(2)]
  have "rx_id r = rx_id x \<longleftrightarrow> rx_userId r = u \<and> rx_messageId r = m" if r: "r \<in> set (messageReactions d)" for r
  proof
    assume "rx_id r = rx_id x"
    then have "r = x" using r x assms(1) by (auto simp: reaction_inv_def intro: unique_row [of rx_id])
    with x show "rx_userId r = u \<and> rx_messageId r = m" by simp
  next
    assume "rx_userId r = u \<and> rx_messageId r = m"
    with find_reaction_in [OF assms(1) r] assms(2) show "rx_id r = rx_id x" by simp
  qed
  then show ?thesis by (auto simp: delete_reaction_def delete_where_def intro: filter_cong)
qed

lemma find_filter_none: "(\<And>r. q r \<Longrightarrow> p r) \<Longrightarrow> List.find q (filter (\<lambda>r. \<not> p r) rs) = None"
  by (induction rs) auto

lemma find_filter_other: "(\<And>r. q r \<Longrightarrow> \<not> p r) \<Longrightarrow> List.find q (filter (\<lambda>r. \<not> p r) rs) = List.find q rs"
  by (induction rs) auto

lemma new_reaction_simps [simp]:
  "rx_id (new_reaction e i u m em) = i" "rx_userId (new_reaction e i u m em) = u"
  "rx_messageId (new_reaction e i u m em) = m" "rx_emoji (new_reaction e i u m em) = em"
  by (simp_all add: new_reaction_def)

lemma reactions_abs_delete:
  assumes "reaction_inv d" and "find_reaction d u m = Some x"
  shows "reactions_abs (delete_reaction (rx_id x) d) = (reactions_abs d)((u, m) := None)" and "reaction_inv (delete_reaction (rx_id x) d)"
proof -
  show "reaction_inv (delete_reaction (rx_id x) d)"
    using assms(1) by (simp add: reaction_inv_def delete_found [OF assms] distinct_map_filter)
  have "find_reaction (delete_reaction (rx_id x) d) u' m' = (if (u', m') = (u, m) then None else find_reaction d u' m')" for u' m'
    unfolding find_reaction_def delete_found [OF assms]
    by (cases "(u', m') = (u, m)") (auto simp del: de_Morgan_conj intro!: find_filter_none find_filter_other)
  then show "reactions_abs (delete_reaction (rx_id x) d) = (reactions_abs d)((u, m) := None)"
    by (auto simp: reactions_abs_def fun_eq_iff)
qed

lemma reactions_abs_update:
  fixes em :: string
  assumes "reaction_inv d" and "find_reaction d u m = Some x"
  defines "d' \<equiv> messageReactions_update (update_where (\<lambda>r. rx_userId r = u \<and> rx_messageId r = m) (\<lambda>r. r\<lparr>rx_emoji := em\<rparr>)) d"
  shows "reactions_abs d' = (reactions_abs d)((u, m) := Some em)" and "reaction_inv d'"
proof -
  show "reaction_inv d'" using assms(1) by (simp add: reaction_inv_def d'_def map_update_where)
  have "find_reaction d' u' m' = map_option (\<lambda>r. if rx_userId r = u \<and> rx_messageId r = m then r\<lparr>rx_emoji := em\<rparr> else r) (find_reaction d u' m')" for u' m'
    by (simp add: find_reaction_def d'_def find_update_where)
  then have "reactions_abs d' k = ((reactions_abs d)((u, m) := Some em)) k" for k
    using assms(2) by (cases k; cases "find_reaction d (fst k) (snd k)") (auto simp: reactions_abs_def dest: find_reactionD)
  then show "reactions_abs d' = (reactions_abs d)((u, m) := Some em)" by blast
qed

lemma reactions_abs_insert:
  assumes "reaction_inv d" and "find_reaction d (rx_userId r) (rx_messageId r) = None" and "\<forall>x\<in>set (messageReactions d). rx_id x \<noteq> rx_id r"
  defines "d' \<equiv> messageReactions_update (\<lambda>rs. rs @ [r]) d"
  shows "reactions_abs d' = (reactions_abs d)((rx_userId r, rx_messageId r) := Some (rx_emoji r))" and "reaction_inv d'"
proof -
  show "reaction_inv d'"
    using assms(1-3) by (auto simp: reaction_inv_def d'_def find_reaction_def find_None_all)
  show "reactions_abs d' = (reactions_abs d)((rx_userId r, rx_messageId r) := Some (rx_emoji r))"
    using assms(2) by (auto simp: reactions_abs_def fun_eq_iff d'_def find_reaction_def find_append split: option.split)
qed

text \<open>What a committed toggle did to the table.\<close>

lemma upsert_reaction_effect:
  assumes "upsert_reaction e u m em w = (Inr i, w')" and "reaction_inv (w_db w)"
  shows "reactions_abs (w_db w') = (reactions_abs (w_db w))((u, m) := Some em) \<and> reaction_inv (w_db w')"
proof (cases "find_reaction (w_db w) u m")
  case None
  with assms(1) have "\<forall>x\<in>set (messageReactions (w_db w)). rx_id x \<noteq> i"
      "w_db w' = messageReactions_update (\<lambda>rs. rs @ [new_reaction e i u m em]) (w_db w)"
    by (auto simp: upsert_reaction_def ok_simps)
  then show ?thesis using reactions_abs_insert [OF assms(2), of "new_reaction e i u m em"] None by simp
next
  case (Some x)
  with assms(1) have "w_db w' = messageReactions_update (update_where (\<lambda>r. rx_userId r = u \<and> rx_messageId r = m) (\<lambda>r. r\<lparr>rx_emoji := em\<rparr>)) (w_db w)"
    by (auto simp: upsert_reaction_def ok_simps)
  with reactions_abs_update [OF assms(2) Some] show ?thesis by simp
qed

lemma toggle_tx_effect:
  assumes "toggle_tx e u m em w = (Inr (added, x, i), w')" and "reaction_inv (w_db w)"
  shows "reactions_abs (w_db w') = (reactions_abs (w_db w))((u, m) := toggle_spec em (reactions_abs (w_db w) (u, m)))
    \<and> reaction_inv (w_db w') \<and> x = em \<and> added = (reactions_abs (w_db w) (u, m) \<noteq> Some em)"
proof (cases "reactions_abs (w_db w) (u, m) = Some em")
  case True
  then obtain r where r: "find_reaction (w_db w) u m = Some r" "rx_emoji r = em" by (auto simp: reactions_abs_def)
  then have "w_db w' = delete_reaction (rx_id r) (w_db w)" "x = em" "\<not> added" using assms(1) by (auto simp: toggle_tx_def Let_def ok_simps)
  with reactions_abs_delete [OF assms(2) r(1)] True show ?thesis by (simp add: toggle_spec_def)
next
  case False
  then have "upsert_reaction e u m em w = (Inr i, w')" "x = em" "added"
    using assms(1) by (auto simp: toggle_tx_def Let_def reactions_abs_def ok_simps split: option.splits)
  with upsert_reaction_effect [OF _ assms(2)] False show ?thesis by (simp add: toggle_spec_def)
qed

lemma kdb_after_toggle [kdb_intros]:
  "kdb P (invalidateCache e m)" "kdb P (emitReactionEvent e c i m msg u em)" "kdb P (assertReactionAccess u m)"
  "kdb P (getCachedReactions e m)" "kdb P (cacheReactions e m rs)"
  unfolding invalidateCache_def emitReactionEvent_def assertReactionAccess_def getCachedReactions_def cacheReactions_def
  by (intro kdb_intros)+

lemma assertReactionAccess_ok:
  "assertReactionAccess u m w = (Inr msg, w') \<longleftrightarrow>
     w' = w \<and> find_message (w_db w) m = Some msg \<and> reaction_access (w_db w) u msg = None"
  by (auto simp: assertReactionAccess_def ok_simps split: option.splits)

lemma toggle_steps:
  assumes "toggle e u m em w = (Inr (added, x), w')"
  obtains msg i w1 where "find_message (w_db w) m = Some msg" "reaction_access (w_db w) u msg = None"
    "toggle_tx e u m em w = (Inr (added, x, i), w1)" "w_db w' = w_db w1" "redisErr e = None"
    "r_reactions (w_redis w') = (r_reactions (w_redis w1))(m := None)"
proof -
  from assms obtain msg i w1 w2 where r: "find_message (w_db w) m = Some msg" "reaction_access (w_db w) u msg = None"
      "toggle_tx e u m em w = (Inr (added, x, i), w1)" "invalidateCache e m w1 = (Inr (), w2)"
      "emitReactionEvent e added i m msg u x w2 = (Inr (), w')"
    unfolding toggle_def by (auto simp: bnd_ok thn_ok assertReactionAccess_ok tx_ok ret_ok split: prod.splits)
  from r(4) have w2: "redisErr e = None" "w2 = w1\<lparr>w_redis := (w_redis w1)\<lparr>r_reactions := (r_reactions (w_redis w1))(m := None)\<rparr>\<rparr>"
    by (auto simp: invalidateCache_def ok_simps)
  moreover have "w_db w' = w_db w2 \<and> w_redis w' = w_redis w2"
    using r(5) by (auto simp: emitReactionEvent_def ok_simps split: option.splits)
  ultimately show thesis using that r by simp
qed

text \<open>C33: Toggling refines the map.  A toggle that succeeds was allowed for a participant of the conversation; in the map from
  (user, message) to the emoji it changes exactly the entry of that user and message: the same emoji removes
  the reaction, another one replaces it, and the answer says which; every other reaction is untouched and a
  user never has two reactions to a message.\<close>

theorem toggle_refines:
  assumes "toggle e u m em w = (Inr (added, x), w')" and "reaction_inv (w_db w)"
  shows "reactions_abs (w_db w') = (reactions_abs (w_db w))((u, m) := toggle_spec em (reactions_abs (w_db w) (u, m)))
    \<and> added = (toggle_spec em (reactions_abs (w_db w) (u, m)) = Some em) \<and> x = em \<and> reaction_inv (w_db w')
    \<and> (\<exists>msg. find_message (w_db w) m = Some msg \<and> reaction_access (w_db w) u msg = None)"
proof -
  from assms(1) obtain msg i w1 where r: "find_message (w_db w) m = Some msg" "reaction_access (w_db w) u msg = None"
    "toggle_tx e u m em w = (Inr (added, x, i), w1)" "w_db w' = w_db w1" by (rule toggle_steps)
  from toggle_tx_effect [OF r(3) assms(2)] r show ?thesis by (auto simp: toggle_spec_def)
qed

text \<open>Toggling twice with the same emoji is undone.  Starting from no reaction or from the same emoji, two toggles in
  a row lead back to the same map of reactions.\<close>

lemma toggle_twice:
  assumes "toggle e u m em w = (Inr r1, w1)" and "toggle e' u m em w1 = (Inr r2, w2)" and "reaction_inv (w_db w)"
    and "reactions_abs (w_db w) (u, m) \<in> {None, Some em}"
  shows "reactions_abs (w_db w2) = reactions_abs (w_db w)"
proof -
  obtain a1 x1 a2 x2 where p: "r1 = (a1, x1)" "r2 = (a2, x2)" by (cases r1; cases r2)
  from assms(1) p obtain msg i wa where t1: "toggle_tx e u m em w = (Inr (a1, x1, i), wa)" "w_db w1 = w_db wa" by (auto elim: toggle_steps)
  from assms(2) p obtain msg j wb where t2: "toggle_tx e' u m em w1 = (Inr (a2, x2, j), wb)" "w_db w2 = w_db wb" by (auto elim: toggle_steps)
  note e1 = toggle_tx_effect [OF t1(1) assms(3)]
  then have "reaction_inv (w_db w1)" by (simp add: t1(2))
  note e2 = toggle_tx_effect [OF t2(1) this]
  from e1 e2 assms(4) show ?thesis by (auto simp: t1(2) t2(2) toggle_spec_def fun_eq_iff)
qed

section \<open>Counting\<close>

lemma bump_keys: "distinct (map fst cs) \<Longrightarrow> distinct (map fst (bump x cs)) \<and> set (map fst (bump x cs)) = insert x (set (map fst cs))"
  by (induction x cs rule: bump.induct) auto

lemma bump_count: "map_of (bump x cs) y = (if y = x then Some (case map_of cs x of None \<Rightarrow> 1 | Some n \<Rightarrow> n + 1) else map_of cs y)"
  by (induction x cs rule: bump.induct) auto

lemma emoji_counts_snoc: "emoji_counts (xs @ [x]) = bump x (emoji_counts xs)"
  by (simp add: emoji_counts_def)

lemma emoji_counts_distinct: "distinct (map fst (emoji_counts xs))"
  by (induction xs rule: rev_induct) (auto simp: emoji_counts_snoc bump_keys emoji_counts_def)

lemma emoji_counts_map_of: "map_of (emoji_counts xs) x = (if x \<in> set xs then Some (count_list xs x) else None)"
proof (induction xs rule: rev_induct)
  case Nil
  then show ?case by (simp add: emoji_counts_def)
next
  case (snoc y xs)
  then show ?case by (auto simp: emoji_counts_snoc bump_count)
qed

lemma emoji_counts_iff: "(x, n) \<in> set (emoji_counts xs) \<longleftrightarrow> x \<in> set xs \<and> n = count_list xs x"
  using map_of_eq_Some_iff [OF emoji_counts_distinct, of xs x n] by (auto simp: emoji_counts_map_of split: if_splits)

lemma reactors:
  assumes "reaction_inv d"
  shows "count_list (emojis_of d m) x = card {v. reactions_abs d (v, m) = Some x}"
proof -
  let ?rs = "filter (\<lambda>r. rx_messageId r = m \<and> rx_emoji r = x) (messageReactions d)"
  have inj: "inj_on rx_userId (set ?rs)" and dist: "distinct ?rs"
    using assms by (auto simp: reaction_inv_def inj_on_def distinct_map)
  have "{v. reactions_abs d (v, m) = Some x} = rx_userId ` set ?rs"
  proof (intro set_eqI iffI)
    fix v assume "v \<in> {v. reactions_abs d (v, m) = Some x}"
    then show "v \<in> rx_userId ` set ?rs" by (force simp: reactions_abs_def dest: find_reactionD)
  next
    fix v assume "v \<in> rx_userId ` set ?rs"
    then show "v \<in> {v. reactions_abs d (v, m) = Some x}" using find_reaction_in [OF assms] by (auto simp: reactions_abs_def)
  qed
  moreover have "count_list (emojis_of d m) x = length ?rs"
    by (simp add: emojis_of_def count_list_eq_length_filter filter_map comp_def conj_commute eq_commute)
  ultimately show ?thesis using card_image [OF inj] distinct_card [OF dist] by simp
qed

section \<open>The cache\<close>

definition cache_exact :: "world \<Rightarrow> bool" where
  "cache_exact w \<longleftrightarrow> (\<forall>m cs. r_reactions (w_redis w) m = Some cs \<longrightarrow> cs = emoji_counts (emojis_of (w_db w) m))"

text \<open>Calls of the service, with any arguments and outcome, while Redis answers.\<close>

inductive reaction_step :: "world \<Rightarrow> world \<Rightarrow> bool" where
  toggled: "redisErr e = None \<Longrightarrow> toggle e u m em w = (r, w') \<Longrightarrow> reaction_step w w'"
| removed: "redisErr e = None \<Longrightarrow> removeReaction e u m w = (r', w') \<Longrightarrow> reaction_step w w'"
| listed: "redisErr e = None \<Longrightarrow> getAggregated e u m w = (r'', w') \<Longrightarrow> reaction_step w w'"

inductive_cases reaction_stepE: "reaction_step w w'"

text \<open>A transaction of this component changes only the reactions to its message, and no key of Redis.\<close>

definition local_change :: "uuid \<Rightarrow> world \<Rightarrow> world \<Rightarrow> bool" where
  "local_change m w w' \<longleftrightarrow> reaction_inv (w_db w') \<and> w_redis w' = w_redis w \<and> (\<forall>m'. m' \<noteq> m \<longrightarrow> emojis_of (w_db w') m' = emojis_of (w_db w) m')"

lemma local_change_refl: "reaction_inv (w_db w) \<Longrightarrow> local_change m w w"
  by (simp add: local_change_def)

lemma delete_local:
  assumes "reaction_inv d" and "find_reaction d u m = Some x" and "m' \<noteq> m"
  shows "emojis_of (delete_reaction (rx_id x) d) m' = emojis_of d m'"
  using assms(3) by (auto simp: emojis_of_def delete_found [OF assms(1,2)] filter_filter intro!: arg_cong [of _ _ "map rx_emoji"] filter_cong)

lemma upsert_local:
  assumes "upsert_reaction e u m em w = (Inr i, w')" and "reaction_inv (w_db w)"
  shows "local_change m w w'"
proof -
  have "emojis_of (w_db w') m' = emojis_of (w_db w) m'" if "m' \<noteq> m" for m'
    using assms(1) that by (cases "find_reaction (w_db w) u m")
      (auto simp: upsert_reaction_def ok_simps emojis_of_def intro!: arg_cong [of _ _ "map rx_emoji"] filter_update_where_other)
  moreover have "w_redis w' = w_redis w" using assms(1) by (auto simp: upsert_reaction_def ok_simps split: option.splits)
  ultimately show ?thesis using upsert_reaction_effect [OF assms] by (simp add: local_change_def)
qed

lemma toggle_tx_local:
  assumes "toggle_tx e u m em w = (Inr r, w')" and "reaction_inv (w_db w)"
  shows "local_change m w w'"
proof (cases "\<exists>x. find_reaction (w_db w) u m = Some x \<and> rx_emoji x = em")
  case True
  then obtain x where x: "find_reaction (w_db w) u m = Some x" "rx_emoji x = em" by blast
  then have "w' = w\<lparr>w_db := delete_reaction (rx_id x) (w_db w)\<rparr>" using assms(1) by (auto simp: toggle_tx_def Let_def ok_simps)
  with reactions_abs_delete(2) [OF assms(2) x(1)] delete_local [OF assms(2) x(1)] show ?thesis by (simp add: local_change_def)
next
  case False
  then have "\<exists>i. upsert_reaction e u m em w = (Inr i, w')"
    using assms(1) by (auto simp: toggle_tx_def Let_def ok_simps split: option.splits)
  then show ?thesis using upsert_local assms(2) by blast
qed

lemma remove_tx_local:
  assumes "remove_tx u m w = (Inr r, w')" and "reaction_inv (w_db w)"
  shows "local_change m w w' \<and> (r = None \<longrightarrow> w' = w)"
proof (cases "find_reaction (w_db w) u m")
  case None
  with assms show ?thesis by (auto simp: remove_tx_def ok_simps local_change_refl)
next
  case (Some x)
  then have "w' = w\<lparr>w_db := delete_reaction (rx_id x) (w_db w)\<rparr> \<and> r = Some x" using assms(1) by (auto simp: remove_tx_def ok_simps)
  with reactions_abs_delete(2) [OF assms(2) Some] delete_local [OF assms(2) Some] show ?thesis by (simp add: local_change_def)
qed

lemma tx_failed_same:
  assumes "tx k w = (Inl er, w')" and "\<And>x. keeps (\<lambda>v. w_redis v = x) k"
  shows "w_db w' = w_db w \<and> w_redis w' = w_redis w"
proof -
  from assms(1) obtain v where v: "k w = (Inl er, v)" "w' = v\<lparr>w_db := w_db w\<rparr>" by (auto simp: act_simps split: prod.splits sum.splits)
  with keeps_result [OF assms(2) [of "w_redis w"] refl v(1)] show ?thesis by simp
qed

text \<open>After a local change and the invalidation of its message, whatever is sent afterwards, the cache is exact.\<close>

lemma exact_after:
  assumes "cache_exact w" and "local_change m w w1" and "redisErr e = None"
    and "thn (invalidateCache e m) (thn (emitReactionEvent e c i m msg u em) (ret z)) w1 = (r, w')"
  shows "cache_exact w' \<and> reaction_inv (w_db w')"
proof -
  let ?w2 = "w1\<lparr>w_redis := (w_redis w1)\<lparr>r_reactions := (r_reactions (w_redis w1))(m := None)\<rparr>\<rparr>"
  have "w_db w' = w_db ?w2 \<and> w_redis w' = w_redis ?w2"
    using assms(3,4) by (auto simp: invalidateCache_def emitReactionEvent_def redis_set_def queue_add_def act_simps split: option.splits)
  with assms(1,2) show ?thesis by (auto simp: cache_exact_def local_change_def split: if_splits)
qed

lemma redis_frame [keeps_intros]:
  "keeps (\<lambda>v. w_redis v = x) (dbset f)" "keeps (\<lambda>v. w_redis v = x) (fresh e)" "keeps (\<lambda>v. w_redis v = x) (dbget g)"
  by (rule keepsI; simp add: act_simps)+

lemma redis_frame_tx: "keeps (\<lambda>v. w_redis v = x) (toggle_tx e u m em)" "keeps (\<lambda>v. w_redis v = x) (remove_tx u m)"
  unfolding toggle_tx_def upsert_reaction_def remove_tx_def Let_def by (intro keeps_intros)+

lemma exact_cong: "w_db w' = w_db w \<Longrightarrow> w_redis w' = w_redis w \<Longrightarrow> cache_exact w \<Longrightarrow> cache_exact w'"
  by (simp add: cache_exact_def)

lemma assertReactionAccess_run:
  "assertReactionAccess u m w = (case find_message (w_db w) m of
     None \<Rightarrow> (Inl (NotFound ''Message not found''), w)
   | Some msg \<Rightarrow> (case reaction_access (w_db w) u msg of Some er \<Rightarrow> (Inl er, w) | None \<Rightarrow> (Inr msg, w)))"
  by (simp add: assertReactionAccess_def act_simps split: option.split)

lemma toggle_exact:
  assumes "redisErr e = None" and "toggle e u m em w = (r, w')" and "cache_exact w" and "reaction_inv (w_db w)"
  shows "cache_exact w' \<and> reaction_inv (w_db w')"
proof (cases "assertReactionAccess u m w")
  case (Pair a w0)
  then have w0: "w0 = w" by (simp add: assertReactionAccess_run split: option.splits)
  show ?thesis
  proof (cases a)
    case (Inl er)
    with Pair w0 assms(2-4) show ?thesis by (simp add: toggle_def bnd_run)
  next
    case (Inr msg)
    show ?thesis
    proof (cases "tx (toggle_tx e u m em) w")
      case tx: (Pair b w1)
      show ?thesis
      proof (cases b)
        case (Inl er)
        with tx_failed_same [OF _ redis_frame_tx(1)] tx have "w_db w1 = w_db w \<and> w_redis w1 = w_redis w" by blast
        moreover have "w' = w1" using Pair w0 \<open>a = Inr msg\<close> tx Inl assms(2) by (simp add: toggle_def bnd_run)
        ultimately show ?thesis using assms(3,4) exact_cong by auto
      next
        case (Inr t)
        obtain c x i where t: "t = (c, x, i)" by (cases t)
        have "toggle_tx e u m em w = (Inr t, w1)" using tx Inr by (simp add: tx_ok)
        then have "local_change m w w1" using toggle_tx_local assms(4) by blast
        moreover have "thn (invalidateCache e m) (thn (emitReactionEvent e c i m msg u x) (ret (c, x))) w1 = (r, w')"
          using Pair w0 \<open>a = Inr msg\<close> tx Inr t assms(2) by (simp add: toggle_def bnd_run)
        ultimately show ?thesis by (rule exact_after [OF assms(3) _ assms(1)])
      qed
    qed
  qed
qed

lemma remove_exact:
  assumes "redisErr e = None" and "removeReaction e u m w = (r, w')" and "cache_exact w" and "reaction_inv (w_db w)"
  shows "cache_exact w' \<and> reaction_inv (w_db w')"
proof (cases "assertReactionAccess u m w")
  case (Pair a w0)
  then have w0: "w0 = w" by (simp add: assertReactionAccess_run split: option.splits)
  have "\<exists>q w1. remove_tx u m w = (Inr q, w1)" by (cases "find_reaction (w_db w) u m") (simp_all add: remove_tx_def act_simps)
  then obtain q w1 where q: "remove_tx u m w = (Inr q, w1)" by blast
  note loc = remove_tx_local [OF q assms(4)]
  show ?thesis
  proof (cases a)
    case (Inl er)
    with Pair w0 assms(2-4) show ?thesis by (simp add: removeReaction_def bnd_run)
  next
    case (Inr msg)
    show ?thesis
    proof (cases q)
      case None
      with loc Inr Pair w0 q assms(2-4) show ?thesis by (simp add: removeReaction_def bnd_run tx_run ret_run)
    next
      case (Some x)
      from Some Inr Pair w0 q assms(2) have "thn (invalidateCache e m) (thn (emitReactionEvent e False (rx_id x) m msg u (rx_emoji x)) (ret True)) w1 = (r, w')"
        by (simp add: removeReaction_def bnd_run tx_run)
      then show ?thesis by (rule exact_after [OF assms(3) _ assms(1), rotated]) (use loc in blast)
    qed
  qed
qed

lemma with_reacted_pairs: "map (\<lambda>c. (rc_emoji c, rc_count c)) (with_reacted own cs) = cs"
  by (induction cs) (auto simp: with_reacted_def)

text \<open>The answer is computed from the counts of the table, from the cache or directly.\<close>

lemma aggregated_run:
  assumes "redisErr e = None" and "cache_exact w"
  shows "getAggregated e u m w = (case find_message (w_db w) m of
     None \<Rightarrow> (Inl (NotFound ''Message not found''), w)
   | Some msg \<Rightarrow> (case reaction_access (w_db w) u msg of
       Some er \<Rightarrow> (Inl er, w)
     | None \<Rightarrow> (Inr (with_reacted (reactions_abs (w_db w) (u, m)) (emoji_counts (emojis_of (w_db w) m))),
         if r_reactions (w_redis w) m = None
         then w\<lparr>w_redis := (w_redis w)\<lparr>r_reactions := (r_reactions (w_redis w))(m := Some (emoji_counts (emojis_of (w_db w) m)))\<rparr>\<rparr>
         else w)))"
  using assms by (auto simp: getAggregated_def bnd_run thn_run assertReactionAccess_run getCachedReactions_def cacheReactions_def Let_def
      redis_get_def redis_set_def gets_run modify_run dbget_run ret_run with_reacted_pairs reactions_abs_def cache_exact_def split: option.splits)

lemma listed_exact:
  assumes "redisErr e = None" and "getAggregated e u m w = (r, w')" and "cache_exact w"
  shows "cache_exact w' \<and> w_db w' = w_db w"
  using assms(2,3) by (auto simp: aggregated_run [OF assms(1,3)] cache_exact_def split: option.splits if_splits)

lemma reaction_steps_exact:
  assumes "reaction_step\<^sup>*\<^sup>* w w'" and "cache_exact w" and "reaction_inv (w_db w)"
  shows "cache_exact w' \<and> reaction_inv (w_db w')"
  using assms by (induction rule: rtranclp_induct) (auto elim!: reaction_stepE dest: toggle_exact remove_exact listed_exact)

text \<open>C35: The counts shown are exact.  After any sequence of toggles, removals and reads, whether the counts come from
  the cache or from the table: every emoji that some user reacted with is listed once, with the number of
  those users, and marked exactly when the reader is one of them.\<close>

theorem aggregated_exact:
  assumes "reaction_step\<^sup>*\<^sup>* w w'" and "cache_exact w" and "reaction_inv (w_db w)"
    and "redisErr e = None" and "getAggregated e u m w' = (Inr cs, w'')"
  shows "distinct (map rc_emoji cs)
    \<and> rc_emoji ` set cs = {x. \<exists>v. reactions_abs (w_db w') (v, m) = Some x}
    \<and> (\<forall>c\<in>set cs. rc_count c = card {v. reactions_abs (w_db w') (v, m) = Some (rc_emoji c)}
         \<and> rc_reacted c = (reactions_abs (w_db w') (u, m) = Some (rc_emoji c)))"
proof -
  let ?xs = "emojis_of (w_db w') m"
  from reaction_steps_exact [OF assms(1-3)] have inv: "cache_exact w'" "reaction_inv (w_db w')" by auto
  have cs: "cs = with_reacted (reactions_abs (w_db w') (u, m)) (emoji_counts ?xs)"
    using assms(5) by (auto simp: aggregated_run [OF assms(4) inv(1)] split: option.splits)
  have "map rc_emoji cs = map fst (emoji_counts ?xs)" by (auto simp: cs with_reacted_def)
  then have "distinct (map rc_emoji cs)" using emoji_counts_distinct by metis
  moreover have "rc_emoji ` set cs = {x. \<exists>v. reactions_abs (w_db w') (v, m) = Some x}"
  proof -
    have "rc_emoji ` set cs = set ?xs"
      by (auto simp: cs with_reacted_def image_image emoji_counts_iff case_prod_unfold) (metis emoji_counts_iff fst_conv image_eqI)
    also have "\<dots> = {x. \<exists>v. reactions_abs (w_db w') (v, m) = Some x}"
      using find_reaction_in [OF inv(2)] by (force simp: emojis_of_def reactions_abs_def dest: find_reactionD)
    finally show ?thesis .
  qed
  moreover have "rc_count c = card {v. reactions_abs (w_db w') (v, m) = Some (rc_emoji c)}
      \<and> rc_reacted c = (reactions_abs (w_db w') (u, m) = Some (rc_emoji c))" if "c \<in> set cs" for c
    using that by (auto simp: cs with_reacted_def emoji_counts_iff reactors [OF inv(2)])
  ultimately show ?thesis by blast
qed

section \<open>Runs of the example deployment\<close>

text \<open>Bob reacts to the message that Ann sent him.\<close>

definition demo_react_world :: world where
  "demo_react_world = (snd (send demo_env ''ann'' demo_send demo_world))\<lparr>w_redis := demo_redis\<rparr>"

lemma demo_react_start: "messageReactions (w_db demo_react_world) = []" "r_reactions (w_redis demo_react_world) = (\<lambda>_. None)"
  by (code_simp, simp add: demo_react_world_def demo_redis_def)

lemma demo_react_inv: "reaction_inv (w_db demo_react_world)" "cache_exact demo_react_world"
  by (simp_all add: reaction_inv_def cache_exact_def demo_react_start)

theorem toggle_refines_witness:
  "\<exists>w'. toggle demo_env ''bob'' ''i1'' ''fire'' demo_react_world = (Inr (True, ''fire''), w')
     \<and> reactions_abs (w_db w') (''bob'', ''i1'') = Some ''fire''"
proof -
  have "\<not> isl (fst (toggle demo_env ''bob'' ''i1'' ''fire'' demo_react_world))" by code_simp
  then obtain r w' where "toggle demo_env ''bob'' ''i1'' ''fire'' demo_react_world = (Inr r, w')" by (rule run_okE)
  then obtain a x where run: "toggle demo_env ''bob'' ''i1'' ''fire'' demo_react_world = (Inr (a, x), w')" by (cases r) auto
  have none: "reactions_abs (w_db demo_react_world) (''bob'', ''i1'') = None"
    by (simp add: reactions_abs_def find_reaction_def demo_react_start)
  from toggle_refines [OF run demo_react_inv(1)] none run show ?thesis by (simp add: toggle_spec_def)
qed

theorem aggregated_exact_witness:
  "\<exists>w1 w2 cs w3. toggle demo_env ''bob'' ''i1'' ''fire'' demo_react_world = (Inr (True, ''fire''), w1)
     \<and> toggle demo_env ''ann'' ''i1'' ''fire'' w1 = (Inr (True, ''fire''), w2) \<and> getAggregated demo_env ''ann'' ''i1'' w2 = (Inr cs, w3)
     \<and> (\<forall>c\<in>set cs. rc_count c = card {v. reactions_abs (w_db w2) (v, ''i1'') = Some (rc_emoji c)})"
proof -
  define w1 where "w1 = snd (toggle demo_env ''bob'' ''i1'' ''fire'' demo_react_world)"
  define w2 where "w2 = snd (toggle demo_env ''ann'' ''i1'' ''fire'' w1)"
  have r1: "toggle demo_env ''bob'' ''i1'' ''fire'' demo_react_world = (Inr (True, ''fire''), w1)"
    by (rule prod_eqI) (simp_all add: w1_def, code_simp)
  have r2: "toggle demo_env ''ann'' ''i1'' ''fire'' w1 = (Inr (True, ''fire''), w2)"
    by (rule prod_eqI) (simp_all add: w2_def w1_def, code_simp)
  have "\<not> isl (fst (getAggregated demo_env ''ann'' ''i1'' w2))" unfolding w2_def w1_def by code_simp
  then obtain cs w3 where r3: "getAggregated demo_env ''ann'' ''i1'' w2 = (Inr cs, w3)" by (rule run_okE)
  have ok: "redisErr demo_env = None" by (simp add: demo_env_def)
  have "reaction_step\<^sup>*\<^sup>* demo_react_world w2"
    using reaction_step.toggled [OF ok r1] reaction_step.toggled [OF ok r2] by simp
  from aggregated_exact [OF this demo_react_inv(2,1) ok r3]
  have "\<forall>c\<in>set cs. rc_count c = card {v. reactions_abs (w_db w2) (v, ''i1'') = Some (rc_emoji c)}" by simp
  with r1 r2 r3 show ?thesis by (intro exI conjI)
qed

end
