(* ===== verification/Keys.thy ===== *)
theory Keys
  imports Moderation
begin

text \<open>
  Devices, key material and profiles: \<open>src/devices/devices.service.ts\<close>, \<open>src/prekeys/prekeys.service.ts\<close> and
  \<open>src/users/users.service.ts\<close>.  An argument that is \<open>undefined\<close> in an update leaves the column as it is.  The
  locale \<open>dispenser\<close> is the contract of a stock of keys from which nothing is handed out twice; the one-time
  prekeys interpret it.
\<close>

section \<open>\<open>DevicesService\<close>\<close>

record register_dto =
  rd_deviceId :: "uuid option"
  rd_platform :: DevicePlatform
  rd_displayName :: "string option"
  rd_identityPublicKey :: string
  rd_pushToken :: "string option"
  rd_pushPlatform :: "PushPlatform option"
  rd_pushActive :: "bool option"

definition maxActiveDevices :: "env \<Rightarrow> int" where
  "maxActiveDevices e = (case MAX_ACTIVE_DEVICES (cfg e) of Some n \<Rightarrow> if 0 < n then n else 3 | None \<Rightarrow> 3)"

text \<open>\<open>undefined\<close> keeps the value of the column.\<close>

definition keep :: "'a option \<Rightarrow> 'a option \<Rightarrow> 'a option" where
  "keep new old = (case new of None \<Rightarrow> old | Some v \<Rightarrow> Some v)"

definition renew_device :: "env \<Rightarrow> register_dto \<Rightarrow> device_row \<Rightarrow> device_row" where
  "renew_device e dto x = x\<lparr>d_platform := rd_platform dto, d_displayName := keep (rd_displayName dto) (d_displayName x),
     d_identityPublicKey := rd_identityPublicKey dto, d_pushToken := keep (rd_pushToken dto) (d_pushToken x),
     d_pushPlatform := keep (rd_pushPlatform dto) (d_pushPlatform x), d_pushActive := coalesce (rd_pushActive dto) False,
     d_active := True, d_lastSeenAt := Some (now e)\<rparr>"

definition new_device :: "env \<Rightarrow> uuid \<Rightarrow> uuid \<Rightarrow> register_dto \<Rightarrow> device_row" where
  "new_device e i userId dto = \<lparr>d_id = i, d_userId = userId, d_platform = rd_platform dto, d_displayName = rd_displayName dto,
     d_identityPublicKey = rd_identityPublicKey dto, d_pushToken = rd_pushToken dto, d_pushPlatform = rd_pushPlatform dto,
     d_pushActive = coalesce (rd_pushActive dto) False, d_active = True, d_lastSeenAt = Some (now e), d_createdAt = now e\<rparr>"

definition active_count :: "db \<Rightarrow> uuid \<Rightarrow> int" where
  "active_count d userId = int (count_where (\<lambda>x. d_userId x = userId \<and> d_active x) (devices d))"

definition create_device :: "env \<Rightarrow> uuid \<Rightarrow> register_dto \<Rightarrow> device_row svc" where
  "create_device e userId dto =
     bnd (dbget (\<lambda>d. active_count d userId)) (\<lambda>activeCount.
     thn (ensure (activeCount < maxActiveDevices e)
           (Conflict (''Maximum active devices reached ('' @ show_int (maxActiveDevices e) @ '')'')))
    (bnd (case rd_deviceId dto of Some i \<Rightarrow> ret i | None \<Rightarrow> fresh e) (\<lambda>i.
     bnd (dbget id) (\<lambda>d.
     thn (ensure (find_device d i = None) (PrismaError ''P2002''))
    (thn (ensure (find_user d userId \<noteq> None) (PrismaError ''P2003''))
    (thn (dbset (devices_update (\<lambda>ds. ds @ [new_device e i userId dto])))
         (ret (new_device e i userId dto))))))))"

definition register_tx :: "env \<Rightarrow> uuid \<Rightarrow> register_dto \<Rightarrow> device_row svc" where
  "register_tx e userId dto =
     bnd (if truthy (rd_deviceId dto) then dbget (\<lambda>d. find_device d (coalesce (rd_deviceId dto) [])) else ret None) (\<lambda>existing.
     case existing of
       Some x \<Rightarrow>
         thn (ensure (d_userId x = userId) (Forbidden ''Device belongs to another user''))
        (thn (dbset (devices_update (update_where (\<lambda>y. d_id y = d_id x) (renew_device e dto))))
             (ret (renew_device e dto x)))
     | None \<Rightarrow> create_device e userId dto)"

definition registerDevice :: "env \<Rightarrow> uuid \<Rightarrow> register_dto \<Rightarrow> device_row svc" where
  "registerDevice e userId dto = tx (register_tx e userId dto)"

definition listDevices :: "uuid \<Rightarrow> device_row list svc" where
  "listDevices userId = dbget (\<lambda>d. order_asc d_createdAt (filter (\<lambda>x. d_userId x = userId \<and> d_active x) (devices d)))"

definition deactivate :: "uuid \<Rightarrow> uuid \<Rightarrow> (uuid \<times> bool) svc" where
  "deactivate userId deviceId =
     bnd (dbget (\<lambda>d. find_device d deviceId)) (\<lambda>found.
     bnd (require found (NotFound ''Device not found'')) (\<lambda>device.
     thn (ensure (d_userId device = userId) (Forbidden ''Device belongs to another user''))
    (thn (dbset (devices_update (update_where (\<lambda>x. d_id x = deviceId) (\<lambda>x. x\<lparr>d_active := False, d_pushActive := False\<rparr>))))
         (ret (deviceId, False)))))"

section \<open>\<open>PreKeysService\<close>\<close>

record prekey_dto =
  pk_keyId :: int
  pk_publicKey :: string

record signed_dto =
  sk_keyId :: int
  sk_publicKey :: string
  sk_signature :: string

definition assertDeviceOwner :: "uuid \<Rightarrow> uuid \<Rightarrow> unit svc" where
  "assertDeviceOwner userId deviceId =
     bnd (dbget (\<lambda>d. find_device d deviceId)) (\<lambda>found.
     bnd (require found (NotFound ''Active device not found'')) (\<lambda>device.
     thn (ensure (d_active device) (NotFound ''Active device not found''))
         (ensure (d_userId device = userId) (Forbidden ''Device belongs to another user''))))"

definition unconsumed :: "db \<Rightarrow> uuid \<Rightarrow> nat" where
  "unconsumed d deviceId = count_where (\<lambda>k. ot_deviceId k = deviceId \<and> ot_consumedAt k = None) (oneTimePrekeys d)"

definition new_prekey :: "env \<Rightarrow> uuid \<Rightarrow> uuid \<Rightarrow> prekey_dto \<Rightarrow> one_time_prekey_row" where
  "new_prekey e i deviceId k = \<lparr>ot_id = i, ot_deviceId = deviceId, ot_keyId = pk_keyId k, ot_publicKey = pk_publicKey k,
     ot_consumedAt = None, ot_createdAt = now e\<rparr>"

text \<open>\<open>createMany({ skipDuplicates: true })\<close>: a row that violates a unique key is left out; the answer counts
  the rows inserted.\<close>

definition insert_prekey_skip :: "env \<Rightarrow> uuid \<Rightarrow> prekey_dto \<Rightarrow> nat svc" where
  "insert_prekey_skip e deviceId k = bnd (fresh e) (\<lambda>i.
     bnd (dbget (\<lambda>d. exists_where (\<lambda>r. ot_id r = i \<or> (ot_deviceId r = deviceId \<and> ot_keyId r = pk_keyId k)) (oneTimePrekeys d))) (\<lambda>dup.
     if dup then ret 0
     else thn (dbset (oneTimePrekeys_update (\<lambda>rs. rs @ [new_prekey e i deviceId k]))) (ret 1)))"

definition maxPrekeys :: "env \<Rightarrow> int" where
  "maxPrekeys e = coalesce (PREKEY_MAX_TOTAL (cfg e)) 500"

definition refill :: "env \<Rightarrow> uuid \<Rightarrow> uuid \<Rightarrow> prekey_dto list \<Rightarrow> nat svc" where
  "refill e userId deviceId prekeys =
     thn (assertDeviceOwner userId deviceId)
    (bnd (dbget (\<lambda>d. int (unconsumed d deviceId))) (\<lambda>current.
     thn (ensure (current + int (length prekeys) \<le> maxPrekeys e)
           (BadRequest (''Prekey refill would exceed device limit. Current: '' @ show_int current @ '', adding: ''
              @ show_int (int (length prekeys)) @ '', max: '' @ show_int (maxPrekeys e))))
    (bnd (map_act (insert_prekey_skip e deviceId) prekeys) (\<lambda>inserted. ret (sum_list inserted)))))"

record prekey_count =
  pc_deviceId :: uuid
  pc_oneTimePrekeysRemaining :: nat
  pc_hasActiveSignedPrekey :: bool
  pc_lowWatermark :: bool

definition getCount :: "uuid \<Rightarrow> uuid \<Rightarrow> prekey_count svc" where
  "getCount userId deviceId = thn (assertDeviceOwner userId deviceId)
     (dbget (\<lambda>d. \<lparr>pc_deviceId = deviceId, pc_oneTimePrekeysRemaining = unconsumed d deviceId,
        pc_hasActiveSignedPrekey = (0 < count_where (\<lambda>k. sp_deviceId k = deviceId \<and> sp_active k) (signedPrekeys d)),
        pc_lowWatermark = (unconsumed d deviceId < 10)\<rparr>))"

definition retire_signed :: "uuid \<Rightarrow> signed_prekey_row list \<Rightarrow> signed_prekey_row list" where
  "retire_signed deviceId = update_where (\<lambda>k. sp_deviceId k = deviceId \<and> sp_active k) (\<lambda>k. k\<lparr>sp_active := False\<rparr>)"

definition renew_signed :: "env \<Rightarrow> signed_dto \<Rightarrow> signed_prekey_row \<Rightarrow> signed_prekey_row" where
  "renew_signed e dto k = k\<lparr>sp_publicKey := sk_publicKey dto, sp_signature := sk_signature dto, sp_active := True, sp_createdAt := now e\<rparr>"

definition new_signed :: "env \<Rightarrow> uuid \<Rightarrow> uuid \<Rightarrow> signed_dto \<Rightarrow> signed_prekey_row" where
  "new_signed e i deviceId dto = \<lparr>sp_id = i, sp_deviceId = deviceId, sp_keyId = sk_keyId dto, sp_publicKey = sk_publicKey dto,
     sp_signature = sk_signature dto, sp_active = True, sp_createdAt = now e\<rparr>"

definition rotate_tx :: "env \<Rightarrow> uuid \<Rightarrow> signed_dto \<Rightarrow> signed_prekey_row svc" where
  "rotate_tx e deviceId dto =
     thn (dbset (signedPrekeys_update (retire_signed deviceId)))
    (bnd (dbget (\<lambda>d. List.find (\<lambda>k. sp_deviceId k = deviceId \<and> sp_keyId k = sk_keyId dto) (signedPrekeys d))) (\<lambda>found. case found of
       Some k \<Rightarrow> thn (dbset (signedPrekeys_update (update_where (\<lambda>x. sp_deviceId x = deviceId \<and> sp_keyId x = sk_keyId dto) (renew_signed e dto))))
                      (ret (renew_signed e dto k))
     | None \<Rightarrow> bnd (fresh e) (\<lambda>i. bnd (dbget id) (\<lambda>d.
         thn (ensure (\<not> exists_where (\<lambda>x. sp_id x = i) (signedPrekeys d)) (PrismaError ''P2002''))
        (thn (ensure (find_device d deviceId \<noteq> None) (PrismaError ''P2003''))
        (thn (dbset (signedPrekeys_update (\<lambda>ks. ks @ [new_signed e i deviceId dto])))
             (ret (new_signed e i deviceId dto))))))))"

definition rotateSignedPrekey :: "env \<Rightarrow> uuid \<Rightarrow> uuid \<Rightarrow> signed_dto \<Rightarrow> signed_prekey_row svc" where
  "rotateSignedPrekey e userId deviceId dto = thn (assertDeviceOwner userId deviceId) (tx (rotate_tx e deviceId dto))"

section \<open>\<open>UsersService\<close>\<close>

record key_bundle =
  kb_deviceId :: uuid
  kb_userId :: uuid
  kb_platform :: DevicePlatform
  kb_identityPublicKey :: string
  kb_signedPrekey :: "signed_prekey_row option"
  kb_oneTimePrekey :: "(int \<times> string) option"

definition latest_signed :: "db \<Rightarrow> uuid \<Rightarrow> signed_prekey_row option" where
  "latest_signed d deviceId = first_of (order_desc sp_createdAt (filter (\<lambda>k. sp_deviceId k = deviceId \<and> sp_active k) (signedPrekeys d)))"

text \<open>\<open>if (!prekeyByDevice.has(prekey.deviceId)) prekeyByDevice.set(prekey.deviceId, prekey)\<close>\<close>

fun first_per_device :: "one_time_prekey_row list \<Rightarrow> one_time_prekey_row list" where
  "first_per_device [] = []"
| "first_per_device (k # ks) = k # filter (\<lambda>x. ot_deviceId x \<noteq> ot_deviceId k) (first_per_device ks)"

definition available_prekeys :: "db \<Rightarrow> uuid list \<Rightarrow> one_time_prekey_row list" where
  "available_prekeys d deviceIds = order_asc ot_createdAt (filter (\<lambda>k. ot_deviceId k \<in> set deviceIds \<and> ot_consumedAt k = None) (oneTimePrekeys d))"

definition consume_prekeys :: "env \<Rightarrow> one_time_prekey_row list \<Rightarrow> db \<Rightarrow> db" where
  "consume_prekeys e ks = oneTimePrekeys_update (update_where (\<lambda>r. ot_id r \<in> set (map ot_id ks)) (\<lambda>r. r\<lparr>ot_consumedAt := Some (now e)\<rparr>))"

definition bundle_of :: "one_time_prekey_row list \<Rightarrow> device_row \<times> signed_prekey_row option \<Rightarrow> key_bundle" where
  "bundle_of ks = (\<lambda>(device, signed). \<lparr>kb_deviceId = d_id device, kb_userId = d_userId device, kb_platform = d_platform device,
     kb_identityPublicKey = d_identityPublicKey device, kb_signedPrekey = signed,
     kb_oneTimePrekey = map_option (\<lambda>k. (ot_keyId k, ot_publicKey k)) (List.find (\<lambda>k. ot_deviceId k = d_id device) ks)\<rparr>)"

definition getDeviceKeyBundles :: "env \<Rightarrow> uuid \<Rightarrow> key_bundle list svc" where
  "getDeviceKeyBundles e userId =
     bnd (dbget (\<lambda>d. map (\<lambda>x. (x, latest_signed d (d_id x)))
            (order_asc d_createdAt (filter (\<lambda>x. d_userId x = userId \<and> d_active x) (devices d))))) (\<lambda>ds.
     thn (ensure (ds \<noteq> []) (NotFound ''No active devices found for user''))
         (tx (bnd (dbget (\<lambda>d. first_per_device (available_prekeys d (map (d_id \<circ> fst) ds)))) (\<lambda>ks.
              thn (whenA (ks \<noteq> []) (dbset (consume_prekeys e ks)))
                  (ret (map (bundle_of ks) ds))))))"

record contact =
  ct_user :: user_row
  ct_matchedPhone :: "string option"

text \<open>The submitted phones with their hashes, those that normalise to nothing left out.\<close>

definition phone_hashes :: "env \<Rightarrow> string list \<Rightarrow> (string \<times> string) list" where
  "phone_hashes e phones = map (\<lambda>p. (phone_hash e p, p)) (filter (\<lambda>p. p \<noteq> []) (map normalizePhone phones))"

definition syncContacts :: "env \<Rightarrow> string list \<Rightarrow> string list \<Rightarrow> contact list svc" where
  "syncContacts e phoneHashes phones =
     thn (ensure (length phoneHashes + length phones \<le> 1000) (BadRequest ''Contact batch too large. Max 1000 allowed.''))
    (let hashToPhone = phone_hashes e phones; hashes = js_set (phoneHashes @ map fst hashToPhone) in
     if hashes = [] then ret []
     else dbget (\<lambda>d. map (\<lambda>u. \<lparr>ct_user = u, ct_matchedPhone = (if u_phoneHash u \<noteq> [] then map_of (rev hashToPhone) (u_phoneHash u) else None)\<rparr>)
            (filter (\<lambda>u. u_phoneHash u \<in> set hashes \<and> u_status u = ACTIVE) (users d))))"

definition getMe :: "uuid \<Rightarrow> user_row svc" where
  "getMe userId = bnd (dbget (\<lambda>d. find_user d userId)) (\<lambda>found. require found (NotFound ''User not found''))"

record profile_dto =
  pd_username :: "string option"
  pd_profileAvatarUrl :: "string option"
  pd_encryptedProfile :: "json option"
  pd_profileKeyHash :: "string option"

definition update_profile_row :: "env \<Rightarrow> profile_dto \<Rightarrow> user_row \<Rightarrow> user_row" where
  "update_profile_row e dto u = u\<lparr>u_username := keep (pd_username dto) (u_username u),
     u_profileAvatarUrl := keep (pd_profileAvatarUrl dto) (u_profileAvatarUrl u),
     u_encryptedProfile := keep (pd_encryptedProfile dto) (u_encryptedProfile u),
     u_profileKeyHash := keep (pd_profileKeyHash dto) (u_profileKeyHash u),
     u_updatedAt := (if pd_username dto = None \<and> pd_profileAvatarUrl dto = None \<and> pd_encryptedProfile dto = None
        \<and> pd_profileKeyHash dto = None then u_updatedAt u else now e)\<rparr>"

definition same_name :: "string \<Rightarrow> string option \<Rightarrow> bool" where
  "same_name n c = (case c of None \<Rightarrow> False | Some m \<Rightarrow> toLowerCase m = toLowerCase n)"

definition updateProfile :: "env \<Rightarrow> uuid \<Rightarrow> profile_dto \<Rightarrow> user_row svc" where
  "updateProfile e userId dto =
     bnd (dbget (\<lambda>d. truthy (pd_username dto) \<and> exists_where (\<lambda>u. same_name (coalesce (pd_username dto) []) (u_username u) \<and> u_id u \<noteq> userId) (users d))) (\<lambda>taken.
     thn (ensure (\<not> taken) (BadRequest ''Username is already taken''))
         (catching
           (bnd (dbget id) (\<lambda>d.
            bnd (require (find_user d userId) (PrismaError ''P2025'')) (\<lambda>u.
            thn (ensure (\<not> (pd_username dto \<noteq> None \<and> exists_where (\<lambda>x. u_id x \<noteq> userId \<and> u_username x = pd_username dto) (users d)))
                  (PrismaError ''P2002''))
           (thn (dbset (users_update (update_where (\<lambda>x. u_id x = userId) (update_profile_row e dto))))
                (ret (update_profile_row e dto u))))))
           (\<lambda>er. if er = PrismaError ''P2002'' then throw (BadRequest ''Username is already taken'') else throw er)))"

definition searchByUsername :: "string \<Rightarrow> string option \<Rightarrow> user_row list svc" where
  "searchByUsername usernameQuery currentUserId =
     thn (ensure (3 \<le> length (trim usernameQuery)) (BadRequest ''Search query must be at least 3 characters''))
         (dbget (\<lambda>d. take 10 (filter (\<lambda>u. contains_ci usernameQuery (u_username u)
            \<and> u_status u = ACTIVE \<and> (truthy currentUserId \<longrightarrow> u_id u \<noteq> coalesce currentUserId [])) (users d))))"

section \<open>Nothing is handed out twice\<close>

text \<open>The contract of a stock from which keys are taken: what a call hands out was not gone before the call, is
  gone after it, and is never the same key twice; what is gone stays gone.  Then no key is ever handed out twice
  by any sequence of calls.\<close>

fun handed :: "('c \<Rightarrow> 'w \<Rightarrow> 'w) \<Rightarrow> ('c \<Rightarrow> 'w \<Rightarrow> 'k list) \<Rightarrow> 'c list \<Rightarrow> 'w \<Rightarrow> 'k list" where
  "handed run out [] w = []"
| "handed run out (c # cs) w = out c w @ handed run out cs (run c w)"

locale dispenser =
  fixes run :: "'c \<Rightarrow> 'w \<Rightarrow> 'w"
    and out :: "'c \<Rightarrow> 'w \<Rightarrow> 'k list"
    and inv :: "'w \<Rightarrow> bool"
    and gone :: "'w \<Rightarrow> 'k \<Rightarrow> bool"
  assumes keeps_inv: "inv w \<Longrightarrow> inv (run c w)"
    and out_distinct: "inv w \<Longrightarrow> distinct (out c w)"
    and out_new: "inv w \<Longrightarrow> k \<in> set (out c w) \<Longrightarrow> \<not> gone w k"
    and out_gone: "inv w \<Longrightarrow> k \<in> set (out c w) \<Longrightarrow> gone (run c w) k"
    and stays: "inv w \<Longrightarrow> gone w k \<Longrightarrow> gone (run c w) k"
begin

lemma handed_new: "inv w \<Longrightarrow> k \<in> set (handed run out cs w) \<Longrightarrow> \<not> gone w k"
proof (induction cs arbitrary: w)
  case (Cons c cs)
  then have "\<not> gone (run c w) k \<or> k \<in> set (out c w)" using keeps_inv by auto
  then show ?case using out_new [OF Cons.prems(1)] stays [OF Cons.prems(1)] by blast
qed simp

lemma handed_distinct: "inv w \<Longrightarrow> distinct (handed run out cs w)"
proof (induction cs arbitrary: w)
  case (Cons c cs)
  have "set (out c w) \<inter> set (handed run out cs (run c w)) = {}"
    using out_gone [OF Cons.prems] handed_new [OF keeps_inv [OF Cons.prems]] by blast
  then show ?case using Cons out_distinct keeps_inv by simp
qed simp

end

subsection \<open>The stock of one-time prekeys\<close>

datatype key_call =
    Fetch env uuid
  | Refill env uuid uuid "prekey_dto list"
  | Rotate env uuid uuid signed_dto
  | Register env uuid register_dto
  | Deactivate uuid uuid

fun key_run :: "key_call \<Rightarrow> world \<Rightarrow> world" where
  "key_run (Fetch e u) w = snd (getDeviceKeyBundles e u w)"
| "key_run (Refill e u d ks) w = snd (refill e u d ks w)"
| "key_run (Rotate e u d k) w = snd (rotateSignedPrekey e u d k w)"
| "key_run (Register e u dto) w = snd (registerDevice e u dto w)"
| "key_run (Deactivate u d) w = snd (deactivate u d w)"

text \<open>The device and key id of every one-time prekey in the answer.\<close>

definition bundle_key :: "key_bundle \<Rightarrow> (uuid \<times> int) list" where
  "bundle_key b = (case kb_oneTimePrekey b of None \<Rightarrow> [] | Some (k, p) \<Rightarrow> [(kb_deviceId b, k)])"

definition bundle_keys :: "key_bundle list \<Rightarrow> (uuid \<times> int) list" where
  "bundle_keys bs = concat (map bundle_key bs)"

fun key_out :: "key_call \<Rightarrow> world \<Rightarrow> (uuid \<times> int) list" where
  "key_out (Fetch e u) w = (case fst (getDeviceKeyBundles e u w) of Inr bs \<Rightarrow> bundle_keys bs | Inl _ \<Rightarrow> [])"
| "key_out (Refill e u d ks) w = []"
| "key_out (Rotate e u d k) w = []"
| "key_out (Register e u dto) w = []"
| "key_out (Deactivate u d) w = []"

definition prekey_inv :: "db \<Rightarrow> bool" where
  "prekey_inv d \<longleftrightarrow> distinct (map ot_id (oneTimePrekeys d))
     \<and> distinct (map (\<lambda>k. (ot_deviceId k, ot_keyId k)) (oneTimePrekeys d)) \<and> distinct (map d_id (devices d))"

definition consumed :: "db \<Rightarrow> uuid \<times> int \<Rightarrow> bool" where
  "consumed d k \<longleftrightarrow> (\<exists>r\<in>set (oneTimePrekeys d). (ot_deviceId r, ot_keyId r) = k \<and> ot_consumedAt r \<noteq> None)"

lemma first_per_device_sub: "set (first_per_device ks) \<subseteq> set ks"
  by (induction ks) auto

lemma first_per_device_distinct: "distinct (map ot_deviceId (first_per_device ks))"
  by (induction ks) (auto intro: distinct_map_filter)

lemma kdb_assertDeviceOwner [kdb_intros]: "kdb P (assertDeviceOwner u d)"
  unfolding assertDeviceOwner_def by (intro kdb_intros)

text \<open>What the calls keep: the keys of the tables, and that a set of prekeys is used up.\<close>

definition stock :: "(uuid \<times> int) set \<Rightarrow> db \<Rightarrow> bool" where
  "stock C d \<longleftrightarrow> prekey_inv d \<and> (\<forall>k\<in>C. consumed d k)"

lemma stock_same:
  assumes "oneTimePrekeys d' = oneTimePrekeys d" and "map d_id (devices d') = map d_id (devices d)"
  shows "stock C d' = stock C d"
  using assms by (simp add: stock_def prekey_inv_def consumed_def)

lemma stock_signed [kdb_intros]: "kdb (stock C) (dbset (signedPrekeys_update f))"
  by (rule kdb_dbset, erule stock_same [THEN iffD2, rotated 2]) simp_all

lemma stock_rotate [kdb_intros]: "kdb (stock C) (rotateSignedPrekey e u d k)"
  unfolding rotateSignedPrekey_def rotate_tx_def by (intro kdb_intros kdb_tx_body)

lemma stock_deactivate [kdb_intros]: "kdb (stock C) (deactivate u d)"
  unfolding deactivate_def
  by (intro kdb_intros kdb_dbset, erule stock_same [THEN iffD2, rotated 2]) (simp_all add: map_update_where)

lemma stock_add_device:
  assumes "stock C d" and "find_device d (d_id x) = None"
  shows "stock C (devices_update (\<lambda>ds. ds @ [x]) d)"
proof -
  have "d_id x \<notin> d_id ` set (devices d)" using assms(2) by (auto simp: find_device_def find_None_iff)
  then show ?thesis using assms(1) by (simp add: stock_def prekey_inv_def consumed_def)
qed

lemma stock_register [kdb_intros]: "kdb (stock C) (registerDevice e u dto)"
  unfolding registerDevice_def
proof (rule kdb_tx)
  fix w x w' assume s: "stock C (w_db w)" and r: "register_tx e u dto w = (Inr x, w')"
  have old: "stock C (devices_update (update_where p (renew_device e dto)) d)" if "stock C d" for p d
    using that by (rule stock_same [THEN iffD2, rotated 2])
      (simp_all add: map_update_where renew_device_def)
  from r s show "stock C (w_db w')"
    by (auto simp: register_tx_def create_device_def ok_simps new_device_def
          intro!: old stock_add_device split: option.splits if_splits)
qed

lemma stock_insert [kdb_intros]: "kdb (stock C) (insert_prekey_skip e dv k)"
proof (rule kdbI)
  fix w :: world assume s: "stock C (w_db w)"
  show "stock C (w_db (snd (insert_prekey_skip e dv k w)))"
  proof (cases "exists_where (\<lambda>r. ot_id r = mkId e (w_supply w) \<or> (ot_deviceId r = dv \<and> ot_keyId r = pk_keyId k)) (oneTimePrekeys (w_db w))")
    case False
    then have "mkId e (w_supply w) \<notin> ot_id ` set (oneTimePrekeys (w_db w))"
      and "(dv, pk_keyId k) \<notin> (\<lambda>r. (ot_deviceId r, ot_keyId r)) ` set (oneTimePrekeys (w_db w))"
      by (auto simp: exists_where_def list_ex_iff)
    then show ?thesis using s False
      by (simp add: insert_prekey_skip_def act_simps stock_def prekey_inv_def consumed_def new_prekey_def)
  qed (use s in \<open>simp add: insert_prekey_skip_def act_simps\<close>)
qed

lemma stock_refill [kdb_intros]: "kdb (stock C) (refill e u dv ks)"
  unfolding refill_def by (intro kdb_intros)

text \<open>A successful fetch uses up, for each device, the oldest of its unused prekeys.\<close>

lemma getDeviceKeyBundles_okE:
  assumes "getDeviceKeyBundles e u w = (Inr bs, w')"
  obtains ds ks where "ks = first_per_device (available_prekeys (w_db w) (map (d_id \<circ> fst) ds))"
    and "map fst ds = order_asc d_createdAt (filter (\<lambda>x. d_userId x = u \<and> d_active x) (devices (w_db w)))"
    and "bs = map (bundle_of ks) ds" and "w_db w' = consume_prekeys e ks (w_db w)"
proof -
  let ?ds = "map (\<lambda>x. (x, latest_signed (w_db w) (d_id x)))
     (order_asc d_createdAt (filter (\<lambda>x. d_userId x = u \<and> d_active x) (devices (w_db w))))"
  let ?ks = "first_per_device (available_prekeys (w_db w) (map (d_id \<circ> fst) ?ds))"
  have none: "consume_prekeys e [] d = d" for d
    by (simp add: consume_prekeys_def update_where_id)
  have "bs = map (bundle_of ?ks) ?ds" and "w_db w' = consume_prekeys e ?ks (w_db w)"
    using assms by (auto simp: getDeviceKeyBundles_def ok_simps tx_def none simp del: map_map list.map_comp split: if_splits)
  moreover have "map fst ?ds = order_asc d_createdAt (filter (\<lambda>x. d_userId x = u \<and> d_active x) (devices (w_db w)))"
    by (simp add: comp_def)
  ultimately show thesis using that [OF refl] by blast
qed

lemma stock_consume:
  assumes "stock C d"
  shows "stock (C \<union> (\<lambda>k. (ot_deviceId k, ot_keyId k)) ` {k \<in> set (oneTimePrekeys d). k \<in> set ks}) (consume_prekeys e ks d)"
proof -
  let ?f = "\<lambda>r. r\<lparr>ot_consumedAt := Some (now e)\<rparr>" and ?p = "\<lambda>r. ot_id r \<in> set (map ot_id ks)"
  have "consumed (consume_prekeys e ks d) (ot_deviceId r, ot_keyId r)"
    if r: "r \<in> set (oneTimePrekeys d)" and "ot_consumedAt r \<noteq> None \<or> ?p r" for r
  proof -
    let ?r = "if ?p r then ?f r else r"
    have eq: "oneTimePrekeys (consume_prekeys e ks d) = update_where ?p ?f (oneTimePrekeys d)"
      by (simp add: consume_prekeys_def)
    have "?r \<in> set (oneTimePrekeys (consume_prekeys e ks d))" unfolding eq set_update_where by (rule imageI) (rule r)
    moreover have "(ot_deviceId ?r, ot_keyId ?r) = (ot_deviceId r, ot_keyId r)" and "ot_consumedAt ?r \<noteq> None"
      using that(2) by auto
    ultimately show ?thesis unfolding consumed_def by blast
  qed
  moreover have "prekey_inv (consume_prekeys e ks d)" using assms
    by (simp add: stock_def prekey_inv_def consume_prekeys_def map_update_where)
  ultimately show ?thesis using assms unfolding stock_def consumed_def [of d] by auto
qed

lemma available_prekeys_iff:
  "k \<in> set (available_prekeys d is) \<longleftrightarrow> k \<in> set (oneTimePrekeys d) \<and> ot_deviceId k \<in> set is \<and> ot_consumedAt k = None"
  by (auto simp: available_prekeys_def order_asc_def)

text \<open>What a fetch hands out is exactly what it marks as used.\<close>

lemma bundle_key_of:
  "bundle_key (bundle_of ks x) =
     (case List.find (\<lambda>k. ot_deviceId k = d_id (fst x)) ks of None \<Rightarrow> [] | Some r \<Rightarrow> [(d_id (fst x), ot_keyId r)])"
  by (cases x) (simp add: bundle_key_def bundle_of_def split: option.split)

lemma bundle_keys_in:
  assumes "k \<in> set (bundle_keys (map (bundle_of ks) ds))"
  obtains r where "r \<in> set ks" and "k = (ot_deviceId r, ot_keyId r)"
proof -
  from assms obtain x where "x \<in> set ds" and "k \<in> set (bundle_key (bundle_of ks x))"
    by (auto simp: bundle_keys_def)
  then obtain r where "List.find (\<lambda>r. ot_deviceId r = d_id (fst x)) ks = Some r" and "k = (d_id (fst x), ot_keyId r)"
    by (cases "List.find (\<lambda>r. ot_deviceId r = d_id (fst x)) ks") (auto simp: bundle_key_of)
  then show thesis by (intro that [of r]) (auto simp: find_Some_iff)
qed

lemma bundle_keys_distinct: "distinct (map (d_id \<circ> fst) ds) \<Longrightarrow> distinct (bundle_keys (map (bundle_of ks) ds))"
proof (induction ds)
  case (Cons x ds)
  have "fst ` set (bundle_keys (map (bundle_of ks) ds)) \<subseteq> d_id ` fst ` set ds"
    by (force simp: bundle_keys_def bundle_key_of split: option.splits)
  then show ?case using Cons by (auto simp: bundle_keys_def bundle_key_of split: option.splits)
qed (simp add: bundle_keys_def)

lemma fetch_keys:
  assumes "stock {} (w_db w)" and "getDeviceKeyBundles e u w = (Inr bs, w')"
  shows "distinct (bundle_keys bs)" and "k \<in> set (bundle_keys bs) \<Longrightarrow> \<not> consumed (w_db w) k"
    and "k \<in> set (bundle_keys bs) \<Longrightarrow> consumed (w_db w') k"
proof -
  from assms(2) obtain ds ks where ks: "ks = first_per_device (available_prekeys (w_db w) (map (d_id \<circ> fst) ds))"
    and ds: "map fst ds = order_asc d_createdAt (filter (\<lambda>x. d_userId x = u \<and> d_active x) (devices (w_db w)))"
    and bs: "bs = map (bundle_of ks) ds" and w': "w_db w' = consume_prekeys e ks (w_db w)"
    by (rule getDeviceKeyBundles_okE)
  have inv: "prekey_inv (w_db w)" using assms(1) by (simp add: stock_def)
  have "distinct (map d_id (map fst ds))" unfolding ds order_asc_def
    using inv by (simp add: prekey_inv_def distinct_map inj_on_def)
  then show "distinct (bundle_keys bs)" unfolding bs by (intro bundle_keys_distinct) simp
  have sub: "r \<in> set (oneTimePrekeys (w_db w)) \<and> ot_consumedAt r = None" if "r \<in> set ks" for r
    using that first_per_device_sub unfolding ks by (fastforce simp: available_prekeys_iff)
  { assume "k \<in> set (bundle_keys bs)"
    then obtain r where r: "r \<in> set ks" "k = (ot_deviceId r, ot_keyId r)" unfolding bs by (rule bundle_keys_in)
    show "\<not> consumed (w_db w) k"
    proof
      assume "consumed (w_db w) k"
      then obtain r' where "r' \<in> set (oneTimePrekeys (w_db w))" "(ot_deviceId r', ot_keyId r') = k" "ot_consumedAt r' \<noteq> None"
        unfolding consumed_def by blast
      then show False using inv r sub [OF r(1)]
        by (auto simp: prekey_inv_def distinct_map dest!: inj_onD [where x = r' and y = r]) 
    qed }
  { assume "k \<in> set (bundle_keys bs)"
    then obtain r where r: "r \<in> set ks" "k = (ot_deviceId r, ot_keyId r)" unfolding bs by (rule bundle_keys_in)
    show "consumed (w_db w') k"
      using stock_consume [OF assms(1), of ks e] r sub [OF r(1)] unfolding w' stock_def by auto }
qed

lemma stock_fetch [kdb_intros]: "kdb (stock C) (getDeviceKeyBundles e u)"
  unfolding getDeviceKeyBundles_def
proof (intro kdb_intros kdb_tx_body)
  fix ks
  show "kdb (stock C) (dbset (consume_prekeys e ks))"
    by (rule kdb_dbset) (use stock_consume [of C _ ks e] in \<open>auto simp: stock_def\<close>)
qed

lemma key_run_stock: "stock C (w_db w) \<Longrightarrow> stock C (w_db (key_run c w))"
  by (cases c) (auto intro!: kdbD kdb_intros)

lemma key_out_facts:
  assumes "stock {} (w_db w)"
  shows "distinct (key_out c w)" and "k \<in> set (key_out c w) \<Longrightarrow> \<not> consumed (w_db w) k"
    and "k \<in> set (key_out c w) \<Longrightarrow> consumed (w_db (key_run c w)) k"
proof -
  have "distinct (key_out c w) \<and> (k \<in> set (key_out c w) \<longrightarrow> \<not> consumed (w_db w) k \<and> consumed (w_db (key_run c w)) k)"
  proof (cases c)
    case (Fetch e u)
    obtain r w' where run: "getDeviceKeyBundles e u w = (r, w')" by fastforce
    show ?thesis
    proof (cases r)
      case (Inr bs)
      note f = fetch_keys [OF assms run [unfolded Inr]]
      then show ?thesis using f(2,3) [of k] by (simp add: Fetch run Inr)
    qed (simp add: Fetch run)
  qed auto
  then show "distinct (key_out c w)" and "k \<in> set (key_out c w) \<Longrightarrow> \<not> consumed (w_db w) k"
    and "k \<in> set (key_out c w) \<Longrightarrow> consumed (w_db (key_run c w)) k" by auto
qed

interpretation prekeys: dispenser key_run key_out "\<lambda>w. stock {} (w_db w)" "\<lambda>w. consumed (w_db w)"
proof unfold_locales
  fix w :: world and c k
  assume inv: "stock {} (w_db w)"
  show "stock {} (w_db (key_run c w))" by (rule key_run_stock [OF inv])
  show "distinct (key_out c w)" by (rule key_out_facts(1) [OF inv])
  { assume "k \<in> set (key_out c w)"
    then show "\<not> consumed (w_db w) k" by (rule key_out_facts(2) [OF inv]) }
  { assume "k \<in> set (key_out c w)"
    then show "consumed (w_db (key_run c w)) k" by (rule key_out_facts(3) [OF inv]) }
  { assume "consumed (w_db w) k"
    then have "stock {k} (w_db w)" using inv by (simp add: stock_def)
    then show "consumed (w_db (key_run c w)) k" using key_run_stock [of "{k}" w c] by (simp add: stock_def) }
qed

section \<open>Properties\<close>

text \<open>No one-time prekey is ever given to two requests.  Whatever sequence of bundle fetches, refills, signed-key
  rotations, registrations and deactivations runs, the one-time prekeys in all the answers are pairwise
  different.\<close>

theorem prekey_handed_once:
  assumes "prekey_inv (w_db w)"
  shows "distinct (handed key_run key_out cs w)"
  by (rule prekeys.handed_distinct) (simp add: stock_def assms)

text \<open>The batched query of a fetch, against one query per device.\<close>

definition oldest_prekey :: "db \<Rightarrow> uuid \<Rightarrow> one_time_prekey_row option" where
  "oldest_prekey d dv = first_of (order_asc ot_createdAt (filter (\<lambda>k. ot_deviceId k = dv \<and> ot_consumedAt k = None) (oneTimePrekeys d)))"

lemma find_first_of: "List.find p xs = first_of (filter p xs)"
  by (induction xs) (auto simp: first_of_def)

lemma find_filter_imp: "(\<And>x. p x \<Longrightarrow> q x) \<Longrightarrow> List.find p (filter q xs) = List.find p xs"
  by (induction xs) auto

lemma find_first_per_device: "List.find (\<lambda>k. ot_deviceId k = dv) (first_per_device ks) = List.find (\<lambda>k. ot_deviceId k = dv) ks"
  by (induction ks) (auto simp: find_filter_imp)

lemma find_available:
  assumes "dv \<in> set is"
  shows "List.find (\<lambda>k. ot_deviceId k = dv) (available_prekeys d is) = oldest_prekey d dv"
proof -
  have "filter (\<lambda>k. ot_deviceId k = dv) (available_prekeys d is)
      = order_asc ot_createdAt (filter (\<lambda>k. ot_deviceId k = dv \<and> ot_consumedAt k = None) (oneTimePrekeys d))"
    unfolding available_prekeys_def order_asc_def filter_sort filter_filter
    using assms by (metis (lifting))
  then show ?thesis by (simp add: find_first_of oldest_prekey_def)
qed

lemma first_available:
  "x \<in> set is \<Longrightarrow> List.find (\<lambda>k. ot_deviceId k = x) (first_per_device (available_prekeys d is)) = oldest_prekey d x"
  by (simp add: find_first_per_device find_available)

lemma fetched_iff: "r \<in> set (first_per_device (available_prekeys d is)) \<longleftrightarrow> (\<exists>x\<in>set is. oldest_prekey d x = Some r)"
proof
  assume r: "r \<in> set (first_per_device (available_prekeys d is))"
  then have "ot_deviceId r \<in> set is" using first_per_device_sub by (fastforce simp: available_prekeys_iff)
  then show "\<exists>x\<in>set is. oldest_prekey d x = Some r"
    using find_unique [OF first_per_device_distinct r] by (auto simp: first_available)
next
  assume "\<exists>x\<in>set is. oldest_prekey d x = Some r"
  then show "r \<in> set (first_per_device (available_prekeys d is))" by (metis find_Some_in first_available)
qed

lemma fetched_row: "r \<in> set (first_per_device (available_prekeys d is)) \<Longrightarrow> r \<in> set (oneTimePrekeys d)"
  using first_per_device_sub by (fastforce simp: available_prekeys_iff)

lemma consume_prekeys_rows:
  assumes "prekey_inv d" and "\<And>r. r \<in> set ks \<Longrightarrow> r \<in> set (oneTimePrekeys d)"
  shows "consume_prekeys e ks d = d\<lparr>oneTimePrekeys := update_where (\<lambda>r. r \<in> set ks) (\<lambda>r. r\<lparr>ot_consumedAt := Some (now e)\<rparr>) (oneTimePrekeys d)\<rparr>"
proof -
  have "ot_id r \<in> set (map ot_id ks) \<longleftrightarrow> r \<in> set ks" if "r \<in> set (oneTimePrekeys d)" for r
    using unique_row [of ot_id, OF _ that] assms by (auto simp: prekey_inv_def)
  then show ?thesis by (auto simp: consume_prekeys_def update_where_def intro!: db.equality)
qed

text \<open>The batched fetch equals one query per device: the answer lists the active devices of the user in the order
  of their creation, each with the oldest of its unused one-time prekeys, or none when it has none left; and
  these prekeys, and no other ones, are marked as used.\<close>

lemma getDeviceKeyBundles_oldest:
  assumes "getDeviceKeyBundles e u w = (Inr bs, w')" and "prekey_inv (w_db w)"
  shows "map kb_deviceId bs = map d_id (order_asc d_createdAt (filter (\<lambda>x. d_userId x = u \<and> d_active x) (devices (w_db w))))
    \<and> (\<forall>b\<in>set bs. kb_oneTimePrekey b = map_option (\<lambda>k. (ot_keyId k, ot_publicKey k)) (oldest_prekey (w_db w) (kb_deviceId b)))
    \<and> w_db w' = (w_db w)\<lparr>oneTimePrekeys := update_where (\<lambda>r. \<exists>x\<in>set (devices (w_db w)). d_userId x = u \<and> d_active x \<and> oldest_prekey (w_db w) (d_id x) = Some r)
        (\<lambda>r. r\<lparr>ot_consumedAt := Some (now e)\<rparr>) (oneTimePrekeys (w_db w))\<rparr>"
proof -
  from assms(1) obtain ds ks where ks: "ks = first_per_device (available_prekeys (w_db w) (map (d_id \<circ> fst) ds))"
    and ds: "map fst ds = order_asc d_createdAt (filter (\<lambda>x. d_userId x = u \<and> d_active x) (devices (w_db w)))"
    and bs: "bs = map (bundle_of ks) ds" and w': "w_db w' = consume_prekeys e ks (w_db w)"
    by (rule getDeviceKeyBundles_okE)
  have "map kb_deviceId bs = map d_id (map fst ds)" by (auto simp: bs bundle_of_def)
  moreover have "kb_oneTimePrekey b = map_option (\<lambda>k. (ot_keyId k, ot_publicKey k)) (oldest_prekey (w_db w) (kb_deviceId b))"
    if "b \<in> set bs" for b
  proof -
    from that obtain x sg where x: "(x, sg) \<in> set ds" "b = bundle_of ks (x, sg)" by (auto simp: bs)
    then have "d_id x \<in> set (map (d_id \<circ> fst) ds)" by force
    then show ?thesis by (simp add: x(2) bundle_of_def ks first_available)
  qed
  moreover have "w_db w' = (w_db w)\<lparr>oneTimePrekeys := update_where (\<lambda>r. r \<in> set ks) (\<lambda>r. r\<lparr>ot_consumedAt := Some (now e)\<rparr>) (oneTimePrekeys (w_db w))\<rparr>"
    unfolding w' by (rule consume_prekeys_rows [OF assms(2)]) (simp add: ks fetched_row)
  moreover have "set (map (d_id \<circ> fst) ds) = d_id ` {x \<in> set (devices (w_db w)). d_userId x = u \<and> d_active x}"
    using arg_cong [OF ds, of "\<lambda>xs. d_id ` set xs"] by (simp add: order_asc_def image_image)
  then have "(\<lambda>r. r \<in> set ks) = (\<lambda>r. \<exists>x\<in>set (devices (w_db w)). d_userId x = u \<and> d_active x \<and> oldest_prekey (w_db w) (d_id x) = Some r)"
    unfolding ks fetched_iff by (intro ext) auto
  ultimately show ?thesis by (simp add: ds)
qed

text \<open>The stock of a device stays within the limit.\<close>

definition within :: "int \<Rightarrow> db \<Rightarrow> bool" where
  "within M d \<longleftrightarrow> (\<forall>dv. int (unconsumed d dv) \<le> M)"

lemma within_same: "oneTimePrekeys d' = oneTimePrekeys d \<Longrightarrow> within M d \<Longrightarrow> within M d'"
  by (simp add: within_def unconsumed_def)

lemma within_frames [kdb_intros]: "kdb (within M) (dbset (devices_update f))" "kdb (within M) (dbset (signedPrekeys_update g))"
  by (rule kdb_dbset; erule within_same [rotated]; simp)+

lemma within_ops [kdb_intros]: "kdb (within M) (registerDevice e u dto)" "kdb (within M) (rotateSignedPrekey e u d k)" "kdb (within M) (deactivate u d)"
  unfolding registerDevice_def register_tx_def create_device_def rotateSignedPrekey_def rotate_tx_def deactivate_def
  by (intro kdb_intros kdb_tx_body)+

lemma count_where_update_le: "(\<And>r. q (f r) \<Longrightarrow> q r) \<Longrightarrow> count_where q (update_where p f rs) \<le> count_where q rs"
  by (induction rs) (auto simp: count_where_def intro: le_SucI)

lemma unconsumed_consume: "unconsumed (consume_prekeys e ks d) dv \<le> unconsumed d dv"
  unfolding unconsumed_def consume_prekeys_def by simp (rule count_where_update_le, simp)

lemma within_consume: "within M d \<Longrightarrow> within M (consume_prekeys e ks d)"
  unfolding within_def
proof
  fix dv assume "\<forall>dv. int (unconsumed d dv) \<le> M"
  then show "int (unconsumed (consume_prekeys e ks d) dv) \<le> M" using unconsumed_consume [of e ks d dv] by (smt (verit) of_nat_mono)
qed

lemma within_fetch [kdb_intros]: "kdb (within M) (getDeviceKeyBundles e u)"
  unfolding getDeviceKeyBundles_def by (intro kdb_intros kdb_tx_body kdb_dbset within_consume)

lemma insert_prekey_effect:
  "\<exists>n w1. insert_prekey_skip e dv k w = (Inr n, w1) \<and> n \<le> 1
     \<and> unconsumed (w_db w1) x = unconsumed (w_db w) x + (if x = dv then n else 0)"
proof (cases "exists_where (\<lambda>r. ot_id r = mkId e (w_supply w) \<or> (ot_deviceId r = dv \<and> ot_keyId r = pk_keyId k)) (oneTimePrekeys (w_db w))")
  case False
  then show ?thesis by (simp add: insert_prekey_skip_def act_simps unconsumed_def new_prekey_def count_where_def)
qed (simp add: insert_prekey_skip_def act_simps)

lemma inserted_count:
  assumes "map_act (insert_prekey_skip e dv) ks w = (r, w')"
  shows "\<exists>ns. r = Inr ns \<and> sum_list ns \<le> length ks
    \<and> unconsumed (w_db w') x = unconsumed (w_db w) x + (if x = dv then sum_list ns else 0)"
  using assms
proof (induction ks arbitrary: w w' r)
  case (Cons k ks)
  from insert_prekey_effect [of e dv k w x] obtain n w1 where i: "insert_prekey_skip e dv k w = (Inr n, w1)" and n: "n \<le> 1"
    and c: "unconsumed (w_db w1) x = unconsumed (w_db w) x + (if x = dv then n else 0)" by blast
  obtain r2 w2 where m: "map_act (insert_prekey_skip e dv) ks w1 = (r2, w2)" by fastforce
  from Cons.IH [OF m] Cons.prems i m n c show ?case by (auto simp: act_simps)
qed (auto simp: act_simps)

lemma assertDeviceOwner_run:
  "assertDeviceOwner u dv w = (case find_device (w_db w) dv of None \<Rightarrow> (Inl (NotFound ''Active device not found''), w)
     | Some x \<Rightarrow> (if \<not> d_active x then Inl (NotFound ''Active device not found'')
                 else if d_userId x \<noteq> u then Inl (Forbidden ''Device belongs to another user'') else Inr (), w))"
  by (simp add: assertDeviceOwner_def act_simps split: option.split)

lemma refill_effect:
  assumes "refill e u dv ks w = (r, w')"
  shows "(isl r \<and> w' = w) \<or>
    (\<exists>n. r = Inr n \<and> n \<le> length ks \<and> int (unconsumed (w_db w) dv) + int (length ks) \<le> maxPrekeys e
       \<and> (\<forall>x. unconsumed (w_db w') x = unconsumed (w_db w) x + (if x = dv then n else 0)))"
proof -
  obtain ri w2 where i: "map_act (insert_prekey_skip e dv) ks w = (ri, w2)" by fastforce
  from inserted_count [OF i] obtain ns where ns: "ri = Inr ns" by blast
  have "sum_list ns \<le> length ks \<and> unconsumed (w_db w2) x = unconsumed (w_db w) x + (if x = dv then sum_list ns else 0)" for x
    using inserted_count [OF i, of x] ns by auto
  then show ?thesis using assms
    by (auto simp: refill_def thn_run bnd_run ensure_run dbget_run ret_run assertDeviceOwner_run i ns split: option.splits if_splits)
qed

lemma within_refill:
  assumes "maxPrekeys e \<le> M"
  shows "kdb (within M) (refill e u dv ks)"
proof (rule kdbI)
  fix w :: world assume w: "within M (w_db w)"
  obtain r w' where run: "refill e u dv ks w = (r, w')" by fastforce
  from refill_effect [OF run] w assms show "within M (w_db (snd (refill e u dv ks w)))"
    by (auto simp: run within_def)
qed

fun call_max :: "key_call \<Rightarrow> int" where
  "call_max (Refill e u d ks) = maxPrekeys e"
| "call_max _ = 0"

lemma key_run_within: "within M (w_db w) \<Longrightarrow> call_max c \<le> M \<Longrightarrow> within M (w_db (key_run c w))"
  by (cases c) (auto intro!: kdbD kdb_intros within_refill)

text \<open>No device ever has more unused one-time prekeys than the limit, whatever sequence of calls runs; a refill
  either fails and changes nothing, or adds as many keys to that device as it reports, at most those submitted.\<close>

lemma prekey_stock_bound:
  assumes "\<forall>c\<in>set cs. call_max c \<le> M" and "\<forall>dv. int (unconsumed (w_db w) dv) \<le> M"
  shows "(\<forall>dv. int (unconsumed (w_db (fold key_run cs w)) dv) \<le> M)
    \<and> (\<forall>e u dv ks r w'. refill e u dv ks w = (r, w') \<longrightarrow> (isl r \<and> w' = w) \<or>
        (\<exists>n\<le>length ks. r = Inr n \<and> unconsumed (w_db w') dv = unconsumed (w_db w) dv + n))"
proof -
  have "within M (w_db (fold key_run cs w))"
    using assms by (induction cs arbitrary: w) (auto simp: key_run_within within_def [symmetric])
  then show ?thesis using refill_effect by (fastforce simp: within_def)
qed

text \<open>A device that was deactivated may be registered again when the limit is reached: only the creation of a new
  device counts the active ones.\<close>

lemma reregistration_ignores_limit:
  assumes "find_device (w_db w) i = Some x" and "d_userId x = u" and "rd_deviceId dto = Some i" and "i \<noteq> []"
  shows "fst (registerDevice e u dto w) = Inr (renew_device e dto x)"
  using assms by (simp add: registerDevice_def register_tx_def tx_def act_simps truthy_def)

lemma registration_limit:
  assumes "maxActiveDevices e \<le> active_count (w_db w) u"
    and "\<forall>i. rd_deviceId dto = Some i \<longrightarrow> find_device (w_db w) i = None"
  shows "registerDevice e u dto w = (Inl (Conflict (''Maximum active devices reached ('' @ show_int (maxActiveDevices e) @ '')'')), w)"
  using assms by (auto simp: registerDevice_def register_tx_def create_device_def tx_def act_simps rollback_def truthy_def split: option.split)

section \<open>Runs of the example deployment\<close>

text \<open>Ann's two devices hold three prekeys, and her bundles are fetched twice.\<close>

definition demo_keys :: "prekey_dto list" where
  "demo_keys = [\<lparr>pk_keyId = 1, pk_publicKey = ''x''\<rparr>, \<lparr>pk_keyId = 2, pk_publicKey = ''y''\<rparr>]"

definition demo_calls :: "key_call list" where
  "demo_calls = [Refill demo_env ''ann'' ''a1'' demo_keys, Refill demo_env ''ann'' ''a2'' (take 1 demo_keys),
     Fetch demo_env ''ann'', Fetch demo_env ''ann'']"

lemma demo_prekey_inv: "prekey_inv demo_db"
  by code_simp

theorem prekey_handed_once_witness:
  "handed key_run key_out demo_calls demo_world = [(''a1'', 1), (''a2'', 1), (''a1'', 2)]
     \<and> distinct (handed key_run key_out demo_calls demo_world)"
proof
  show "handed key_run key_out demo_calls demo_world = [(''a1'', 1), (''a2'', 1), (''a1'', 2)]" by code_simp
  show "distinct (handed key_run key_out demo_calls demo_world)"
    by (rule prekey_handed_once) (simp add: demo_prekey_inv)
qed

end
