(* ===== verification/Housekeeping.thy ===== *)
theory Housekeeping
  imports Moderation
begin

text \<open>
  The nightly jobs: \<open>src/common/tasks/prune.processor.ts\<close> removes rows that are spent, and
  \<open>src/common/tasks/media-cleanup.processor.ts\<close> removes uploads that were never completed together with their
  objects.  What the object store answers to a deletion is an argument.
\<close>

section \<open>\<open>PruneProcessor\<close>\<close>

definition days_ms :: "int \<Rightarrow> int" where
  "days_ms n = n * 24 * 60 * 60 * 1000"

definition prune_db :: "env \<Rightarrow> db \<Rightarrow> db" where
  "prune_db e d = (let reportCutoff = now e - days_ms (coalesce (REPORT_RETENTION_DAYS (cfg e)) 365);
       metricsCutoff = now e - days_ms (coalesce (DAILY_METRICS_RETENTION_DAYS (cfg e)) 365) in
     d\<lparr>refreshTokens := delete_where (\<lambda>t. rt_expiresAt t < now e \<or> rt_revokedAt t \<noteq> None) (refreshTokens d),
       socketTickets := delete_where (\<lambda>t. tk_expiresAt t < now e \<or> tk_consumedAt t \<noteq> None) (socketTickets d),
       otps := delete_where (\<lambda>o'. o_expiresAt o' < now e \<or> o_status o' = USED) (otps d),
       smsReports := delete_where (\<lambda>s. sr_createdAt s < now e - days_ms 30) (smsReports d),
       reports := delete_where (\<lambda>r. rp_createdAt r < reportCutoff) (reports d),
       dailyMetrics := delete_where (\<lambda>m. dm_date m < metricsCutoff) (dailyMetrics d)\<rparr>)"

definition processPrune :: "env \<Rightarrow> unit svc" where
  "processPrune e = tx (dbset (prune_db e))"

section \<open>\<open>MediaCleanupProcessor\<close>\<close>

text \<open>The answer of the object store to a deletion: none when it succeeded, otherwise the name and the status code of
  the error.\<close>

type_synonym r2_delete = "string \<Rightarrow> (string \<times> int option) option"

definition already_gone :: "string \<times> int option \<Rightarrow> bool" where
  "already_gone er \<longleftrightarrow> fst er = ''NoSuchKey'' \<or> snd er = Some 404"

definition tryDeleteR2Object :: "r2_delete \<Rightarrow> string \<Rightarrow> bool" where
  "tryDeleteR2Object del bucketKey = (case del bucketKey of None \<Rightarrow> True | Some er \<Rightarrow> already_gone er)"

definition pendingTimeoutMs :: "env \<Rightarrow> int" where
  "pendingTimeoutMs e = coalesce (MEDIA_PENDING_TIMEOUT_HOURS (cfg e)) 24 * 60 * 60 * 1000"

definition stale_media :: "env \<Rightarrow> db \<Rightarrow> media_row list" where
  "stale_media e d = filter (\<lambda>m. md_uploadStatus m = U_PENDING \<and> md_createdAt m < now e - pendingTimeoutMs e) (messageMedia d)"

text \<open>The body of the loop: whether both objects are gone, and how many deletions succeeded\<close>

definition reclaim :: "r2_delete \<Rightarrow> media_row \<Rightarrow> bool \<times> nat" where
  "reclaim del m = (let mainOk = tryDeleteR2Object del (md_bucketKey m);
       thumb = truthy (md_thumbnailBucketKey m);
       thumbOk = (\<not> thumb \<or> tryDeleteR2Object del (coalesce (md_thumbnailBucketKey m) [])) in
     (mainOk \<and> thumbOk, (if mainOk then 1 else 0) + (if thumb \<and> thumbOk then 1 else 0)))"

text \<open>The answer is what the job logs: the rows removed and the objects deleted.\<close>

definition processMediaCleanup :: "env \<Rightarrow> r2_delete \<Rightarrow> (nat \<times> nat) svc" where
  "processMediaCleanup e del =
     bnd (dbget (stale_media e)) (\<lambda>stale.
     if stale = [] then ret (0, 0)
     else let reclaimableIds = map md_id (filter (\<lambda>m. fst (reclaim del m)) stale);
              deletedObjects = sum_list (map (\<lambda>m. snd (reclaim del m)) stale) in
       if reclaimableIds = [] then ret (0, deletedObjects)
       else bnd (dbget (\<lambda>d. count_where (\<lambda>m. md_id m \<in> set reclaimableIds) (messageMedia d))) (\<lambda>removedRows.
         thn (dbset (messageMedia_update (delete_where (\<lambda>m. md_id m \<in> set reclaimableIds))))
             (ret (removedRows, deletedObjects))))"

section \<open>Pruning is invisible\<close>

lemma find_delete_where:
  assumes "distinct (map key rs)"
  shows "List.find (\<lambda>r. key r = k) (delete_where p rs) =
    (case List.find (\<lambda>r. key r = k) rs of None \<Rightarrow> None | Some r \<Rightarrow> if p r then None else Some r)"
  using assms
proof (induction rs)
  case (Cons a rs)
  have "List.find (\<lambda>r. key r = key a) rs = None" using Cons.prems by (force simp: find_None_iff image_iff)
  then show ?case using Cons by (auto simp: delete_where_def split: option.splits)
qed (simp add: delete_where_def)

lemma prune_simps [simp]:
  "users (prune_db e d) = users d" "devices (prune_db e d) = devices d" "userSuspensions (prune_db e d) = userSuspensions d"
  "adminAuditLog (prune_db e d) = adminAuditLog d" "messages (prune_db e d) = messages d"
  "refreshTokens (prune_db e d) = delete_where (\<lambda>t. rt_expiresAt t < now e \<or> rt_revokedAt t \<noteq> None) (refreshTokens d)"
  "socketTickets (prune_db e d) = delete_where (\<lambda>t. tk_expiresAt t < now e \<or> tk_consumedAt t \<noteq> None) (socketTickets d)"
  by (simp_all add: prune_db_def Let_def)

lemma prune_finds [simp]:
  "find_user (prune_db e d) u = find_user d u" "active_device (prune_db e d) u dv = active_device d u dv"
  by (simp_all add: find_user_def active_device_def)

lemma prune_session:
  assumes "distinct (map rt_id (refreshTokens d))"
  shows "find_session (prune_db e d) i =
    (case find_session d i of None \<Rightarrow> None | Some t \<Rightarrow> if rt_expiresAt t < now e \<or> rt_revokedAt t \<noteq> None then None else Some t)"
  unfolding find_session_def prune_simps by (rule find_delete_where [OF assms])

lemma prune_ticket:
  assumes "distinct (map tk_tokenHash (socketTickets d))"
  shows "find_ticket (prune_db e d) h =
    (case find_ticket d h of None \<Rightarrow> None | Some t \<Rightarrow> if tk_expiresAt t < now e \<or> tk_consumedAt t \<noteq> None then None else Some t)"
  unfolding find_ticket_def prune_simps by (rule find_delete_where [OF assms])

lemma prune_run: "processPrune e w = (Inr (), w\<lparr>w_db := prune_db e (w_db w)\<rparr>)"
  by (simp add: processPrune_def tx_def act_simps)

lemma prune_guard:
  assumes "distinct (map rt_id (refreshTokens (w_db w)))" and "now e \<le> now e'"
  shows "fst (canActivate e' verify header (w\<lparr>w_db := prune_db e (w_db w)\<rparr>)) = fst (canActivate e' verify header w)"
  using assms(2)
  by (auto simp: canActivate_def Let_def act_simps branch_simps prune_session [OF assms(1)] split: option.splits prod.splits)

lemma prune_socket:
  assumes "distinct (map rt_id (refreshTokens (w_db w)))" and "distinct (map tk_tokenHash (socketTickets (w_db w)))" and "now e \<le> now e'"
  shows "fst (consumeSocketTicket e' ticket sock (w\<lparr>w_db := prune_db e (w_db w)\<rparr>)) = fst (consumeSocketTicket e' ticket sock w)"
  using assms(3)
  by (auto simp: consumeSocketTicket_def consume_tx_def tx_def act_simps branch_simps prune_session [OF assms(1)] prune_ticket [OF assms(2)]
      split: option.splits)

text \<open>C36: Pruning is invisible to clients.  The nightly job never fails; afterwards every bearer token and every socket ticket gets
  the same answer as it would have got without the job, the audit log is untouched, and no login code or refresh
  token that is still in use and no report within its retention time is gone.\<close>

theorem prune_invisible:
  assumes "token_inv (w_db w)" and "ticket_inv (w_db w)" and "now e \<le> now e'" and "processPrune e w = (r, w')"
  shows "r = Inr () \<and> fst (canActivate e' verify header w') = fst (canActivate e' verify header w)
    \<and> fst (consumeSocketTicket e' ticket sock w') = fst (consumeSocketTicket e' ticket sock w)
    \<and> adminAuditLog (w_db w') = adminAuditLog (w_db w)
    \<and> (\<forall>x\<in>set (otps (w_db w)). now e \<le> o_expiresAt x \<and> o_status x \<noteq> USED \<longrightarrow> x \<in> set (otps (w_db w')))
    \<and> (\<forall>x\<in>set (refreshTokens (w_db w)). now e \<le> rt_expiresAt x \<and> rt_revokedAt x = None \<longrightarrow> x \<in> set (refreshTokens (w_db w')))
    \<and> (\<forall>x\<in>set (reports (w_db w)). now e - days_ms (coalesce (REPORT_RETENTION_DAYS (cfg e)) 365) \<le> rp_createdAt x \<longrightarrow> x \<in> set (reports (w_db w')))"
proof -
  have w': "r = Inr ()" "w' = w\<lparr>w_db := prune_db e (w_db w)\<rparr>" using assms(4) by (simp_all add: prune_run)
  have ids: "distinct (map rt_id (refreshTokens (w_db w)))" "distinct (map tk_tokenHash (socketTickets (w_db w)))"
    using assms(1,2) by (simp_all add: token_inv_def ticket_inv_def)
  show ?thesis unfolding w'(2) using prune_guard [OF ids(1) assms(3)] prune_socket [OF ids assms(3)] w'(1)
    by (auto simp: prune_db_def Let_def)
qed

text \<open>Once a revoked token is pruned, presenting it again is an unknown token: its family is not revoked any more.\<close>

lemma prune_forgets_reuse:
  assumes "token_inv (w_db w)" and "find_token (w_db w) h = Some t" and "rt_revokedAt t \<noteq> None"
  shows "find_token (prune_db e (w_db w)) h = None"
  using find_delete_where [of rt_tokenHash "refreshTokens (w_db w)" h "\<lambda>t. rt_expiresAt t < now e \<or> rt_revokedAt t \<noteq> None"] assms
  by (simp add: token_inv_def find_token_def)

section \<open>Uploads that were never completed\<close>

definition reclaimed :: "env \<Rightarrow> r2_delete \<Rightarrow> media_row \<Rightarrow> bool" where
  "reclaimed e del m \<longleftrightarrow> md_uploadStatus m = U_PENDING \<and> md_createdAt m < now e - pendingTimeoutMs e \<and> fst (reclaim del m)"

lemma reclaimable_iff:
  assumes "distinct (map md_id (messageMedia d))" and "m \<in> set (messageMedia d)"
  shows "md_id m \<in> set (map md_id (filter (\<lambda>m. fst (reclaim del m)) (stale_media e d))) \<longleftrightarrow> reclaimed e del m"
  using unique_row [OF assms] assms(2) by (auto simp: stale_media_def reclaimed_def)

text \<open>Only uploads that stayed pending for longer than the timeout are removed, and each of them only when its objects are
  gone; the others stay for the next run.  The job never fails.\<close>

lemma media_cleanup_effect:
  assumes "distinct (map md_id (messageMedia (w_db w)))"
  shows "\<exists>n k. processMediaCleanup e del w = (Inr (n, k), w\<lparr>w_db := (w_db w)\<lparr>messageMedia := filter (\<lambda>m. \<not> reclaimed e del m) (messageMedia (w_db w))\<rparr>\<rparr>)
    \<and> n = count_where (reclaimed e del) (messageMedia (w_db w))"
proof -
  let ?d = "w_db w" and ?ids = "map md_id (filter (\<lambda>m. fst (reclaim del m)) (stale_media e (w_db w)))"
  have del: "delete_where (\<lambda>m. md_id m \<in> set ?ids) (messageMedia ?d) = filter (\<lambda>m. \<not> reclaimed e del m) (messageMedia ?d)"
    unfolding delete_where_def by (rule filter_cong) (simp_all only: reclaimable_iff [OF assms])
  have cnt: "count_where (\<lambda>m. md_id m \<in> set ?ids) (messageMedia ?d) = count_where (reclaimed e del) (messageMedia ?d)"
    unfolding count_where_def by (rule arg_cong [where f = length], rule filter_cong) (simp_all only: reclaimable_iff [OF assms])
  show ?thesis
  proof (cases "?ids = []")
    case True
    then have "filter (\<lambda>m. \<not> reclaimed e del m) (messageMedia ?d) = messageMedia ?d" "count_where (reclaimed e del) (messageMedia ?d) = 0"
      unfolding del [symmetric] cnt [symmetric] by (simp_all add: delete_where_def count_where_def)
    then show ?thesis using True by (auto simp: processMediaCleanup_def act_simps)
  next
    case False
    then show ?thesis
      by (auto simp: processMediaCleanup_def act_simps Let_def del [symmetric] cnt [symmetric] simp del: set_map)
  qed
qed

section \<open>Runs of the example deployment\<close>

text \<open>A socket ticket of Ann survives the job and still opens a connection.\<close>

theorem prune_invisible_witness:
  "\<exists>w'. processPrune demo_env demo_ticket_world = (Inr (), w')
     \<and> fst (consumeSocketTicket demo_env ''i0'' ''x'' w') = Inr (''ann'', ''a1'', ''s1'')"
proof -
  obtain r w' where run: "processPrune demo_env demo_ticket_world = (r, w')" by fastforce
  have inv: "token_inv (w_db demo_ticket_world)" "ticket_inv (w_db demo_ticket_world)" by code_simp+
  have "fst (consumeSocketTicket demo_env ''i0'' ''x'' demo_ticket_world) = Inr (''ann'', ''a1'', ''s1'')" by code_simp
  with prune_invisible [OF inv order_refl run, of "\<lambda>_. None" None "''i0''" "''x''"] run show ?thesis by auto
qed

end
