(* ===== verification/Storage_Api.thy ===== *)
theory Storage_Api
  imports Housekeeping
begin

text \<open>
  What clients keep in the object store: backups (\<open>src/backups/backups.service.ts\<close>), the storage routes
  (\<open>src/storage/storage.controller.ts\<close>) and the worker that deletes objects
  (\<open>src/backups/queue/storage-cleanup.processor.ts\<close>).  The S3 client is an argument.
\<close>

section \<open>\<open>BackupsService\<close>\<close>

record put_backup_dto =
  pb_version :: int
  pb_bucketKey :: string
  pb_sha256 :: string
  pb_sizeBytes :: int

record backup_answer =
  ba_downloadUrl :: string
  ba_sha256 :: string
  ba_sizeBytes :: int
  ba_version :: int
  ba_uploadedAt :: time

definition find_backup :: "db \<Rightarrow> uuid \<Rightarrow> backup_row option" where
  "find_backup d userId = List.find (\<lambda>b. bb_userId b = userId) (backupBlobs d)"

definition getBackupUploadUrl :: "r2_client \<Rightarrow> uuid \<Rightarrow> int \<Rightarrow> (string \<times> string) svc" where
  "getBackupUploadUrl c userId sizeBytes = ret (generateUploadUrl c userId sizeBytes)"

definition new_backup :: "env \<Rightarrow> uuid \<Rightarrow> put_backup_dto \<Rightarrow> backup_row" where
  "new_backup e userId dto = \<lparr>bb_userId = userId, bb_bucketKey = pb_bucketKey dto, bb_sha256 = pb_sha256 dto,
     bb_sizeBytes = pb_sizeBytes dto, bb_version = pb_version dto, bb_uploadedAt = now e\<rparr>"

definition renew_backup :: "put_backup_dto \<Rightarrow> backup_row \<Rightarrow> backup_row" where
  "renew_backup dto b = b\<lparr>bb_bucketKey := pb_bucketKey dto, bb_sha256 := pb_sha256 dto, bb_sizeBytes := pb_sizeBytes dto,
     bb_version := pb_version dto\<rparr>"

definition upsert_backup :: "env \<Rightarrow> uuid \<Rightarrow> put_backup_dto \<Rightarrow> backup_row svc" where
  "upsert_backup e userId dto = bnd (dbget (\<lambda>d. find_backup d userId)) (\<lambda>found. case found of
     Some b \<Rightarrow> thn (dbset (backupBlobs_update (update_where (\<lambda>x. bb_userId x = userId) (renew_backup dto)))) (ret (renew_backup dto b))
   | None \<Rightarrow> bnd (dbget (\<lambda>d. find_user d userId)) (\<lambda>u.
       thn (ensure (u \<noteq> None) (PrismaError ''P2003''))
      (thn (dbset (backupBlobs_update (\<lambda>bs. bs @ [new_backup e userId dto]))) (ret (new_backup e userId dto)))))"

definition putCurrent :: "env \<Rightarrow> r2_client \<Rightarrow> uuid \<Rightarrow> put_backup_dto \<Rightarrow> backup_row svc" where
  "putCurrent e c userId dto =
     bnd (dbget (\<lambda>d. map_option bb_bucketKey (find_backup d userId))) (\<lambda>existing.
     thn (lift (verifyObjectExists c (pb_bucketKey dto) (pb_sizeBytes dto)))
    (bnd (upsert_backup e userId dto) (\<lambda>backup.
     thn (case existing of
            Some k \<Rightarrow> whenA (k \<noteq> pb_bucketKey dto) (queue_add e (StorageCleanup k))
          | None \<Rightarrow> ret ())
         (ret backup))))"

definition getCurrent :: "r2_client \<Rightarrow> uuid \<Rightarrow> backup_answer svc" where
  "getCurrent c userId = bnd (dbget (\<lambda>d. find_backup d userId)) (\<lambda>found.
     bnd (require found (NotFound ''Backup not found'')) (\<lambda>b.
     ret \<lparr>ba_downloadUrl = generateDownloadUrl c (bb_bucketKey b), ba_sha256 = bb_sha256 b, ba_sizeBytes = bb_sizeBytes b,
       ba_version = bb_version b, ba_uploadedAt = bb_uploadedAt b\<rparr>))"

definition getMetadata :: "uuid \<Rightarrow> (string \<times> int \<times> int \<times> time) svc" where
  "getMetadata userId = bnd (dbget (\<lambda>d. find_backup d userId)) (\<lambda>found.
     bnd (require found (NotFound ''Backup not found'')) (\<lambda>b. ret (bb_sha256 b, bb_sizeBytes b, bb_version b, bb_uploadedAt b)))"

section \<open>\<open>StorageCleanupProcessor\<close>\<close>

definition processStorageCleanup :: "r2_delete \<Rightarrow> string \<Rightarrow> unit svc" where
  "processStorageCleanup del bucketKey = (case del bucketKey of
     None \<Rightarrow> ret ()
   | Some er \<Rightarrow> if already_gone er then ret () else throw (OtherError (fst er)))"

section \<open>\<open>StorageController\<close>\<close>

definition getPresignedUploadUrl :: "r2_client \<Rightarrow> uuid \<Rightarrow> string \<Rightarrow> string \<Rightarrow> int \<Rightarrow> upload_purpose \<Rightarrow> (string \<times> string) svc" where
  "getPresignedUploadUrl c userId filename mimeType sizeBytes purpose =
     catching (lift (generatePresignedUploadUrl c userId filename mimeType sizeBytes purpose None))
       (\<lambda>er. throw (BadRequest (error_message er)))"

definition key_owner :: "string \<Rightarrow> string option" where
  "key_owner bucketKey = (case split_on (CHR ''/'') bucketKey of _ # u # _ \<Rightarrow> Some u | _ \<Rightarrow> None)"

definition getObjectUrl :: "r2_client \<Rightarrow> uuid \<Rightarrow> string \<Rightarrow> string svc" where
  "getObjectUrl c userId bucketKey =
     thn (ensure (bucketKey \<noteq> []) (BadRequest ''bucketKey is required''))
    (thn (ensure (starts_with bucketKey ''avatars/'' \<or> starts_with bucketKey ''media/'') (Forbidden ''Access denied''))
    (thn (ensure (starts_with bucketKey ''media/'' \<longrightarrow> key_owner bucketKey = Some userId) (Forbidden ''Access denied''))
         (ret (generateDownloadUrl c bucketKey))))"

definition deleteStoredObject :: "r2_delete \<Rightarrow> uuid \<Rightarrow> string \<Rightarrow> unit svc" where
  "deleteStoredObject del userId bucketKey =
     thn (ensure (bucketKey \<noteq> []) (BadRequest ''bucketKey is required''))
    (thn (ensure (starts_with bucketKey ''avatars/'' \<or> starts_with bucketKey ''media/'') (Forbidden ''Access denied''))
    (thn (ensure (key_owner bucketKey = Some userId) (Forbidden ''Access denied''))
         (case del bucketKey of None \<Rightarrow> ret () | Some er \<Rightarrow> throw (BadRequest (fst er)))))"

section \<open>Keys and their owners\<close>

lemma split_on_prefix: "c \<notin> set p \<Longrightarrow> split_on c (p @ c # s) = p # split_on c s"
proof (induction p)
  case Nil
  then show ?case using split_on_nonempty [of c s] by (cases "split_on c s") auto
qed auto

lemma key_owner_made:
  assumes "CHR ''/'' \<notin> set folder" and "CHR ''/'' \<notin> set u"
  shows "key_owner (folder @ ''/'' @ u @ ''/'' @ rest) = Some u"
  using assms by (simp add: key_owner_def split_on_prefix)

lemma starts_with_append [simp]: "starts_with (p @ s) p"
  by (induction p) auto

text \<open>The key that an upload was given, by its purpose\<close>

lemma upload_key:
  assumes "generatePresignedUploadUrl c u filename mime n p mt = Inr (url, key)"
  obtains rest where "key = (case p of Avatar \<Rightarrow> ''avatars'' | MediaUpload \<Rightarrow> ''media'') @ ''/'' @ u @ ''/'' @ rest"
  using assms by (auto simp: generatePresignedUploadUrl_def Let_def split: if_splits option.splits)


text \<open>The route for presigned uploads passes no media type, and so it rejects every media upload.\<close>

lemma media_upload_route_rejects: "\<exists>msg. getPresignedUploadUrl c u f mime n MediaUpload w = (Inl (BadRequest msg), w)"
  by (auto simp: getPresignedUploadUrl_def generatePresignedUploadUrl_def Let_def act_simps)

section \<open>Backups\<close>

lemma putCurrent_ok:
  assumes "putCurrent e c u dto w = (Inr b, w')"
  obtains "verifyObjectExists c (pb_bucketKey dto) (pb_sizeBytes dto) = Inr ()"
    and "backupBlobs (w_db w') = (if find_backup (w_db w) u = None then backupBlobs (w_db w) @ [new_backup e u dto]
           else update_where (\<lambda>x. bb_userId x = u) (renew_backup dto) (backupBlobs (w_db w)))"
    and "w_jobs w' = w_jobs w @ (case find_backup (w_db w) u of None \<Rightarrow> []
           | Some old \<Rightarrow> if bb_bucketKey old = pb_bucketKey dto then [] else [StorageCleanup (bb_bucketKey old)])"
proof -
  have "verifyObjectExists c (pb_bucketKey dto) (pb_sizeBytes dto) = Inr ()"
    using assms by (auto simp: putCurrent_def ok_simps)
  moreover have "backupBlobs (w_db w') = (if find_backup (w_db w) u = None then backupBlobs (w_db w) @ [new_backup e u dto]
       else update_where (\<lambda>x. bb_userId x = u) (renew_backup dto) (backupBlobs (w_db w)))
     \<and> w_jobs w' = w_jobs w @ (case find_backup (w_db w) u of None \<Rightarrow> []
         | Some old \<Rightarrow> if bb_bucketKey old = pb_bucketKey dto then [] else [StorageCleanup (bb_bucketKey old)])"
    using assms by (cases "find_backup (w_db w) u") (auto simp: putCurrent_def upsert_backup_def ok_simps queue_add_def split: option.splits if_splits)
  ultimately show thesis using that by simp
qed

lemma find_put_backup:
  assumes "putCurrent e c u dto w = (Inr b, w')"
  shows "\<exists>x. find_backup (w_db w') u = Some x \<and> bb_bucketKey x = pb_bucketKey dto \<and> bb_sha256 x = pb_sha256 dto
      \<and> bb_sizeBytes x = pb_sizeBytes dto \<and> bb_version x = pb_version dto"
    and "v \<noteq> u \<Longrightarrow> find_backup (w_db w') v = find_backup (w_db w) v"
proof -
  from assms have blobs: "backupBlobs (w_db w') = (if find_backup (w_db w) u = None then backupBlobs (w_db w) @ [new_backup e u dto]
           else update_where (\<lambda>x. bb_userId x = u) (renew_backup dto) (backupBlobs (w_db w)))" by (rule putCurrent_ok)
  have upd: "List.find (\<lambda>b. bb_userId b = v) (update_where (\<lambda>x. bb_userId x = u) (renew_backup dto) bs)
      = map_option (\<lambda>r. if bb_userId r = u then renew_backup dto r else r) (List.find (\<lambda>b. bb_userId b = v) bs)" for v bs
    by (rule find_update_where) (simp add: renew_backup_def)
  show "\<exists>x. find_backup (w_db w') u = Some x \<and> bb_bucketKey x = pb_bucketKey dto \<and> bb_sha256 x = pb_sha256 dto
      \<and> bb_sizeBytes x = pb_sizeBytes dto \<and> bb_version x = pb_version dto"
    using blobs by (cases "find_backup (w_db w) u")
      (auto simp: find_backup_def find_append upd new_backup_def renew_backup_def dest: find_Some_in)
  show "v \<noteq> u \<Longrightarrow> find_backup (w_db w') v = find_backup (w_db w) v"
    using blobs by (cases "find_backup (w_db w) v")
      (auto simp: find_backup_def find_append upd new_backup_def dest: find_Some_in split: if_splits)
qed

text \<open>C30: A backup is read back as it was stored.  After a successful upload the user reads back a download link for the
  submitted key with the submitted hash, size and version, the backups of all other users are as before, and
  the object that was replaced is queued for deletion.  The key is whatever the client submits: nothing ties
  it to the user, so the link and later the deletion may concern the object of someone else.\<close>

theorem backup_roundtrip:
  assumes "putCurrent e c u dto w = (Inr b, w')"
  shows "(\<exists>t. getCurrent c u w' = (Inr \<lparr>ba_downloadUrl = generateDownloadUrl c (pb_bucketKey dto), ba_sha256 = pb_sha256 dto,
          ba_sizeBytes = pb_sizeBytes dto, ba_version = pb_version dto, ba_uploadedAt = t\<rparr>, w'))
    \<and> (\<forall>v. v \<noteq> u \<longrightarrow> fst (getCurrent c v w') = fst (getCurrent c v w))
    \<and> (\<forall>old. find_backup (w_db w) u = Some old \<and> bb_bucketKey old \<noteq> pb_bucketKey dto \<longrightarrow> StorageCleanup (bb_bucketKey old) \<in> set (w_jobs w'))"
proof -
  from assms have jobs: "w_jobs w' = w_jobs w @ (case find_backup (w_db w) u of None \<Rightarrow> []
           | Some old \<Rightarrow> if bb_bucketKey old = pb_bucketKey dto then [] else [StorageCleanup (bb_bucketKey old)])" by (rule putCurrent_ok)
  show ?thesis using find_put_backup [OF assms] jobs by (auto simp: getCurrent_def act_simps split: option.splits)
qed

section \<open>Runs of the example deployment\<close>

definition demo_r2 :: r2_client where
  "demo_r2 = \<lparr>r2_sign = (\<lambda>cmd. case cmd of PutObject k n m \<Rightarrow> ''put:'' @ k | GetObject k \<Rightarrow> ''get:'' @ k),
     r2_head = (\<lambda>k. Inr 7), r2_uuid = ''id''\<rparr>"

definition demo_backup :: "string \<Rightarrow> put_backup_dto" where
  "demo_backup k = \<lparr>pb_version = 1, pb_bucketKey = k, pb_sha256 = ''hash'', pb_sizeBytes = 7\<rparr>"


text \<open>Bob submits the key of Ann's backup as his own, and gets a link to it.\<close>

theorem backup_roundtrip_witness:
  "\<exists>b w'. putCurrent demo_env demo_r2 ''bob'' (demo_backup ''backups/ann/id.bin'')
       (snd (putCurrent demo_env demo_r2 ''ann'' (demo_backup ''backups/ann/id.bin'') demo_world)) = (Inr b, w')
     \<and> ba_downloadUrl (projr (fst (getCurrent demo_r2 ''bob'' w'))) = ''get:backups/ann/id.bin''"
proof -
  let ?w = "snd (putCurrent demo_env demo_r2 ''ann'' (demo_backup ''backups/ann/id.bin'') demo_world)"
  have "\<not> isl (fst (putCurrent demo_env demo_r2 ''bob'' (demo_backup ''backups/ann/id.bin'') ?w))" by code_simp
  then obtain b w' where run: "putCurrent demo_env demo_r2 ''bob'' (demo_backup ''backups/ann/id.bin'') ?w = (Inr b, w')" by (rule run_okE)
  have url: "generateDownloadUrl demo_r2 (pb_bucketKey (demo_backup ''backups/ann/id.bin'')) = ''get:backups/ann/id.bin''" by code_simp
  from backup_roundtrip [OF run, THEN conjunct1]
  have "ba_downloadUrl (projr (fst (getCurrent demo_r2 ''bob'' w'))) = ''get:backups/ann/id.bin''" by (auto simp: url)
  with run show ?thesis by (intro exI conjI)
qed

end
