(* ===== verification/Telegram.thy ===== *)
theory Telegram
  imports Auth
begin

text \<open>
  The delivery of login codes over Telegram: \<open>src/telegram/telegram-bot.service.ts\<close> and the worker
  \<open>src/telegram/queue/telegram-otp.processor.ts\<close>.  The bot library is a parameter: whether the bot is configured,
  and whether a message to a chat is accepted or fails with an error.
\<close>

section \<open>\<open>TelegramBotService\<close>\<close>

datatype tg_text = OtpText string | WelcomeText | OwnNumberText | LinkedText

record tg_bot =
  tg_enabled :: bool
  tg_sendMessage :: "int \<Rightarrow> tg_text \<Rightarrow> string option"

record contact_update =
  cu_fromId :: int
  cu_chatId :: int
  cu_username :: "string option"
  cu_contactUserId :: "int option"
  cu_phoneNumber :: string

datatype tg_update = StartCommand | ContactShared contact_update | OtherUpdate

text \<open>The result of a delivery, and the chat and code that were sent\<close>

record send_result =
  or_success :: bool
  or_error :: "string option"
  or_sent :: "(int \<times> string) option"

definition create_sms_report :: "env \<Rightarrow> string \<Rightarrow> bool \<Rightarrow> string option \<Rightarrow> unit svc" where
  "create_sms_report e phoneHash ok er = bnd (fresh e) (\<lambda>i. bnd (dbget id) (\<lambda>d.
     thn (ensure (\<not> exists_where (\<lambda>s. sr_id s = i) (smsReports d)) (PrismaError ''P2002''))
         (dbset (smsReports_update (\<lambda>ss. ss @ [\<lparr>sr_id = i, sr_phoneHash = phoneHash, sr_type = OTP, sr_provider = TELEGRAM,
            sr_success = ok, sr_error = er, sr_createdAt = now e\<rparr>])))))"

definition sendOtp :: "env \<Rightarrow> tg_bot \<Rightarrow> string \<Rightarrow> string \<Rightarrow> send_result svc" where
  "sendOtp e tg phoneHash code =
     (if \<not> tg_enabled tg then ret \<lparr>or_success = False, or_error = Some ''Telegram bot not configured'', or_sent = None\<rparr>
      else bnd (dbget (\<lambda>d. find_link d phoneHash)) (\<lambda>found. case found of
        None \<Rightarrow> ret \<lparr>or_success = False, or_error = Some ''No Telegram link for this phone'', or_sent = None\<rparr>
      | Some link \<Rightarrow>
          let failure = tg_sendMessage tg (tl_chatId link) (OtpText code);
              sent = (if failure = None then Some (tl_chatId link, code) else None) in
          catching
            (thn (case failure of Some msg \<Rightarrow> throw (OtherError msg) | None \<Rightarrow> ret ())
            (thn (create_sms_report e phoneHash True None)
                 (ret \<lparr>or_success = True, or_error = None, or_sent = sent\<rparr>)))
            (\<lambda>er. thn (create_sms_report e phoneHash False (Some (error_message er)))
                 (ret \<lparr>or_success = False, or_error = Some (error_message er), or_sent = sent\<rparr>))))"

definition link_row :: "env \<Rightarrow> contact_update \<Rightarrow> telegram_link_row" where
  "link_row e u = \<lparr>tl_phoneHash = phone_hash e (normalizePhone (cu_phoneNumber u)), tl_chatId = cu_chatId u,
     tl_telegramUserId = Some (cu_fromId u), tl_username = cu_username u\<rparr>"

definition upsert_link :: "telegram_link_row \<Rightarrow> telegram_link_row list \<Rightarrow> telegram_link_row list" where
  "upsert_link l ls = (if exists_where (\<lambda>x. tl_phoneHash x = tl_phoneHash l) ls
     then update_where (\<lambda>x. tl_phoneHash x = tl_phoneHash l) (\<lambda>x. l) ls else ls @ [l])"

text \<open>The handler of a shared contact; the answer is the reply to the chat.\<close>

definition onContact :: "env \<Rightarrow> contact_update \<Rightarrow> tg_text svc" where
  "onContact e u =
     (if cu_contactUserId u \<noteq> Some (cu_fromId u) then ret OwnNumberText
      else thn (dbset (telegramLinks_update (upsert_link (link_row e u)))) (ret LinkedText))"

fun handleUpdate :: "env \<Rightarrow> tg_update \<Rightarrow> tg_text option svc" where
  "handleUpdate e StartCommand = ret (Some WelcomeText)"
| "handleUpdate e (ContactShared u) = bnd (onContact e u) (\<lambda>t. ret (Some t))"
| "handleUpdate e OtherUpdate = ret None"

definition secret_ok :: "env \<Rightarrow> string option \<Rightarrow> bool" where
  "secret_ok e secretToken \<longleftrightarrow> \<not> (coalesce (TELEGRAM_WEBHOOK_SECRET (cfg e)) [] \<noteq> [] \<and> secretToken \<noteq> TELEGRAM_WEBHOOK_SECRET (cfg e))"

definition handleWebhook :: "env \<Rightarrow> tg_bot \<Rightarrow> tg_update \<Rightarrow> string option \<Rightarrow> bool svc" where
  "handleWebhook e tg update secretToken =
     (if \<not> tg_enabled tg then ret False
      else if \<not> secret_ok e secretToken then ret False
      else bnd (handleUpdate e update) (\<lambda>_. ret True))"

section \<open>\<open>TelegramOtpProcessor\<close>\<close>

definition processTelegramOtp :: "env \<Rightarrow> tg_bot \<Rightarrow> string \<Rightarrow> string \<Rightarrow> string \<Rightarrow> send_result svc" where
  "processTelegramOtp e tg phoneHash phone code = bnd (sendOtp e tg phoneHash code) (\<lambda>result.
     thn (ensure (or_success result) (OtherError (coalesce (or_error result) ''Telegram provider returned failure''))) (ret result))"

section \<open>Who receives a code\<close>

text \<open>An update that may link a chat: accepted, and with the sender's own contact.\<close>

definition links :: "env \<times> tg_bot \<times> tg_update \<times> string option \<Rightarrow> string \<Rightarrow> int \<Rightarrow> bool" where
  "links x h chat = (case x of (e, tg, update, sec) \<Rightarrow> tg_enabled tg \<and> secret_ok e sec
     \<and> (\<exists>u. update = ContactShared u \<and> cu_contactUserId u = Some (cu_fromId u) \<and> cu_chatId u = chat
          \<and> phone_hash e (normalizePhone (cu_phoneNumber u)) = h))"

fun run_updates :: "(env \<times> tg_bot \<times> tg_update \<times> string option) list \<Rightarrow> world \<Rightarrow> world" where
  "run_updates [] w = w"
| "run_updates ((e, tg, update, sec) # us) w = run_updates us (snd (handleWebhook e tg update sec w))"

lemma upsert_link_in: "x \<in> set (upsert_link l ls) \<Longrightarrow> x = l \<or> x \<in> set ls"
  by (auto simp: upsert_link_def set_update_where split: if_splits)

lemma webhook_links:
  assumes "l \<in> set (telegramLinks (w_db (snd (handleWebhook e tg update sec w))))"
  shows "l \<in> set (telegramLinks (w_db w)) \<or> links (e, tg, update, sec) (tl_phoneHash l) (tl_chatId l)"
  using assms
  by (cases update) (auto simp: handleWebhook_def onContact_def act_simps links_def link_row_def dest!: upsert_link_in split: if_splits)

lemma updates_links:
  "l \<in> set (telegramLinks (w_db (run_updates us w))) \<Longrightarrow>
   l \<in> set (telegramLinks (w_db w)) \<or> (\<exists>x\<in>set us. links x (tl_phoneHash l) (tl_chatId l))"
proof (induction us arbitrary: w)
  case (Cons x us)
  then show ?case using webhook_links by (cases x) fastforce
qed simp

lemma sendOtp_sent:
  assumes "sendOtp e tg h code w = (Inr r, w')" and "or_sent r = Some (chat, c)"
  shows "c = code \<and> (\<exists>l. find_link (w_db w) h = Some l \<and> tl_chatId l = chat)"
  using assms by (auto simp: sendOtp_def ok_simps Let_def split: if_splits option.splits)

text \<open>C13: A login code reaches only the owner of the phone number.  Starting without links, after any sequence of webhook calls, when
  a code is sent to a chat, that chat shared its own contact with exactly that phone number in an accepted
  update, and the text holds the code of the job; a delivery that did not succeed fails the job.\<close>

theorem otp_reaches_owner:
  assumes "telegramLinks (w_db w) = []" and "sendOtp e tg h code (run_updates us w) = (Inr r, w')"
  shows "(\<forall>chat c. or_sent r = Some (chat, c) \<longrightarrow> c = code \<and> (\<exists>x\<in>set us. links x h chat))
    \<and> (\<not> or_success r \<longrightarrow> isl (fst (processTelegramOtp e tg h p code (run_updates us w))))"
proof (intro conjI allI impI)
  fix chat c assume "or_sent r = Some (chat, c)"
  with sendOtp_sent [OF assms(2)] obtain l where l: "c = code" "find_link (w_db (run_updates us w)) h = Some l" "tl_chatId l = chat" by blast
  then have "l \<in> set (telegramLinks (w_db (run_updates us w)))" "tl_phoneHash l = h" by (auto simp: find_link_def dest: find_Some_in)
  with updates_links [of l us w] assms(1) l show "c = code" "\<exists>x\<in>set us. links x h chat" by auto
qed (simp add: processTelegramOtp_def assms(2) act_simps)

section \<open>Runs of the example deployment\<close>

definition demo_bot :: tg_bot where
  "demo_bot = \<lparr>tg_enabled = True, tg_sendMessage = (\<lambda>_ _. None)\<rparr>"

definition demo_contact :: contact_update where
  "demo_contact = \<lparr>cu_fromId = 5, cu_chatId = 9, cu_username = None, cu_contactUserId = Some 5, cu_phoneNumber = ''+998901234567''\<rparr>"

theorem otp_reaches_owner_witness:
  "\<exists>r w'. sendOtp demo_env demo_bot (phone_hash demo_env (normalizePhone ''+998901234567'')) ''1234''
       (run_updates [(demo_env, demo_bot, ContactShared demo_contact, None)] demo_world) = (Inr r, w')
     \<and> or_sent r = Some (9, ''1234'') \<and> (\<exists>x\<in>set [(demo_env, demo_bot, ContactShared demo_contact, None)].
         links x (phone_hash demo_env (normalizePhone ''+998901234567'')) 9)"
proof -
  let ?us = "[(demo_env, demo_bot, ContactShared demo_contact, None :: string option)]" and ?h = "phone_hash demo_env (normalizePhone ''+998901234567'')"
  have "\<not> isl (fst (sendOtp demo_env demo_bot ?h ''1234'' (run_updates ?us demo_world)))" by code_simp
  then obtain r w' where run: "sendOtp demo_env demo_bot ?h ''1234'' (run_updates ?us demo_world) = (Inr r, w')" by (rule run_okE)
  have "or_sent (projr (fst (sendOtp demo_env demo_bot ?h ''1234'' (run_updates ?us demo_world)))) = Some (9, ''1234'')" by code_simp
  then have sent: "or_sent r = Some (9, ''1234'')" by (simp only: run fst_conv sum.sel)
  have "telegramLinks (w_db demo_world) = []" by code_simp
  from otp_reaches_owner [OF this run] sent have "\<exists>x\<in>set ?us. links x ?h 9" by blast
  with run sent show ?thesis by (intro exI conjI)
qed

end
