(* ===== verification/Http_Edge.thy ===== *)
theory Http_Edge
  imports Demo
begin

text \<open>
  The edge of the HTTP server: the check of the internal API key (\<open>src/common/guards/internal-api-key.validator.ts\<close> and the guard
  that uses it) and the filter that turns a thrown error into a response
  (\<open>src/common/filters/http-exception.filter.ts\<close>).
\<close>

section \<open>The internal API key\<close>

datatype key_check = Key_ok | Key_missing | Key_invalid

text \<open>\<open>timingSafeEqual\<close> compares two buffers of the same length, byte by byte without an early exit.\<close>

fun timingSafeEqual :: "string \<Rightarrow> string \<Rightarrow> bool" where
  "timingSafeEqual (x # xs) (y # ys) = (let rest = timingSafeEqual xs ys in x = y \<and> rest)"
| "timingSafeEqual xs ys = True"

definition validateInternalApiKey :: "json option \<Rightarrow> string \<Rightarrow> key_check" where
  "validateInternalApiKey headerValue expectedKey = (case headerValue of
     Some (JStr h) \<Rightarrow>
       if length h = 0 then Key_missing
       else if length h \<noteq> length expectedKey \<or> \<not> timingSafeEqual h expectedKey then Key_invalid
       else Key_ok
   | _ \<Rightarrow> Key_missing)"

fun api_key_message :: "key_check \<Rightarrow> string" where
  "api_key_message Key_missing = ''Missing internal API key''"
| "api_key_message Key_invalid = ''Invalid internal API key''"
| "api_key_message Key_ok = []"

definition internalCanActivate :: "json option \<Rightarrow> string \<Rightarrow> unit svc" where
  "internalCanActivate headerValue expected = (let result = validateInternalApiKey headerValue expected in
     ensure (result = Key_ok) (Forbidden (api_key_message result)))"

lemma timingSafeEqual_iff: "length xs = length ys \<Longrightarrow> timingSafeEqual xs ys \<longleftrightarrow> xs = ys"
  by (induction xs ys rule: timingSafeEqual.induct) auto

text \<open>The guard admits exactly the configured key, and never an empty one.\<close>

lemma internal_key_exact:
  "internalCanActivate h k w = (Inr (), w') \<longleftrightarrow> h = Some (JStr k) \<and> k \<noteq> [] \<and> w' = w"
  by (auto simp: internalCanActivate_def validateInternalApiKey_def Let_def ok_simps timingSafeEqual_iff split: option.splits json.splits if_splits)

section \<open>The exception filter\<close>

record http_error =
  he_statusCode :: int
  he_message :: string

fun is_http :: "error \<Rightarrow> bool" where
  "is_http (PrismaError c) = False"
| "is_http (OtherError s) = False"
| "is_http _ = True"

fun http_status :: "error \<Rightarrow> int" where
  "http_status (BadRequest s) = 400"
| "http_status (TelegramLinkRequired l) = 400"
| "http_status (Unauthorized s) = 401"
| "http_status (Forbidden s) = 403"
| "http_status (NotFound s) = 404"
| "http_status (Conflict s) = 409"
| "http_status (AccountSuspended b) = 403"
| "http_status (PrismaError c) = 500"
| "http_status (OtherError s) = 500"

text \<open>Path and timestamp of the response come from the request and the clock.\<close>

definition catchException :: "error \<Rightarrow> http_error" where
  "catchException exception =
     \<lparr>he_statusCode = (if is_http exception then http_status exception else 500),
      he_message = (if is_http exception then error_message exception else ''Internal server error'')\<rparr>"

text \<open>What a database or other internal error says never reaches the client; and of a suspension neither reason nor expiry do.\<close>

lemma internal_errors_hidden:
  "\<not> is_http er \<Longrightarrow> catchException er = \<lparr>he_statusCode = 500, he_message = ''Internal server error''\<rparr>"
  by (simp add: catchException_def)

lemma suspension_details_dropped: "catchException (AccountSuspended b) = catchException (AccountSuspended b')"
  by (simp add: catchException_def)

end
