(* ===== verification/Report_Flow.thy ===== *)
theory Report_Flow
  imports Suspensions
begin

text \<open>
  Reading and filing reports as a client sees it: following the cursor of a listing until its end, and filing
  reports until the daily limit.  The locale \<open>cursor_pages\<close> is the contract of a listing with a cursor; the
  report queue and the audit log interpret it.
\<close>

section \<open>Following a cursor\<close>

text \<open>A client reads a page, and as long as the answer has a cursor reads on from there.  \<open>None\<close> stands for a client that
  did not reach the end within the given number of requests.\<close>

fun walk :: "(string option \<Rightarrow> 'r list \<times> uuid option) \<Rightarrow> nat \<Rightarrow> string option \<Rightarrow> 'r list option" where
  "walk page 0 c = None"
| "walk page (Suc k) c = (case page c of (xs, None) \<Rightarrow> Some xs | (xs, Some c') \<Rightarrow> map_option (\<lambda>ys. xs @ ys) (walk page k (Some c')))"

locale cursor_pages =
  fixes rid :: "'r \<Rightarrow> uuid"
    and rows :: "'s \<Rightarrow> 'r list"
    and page :: "'s \<Rightarrow> string option \<Rightarrow> 'r list \<times> uuid option"
    and n :: nat
  assumes page_size: "0 < n"
    and page_rows: "page s c = cut_page rid n (take (n + 1) (after_cursor rid c (rows s)))"
begin

lemma after_row:
  assumes "distinct (map rid rs)" and "rs = pre @ x # post" and "rid x \<noteq> []"
  shows "after_cursor rid (Some (rid x)) rs = post"
proof -
  have "dropWhile (\<lambda>r. rid r \<noteq> rid x) (pre @ x # post) = x # post"
    using assms(1,2) by (subst dropWhile_append2) (force simp: image_iff)+
  then show ?thesis using assms by (simp add: after_cursor_def truthy_def)
qed

lemma walk_rest:
  assumes "distinct (map rid (rows s))" and "[] \<notin> rid ` set (rows s)" and "rows s = pre @ rest"
    and "after_cursor rid c (rows s) = rest" and "length rest < k"
  shows "walk (page s) k c = Some rest"
  using assms(3-5)
proof (induction k arbitrary: pre rest c)
  case (Suc k)
  show ?case
  proof (cases "n < length rest")
    case False
    then show ?thesis using Suc.prems by (simp add: page_rows cut_page_def)
  next
    case True
    let ?x = "rest ! (n - 1)"
    have split: "rest = take (n - 1) rest @ ?x # drop n rest"
      using id_take_nth_drop [of "n - 1" rest] page_size True by simp
    have last: "last (take n rest) = ?x" using page_size True by (subst last_conv_nth) auto
    have "rid ?x \<noteq> []" using assms(2) Suc.prems(1) True page_size by (metis (no_types, lifting) Un_iff image_eqI less_imp_diff_less nth_mem set_append)
    then have after: "after_cursor rid (Some (rid ?x)) (rows s) = drop n rest"
      by (intro after_row [OF assms(1), of "pre @ take (n - 1) rest"]) (use Suc.prems(1) split in simp_all)
    have "rows s = (pre @ take n rest) @ drop n rest" using Suc.prems(1) by simp
    from Suc.IH [OF this after] have "walk (page s) k (Some (rid ?x)) = Some (drop n rest)"
      using Suc.prems(3) page_size True by simp
    moreover have "page s c = (take n rest, Some (rid ?x))" using True last Suc.prems(2) by (simp add: page_rows cut_page_def)
    ultimately show ?thesis by simp
  qed
qed simp

text \<open>A client that may make one request more than there are rows reads every row once, in order.\<close>

lemma walk_all:
  assumes "distinct (map rid (rows s))" and "[] \<notin> rid ` set (rows s)" and "length (rows s) < k"
  shows "walk (page s) k None = Some (rows s)"
  by (rule walk_rest [OF assms(1,2), of "[]"]) (use assms(3) in \<open>simp_all add: after_cursor_def truthy_def\<close>)

end

subsection \<open>The report queue and the audit log\<close>

definition page_of :: "'a svc \<Rightarrow> world \<Rightarrow> 'a" where
  "page_of m w = projr (fst (m w))"

definition audit_queue :: "audit_filter \<Rightarrow> db \<Rightarrow> audit_row list" where
  "audit_queue f d = rev (sort_key al_id (filter (audit_selects f) (adminAuditLog d)))"

lemma clamp_pos: "0 < clamp l"
  by (simp add: clamp_def)

lemma report_selects_cursor: "report_selects (q\<lparr>rq_cursor := c\<rparr>) = report_selects q"
  by (intro ext) (simp add: report_selects_def)

lemma listReports_page:
  "listReports (q\<lparr>rq_cursor := c\<rparr>) w = (Inr (cut_page rp_id (clamp (coalesce (rq_limit q) 20)) (take (clamp (coalesce (rq_limit q) 20) + 1)
     (after_cursor rp_id c (report_queue q (w_db w))))), w)"
  by (simp add: listReports_def Let_def act_simps report_queue_def report_selects_cursor)

lemma audit_selects_cursor: "audit_selects (f\<lparr>af_cursor := c, af_limit := n\<rparr>) = audit_selects f"
  by (intro ext) (simp add: audit_selects_def audit_search_def)

interpretation report_pages: cursor_pages rp_id "\<lambda>w. report_queue q (w_db w)" "\<lambda>w c. page_of (listReports (q\<lparr>rq_cursor := c\<rparr>)) w"
  "clamp (coalesce (rq_limit q) 20)" for q
  by unfold_locales (simp_all add: clamp_pos page_of_def listReports_page)

interpretation audit_pages: cursor_pages al_id "\<lambda>w. audit_queue f (w_db w)"
  "\<lambda>w c. page_of (audit_list (f\<lparr>af_cursor := c, af_limit := Suc m\<rparr>)) w" "Suc m" for f m
  by unfold_locales (simp_all add: page_of_def audit_list_def act_simps audit_queue_def audit_selects_cursor)

text \<open>C23: Following the cursor ends and misses nothing.  A moderator who follows the cursor of the report queue, or an administrator who
  follows that of the audit log, reaches the end after at most one request more than there are rows, and has
  read every selected row exactly once, in order, whatever the page size.\<close>

theorem paging_complete:
  assumes "distinct (map rp_id (reports (w_db w)))" and "[] \<notin> rp_id ` set (reports (w_db w))"
    and "distinct (map al_id (adminAuditLog (w_db w)))" and "[] \<notin> al_id ` set (adminAuditLog (w_db w))"
  shows "walk (\<lambda>c. page_of (listReports (q\<lparr>rq_cursor := c\<rparr>)) w) (Suc (length (reports (w_db w)))) None = Some (report_queue q (w_db w))
    \<and> walk (\<lambda>c. page_of (audit_list (f\<lparr>af_cursor := c, af_limit := Suc m\<rparr>)) w) (Suc (length (adminAuditLog (w_db w)))) None = Some (audit_queue f (w_db w))"
proof
  have "distinct (map rp_id (report_queue q (w_db w)))" "[] \<notin> rp_id ` set (report_queue q (w_db w))"
    using assms(1,2) by (auto simp: report_queue_def distinct_map inj_on_def)
  then show "walk (\<lambda>c. page_of (listReports (q\<lparr>rq_cursor := c\<rparr>)) w) (Suc (length (reports (w_db w)))) None = Some (report_queue q (w_db w))"
    by (rule report_pages.walk_all) (simp add: report_queue_def less_Suc_eq_le)
  have "distinct (map al_id (audit_queue f (w_db w)))" "[] \<notin> al_id ` set (audit_queue f (w_db w))"
    using assms(3,4) by (auto simp: audit_queue_def distinct_map inj_on_def rev_map)
  then show "walk (\<lambda>c. page_of (audit_list (f\<lparr>af_cursor := c, af_limit := Suc m\<rparr>)) w) (Suc (length (adminAuditLog (w_db w)))) None = Some (audit_queue f (w_db w))"
    by (rule audit_pages.walk_all) (simp add: audit_queue_def less_Suc_eq_le)
qed

section \<open>The daily limit\<close>

type_synonym report_call = "env \<times> uuid \<times> create_report_dto \<times> string option"

fun run_report :: "report_call \<Rightarrow> world \<Rightarrow> (error + report_row) \<times> world" where
  "run_report (e, u, dto, ip) w = createReport e u dto ip w"

text \<open>The number of calls of the user that succeed\<close>

fun filed :: "uuid \<Rightarrow> report_call list \<Rightarrow> world \<Rightarrow> nat" where
  "filed u [] w = 0"
| "filed u (c # cs) w = (if fst (snd c) = u \<and> \<not> isl (fst (run_report c w)) then 1 else 0) + filed u cs (snd (run_report c w))"

definition counter :: "string \<Rightarrow> world \<Rightarrow> nat" where
  "counter k w = r_counters (w_redis w) k"

definition grows :: "(string \<Rightarrow> nat) \<Rightarrow> user_row list \<Rightarrow> world \<Rightarrow> bool" where
  "grows c us w \<longleftrightarrow> (\<forall>k. c k \<le> counter k w) \<and> users (w_db w) = us"

lemma grows_refl: "grows (\<lambda>k. counter k w) (users (w_db w)) w"
  by (simp add: grows_def)

lemma grows_db [keeps_intros]: "keeps (grows c us) (dbget f)" "keeps (grows c us) (fresh e)" "keeps (grows c us) (redis_get e g)"
  "keeps (grows c us) (dbset (reports_update h))"
  by (rule keepsI; simp add: act_simps redis_get_def grows_def counter_def split: option.split)+

lemma grows_incr [keeps_intros]: "keeps (grows c us) (redis_incr e k)" "keeps (grows c us) (redis_expire e k t)"
  by (rule keepsI; auto simp: redis_incr_def redis_expire_def redis_set_def redis_get_def act_simps grows_def counter_def
        intro: le_SucI split: option.split)+

lemma grows_limits [keeps_intros]: "keeps (grows c us) (checkDailyLimit e u l)" "keeps (grows c us) (checkIpRateLimit e ip l)"
  "keeps (grows c us) (trackCollusion e m)" "keeps (grows c us) (check_limits e ru u cl)"
  unfolding checkDailyLimit_def checkIpRateLimit_def trackCollusion_def check_limits_def by (intro keeps_intros)+

lemma grows_upsert [keeps_intros]: "keeps (grows c us) (upsert_report e u dto)"
  unfolding upsert_report_def by (intro keeps_intros)

lemma grows_createReport: "keeps (grows c us) (createReport e u dto ip)"
  unfolding createReport_def catch_ignore_def by (intro keeps_intros)

text \<open>A call of an ordinary user that succeeds counted itself, and found the counter below the limit.\<close>

lemma checkDailyLimit_ok:
  assumes "checkDailyLimit e u l w = (Inr True, w')"
  shows "counter (REPORTS_DAILY_KEY u (iso_day (now e))) w' = Suc (counter (REPORTS_DAILY_KEY u (iso_day (now e))) w)
    \<and> int (Suc (counter (REPORTS_DAILY_KEY u (iso_day (now e))) w)) \<le> l"
  using assms by (auto simp: checkDailyLimit_def Let_def redis_incr_def redis_expire_def ok_simps counter_def split: if_splits)

lemma guarded_ok: "bnd m (\<lambda>a. thn (ensure a er) k) w = (Inr y, w1) \<Longrightarrow> \<exists>w0. m w = (Inr True, w0) \<and> k w0 = (Inr y, w1)"
  by (auto simp: ok_simps)

lemma check_limits_ok:
  assumes "check_limits e ru u ip w = (Inr (), w1)" and "u_role ru = USER"
  shows "\<exists>w0. checkDailyLimit e u (daily_limit e) w = (Inr True, w0) \<and> grows (\<lambda>k. counter k w0) (users (w_db w0)) w1"
proof -
  from assms(1) [unfolded check_limits_def assms(2) whenA_def, simplified if_True simp_thms, THEN guarded_ok]
  obtain w0 where d: "checkDailyLimit e u (daily_limit e) w = (Inr True, w0)"
    and ip: "(if truthy ip then bnd (checkIpRateLimit e (coalesce ip []) (ip_limit e)) (\<lambda>ipAllowed.
        ensure ipAllowed (Conflict (''Report rate limit of '' @ show_int (ip_limit e) @ ''/minute reached for this IP''))) else ret ()) w0 = (Inr (), w1)"
    by blast
  have k: "keeps (grows c us) (if truthy ip then bnd (checkIpRateLimit e (coalesce ip []) (ip_limit e)) (\<lambda>ipAllowed.
        ensure ipAllowed (Conflict (''Report rate limit of '' @ show_int (ip_limit e) @ ''/minute reached for this IP''))) else ret ())" for c us
    by (intro keeps_intros)
  have "grows (\<lambda>k. counter k w0) (users (w_db w0)) w1" by (rule keeps_result [OF k grows_refl ip])
  with d show ?thesis by blast
qed

lemma createReport_counts:
  assumes "createReport e u dto ip w = (Inr r, w')" and "find_user (w_db w) u = Some ru" and "u_role ru = USER"
  shows "Suc (counter (REPORTS_DAILY_KEY u (iso_day (now e))) w) \<le> counter (REPORTS_DAILY_KEY u (iso_day (now e))) w'
    \<and> int (Suc (counter (REPORTS_DAILY_KEY u (iso_day (now e))) w)) \<le> daily_limit e"
proof -
  let ?k = "REPORTS_DAILY_KEY u (iso_day (now e))"
  obtain w1 w2 where cl: "check_limits e ru u ip w = (Inr (), w1)" and up: "upsert_report e u dto w1 = (Inr r, w2)"
    and tr: "whenA (rp_createdAt r = rp_updatedAt r) (catch_ignore (trackCollusion e (cr_messageId dto))) w2 = (Inr (), w')"
    using assms(1,2) by (auto simp: createReport_def ok_simps split: option.splits)
  from check_limits_ok [OF cl assms(3)] obtain w0 where d: "checkDailyLimit e u (daily_limit e) w = (Inr True, w0)"
    and "grows (\<lambda>k. counter k w0) (users (w_db w0)) w1" by blast
  from this(2) have "grows (\<lambda>k. counter k w0) (users (w_db w0)) w2" by (rule keeps_result [OF grows_upsert _ up])
  moreover have "keeps (grows c us) (whenA (rp_createdAt r = rp_updatedAt r) (catch_ignore (trackCollusion e (cr_messageId dto))))" for c us
    unfolding catch_ignore_def by (intro keeps_intros)
  ultimately have "grows (\<lambda>k. counter k w0) (users (w_db w0)) w'" using tr keeps_result by metis
  then show ?thesis using checkDailyLimit_ok [OF d] by (auto simp: grows_def dest: spec [of _ ?k])
qed

lemma run_report_grows: "grows (\<lambda>k. counter k w) (users (w_db w)) (snd (run_report c w))"
  by (cases c) (auto intro: keepsD [OF grows_createReport grows_refl])

text \<open>C21: The daily limit holds.  However many reports are filed on one day and by whomever, of those of one ordinary user at most
  as many succeed as the limit allows.\<close>

theorem daily_report_limit:
  assumes "find_user (w_db w) u = Some ru" and "u_role ru = USER"
    and "\<forall>(e, v, dto, ip)\<in>set cs. iso_day (now e) = day \<and> daily_limit e \<le> L" and "0 \<le> L"
  shows "int (filed u cs w) \<le> L"
proof -
  let ?k = "REPORTS_DAILY_KEY u day"
  have "filed u cs w = 0 \<or> int (counter ?k w + filed u cs w) \<le> L"
    using assms(1,3)
  proof (induction cs arbitrary: w)
    case (Cons c cs)
    obtain e v dto ip where c: "c = (e, v, dto, ip)" by (cases c)
    let ?w = "snd (run_report c w)"
    have g: "counter ?k w \<le> counter ?k ?w" "users (w_db ?w) = users (w_db w)" using run_report_grows [of w c] by (simp_all add: grows_def)
    have u: "find_user (w_db ?w) u = Some ru" using Cons.prems(1) g(2) by (simp add: find_user_def)
    have IH: "filed u cs ?w = 0 \<or> int (counter ?k ?w + filed u cs ?w) \<le> L" using Cons.IH [OF u] Cons.prems(2) by simp
    show ?case
    proof (cases "v = u \<and> \<not> isl (fst (run_report c w))")
      case True
      then obtain r where run: "createReport e u dto ip w = (Inr r, ?w)" by (cases "createReport e u dto ip w"; cases "fst (createReport e u dto ip w)") (auto simp: c)
      have "iso_day (now e) = day" "daily_limit e \<le> L" using Cons.prems(2) by (auto simp: c)
      with createReport_counts [OF run Cons.prems(1) assms(2)] have "Suc (counter ?k w) \<le> counter ?k ?w" "int (Suc (counter ?k w)) \<le> L" by auto
      then show ?thesis using True IH by (auto simp: c)
    qed (use IH g(1) in \<open>auto simp: c\<close>)
  qed simp
  then show ?thesis using assms(4) by auto
qed

section \<open>Runs of the example deployment\<close>

text \<open>Bob reports the message that Ann sent him, twice, with a limit of one.\<close>

definition demo_limit_env :: env where
  "demo_limit_env = demo_env\<lparr>cfg := default_config\<lparr>REPORTS_DAILY_LIMIT := Some 1\<rparr>\<rparr>"

definition demo_report_call :: report_call where
  "demo_report_call = (demo_limit_env, ''bob'', \<lparr>cr_messageId = ''i1'', cr_reason = SPAM, cr_freeText = None\<rparr>, None)"

theorem daily_report_limit_witness: "filed ''bob'' [demo_report_call, demo_report_call] demo_mod_world = 1"
proof -
  have u: "find_user (w_db demo_mod_world) ''bob'' = Some (demo_user ''bob'' USER)"
    by (simp add: find_user_def demo_mod_world_def demo_db_def demo_user_def)
  have calls: "\<forall>(e, v, dto, ip)\<in>set [demo_report_call, demo_report_call]. iso_day (now e) = iso_day 1000000 \<and> daily_limit e \<le> 1"
    by (simp add: demo_report_call_def demo_limit_env_def demo_env_def daily_limit_def)
  have "u_role (demo_user ''bob'' USER) = USER" by (simp add: demo_user_def)
  from daily_report_limit [OF u this calls] have "int (filed ''bob'' [demo_report_call, demo_report_call] demo_mod_world) \<le> 1" by simp
  moreover have "0 < filed ''bob'' [demo_report_call, demo_report_call] demo_mod_world" by code_simp
  ultimately show ?thesis by linarith
qed

definition demo_query :: reports_query where
  "demo_query = \<lparr>rq_status = None, rq_reason = None, rq_cursor = None, rq_limit = Some 1\<rparr>"

definition demo_audit_filter :: audit_filter where
  "demo_audit_filter = \<lparr>af_action = None, af_targetType = None, af_actorUserId = None, af_targetId = None, af_from = None, af_to = None,
     af_searchText = None, af_cursor = None, af_limit = 1\<rparr>"

definition demo_paging_world :: world where
  "demo_paging_world = demo_world\<lparr>w_db := demo_db\<lparr>reports := map (\<lambda>(i, u). new_report demo_env i u
     \<lparr>cr_messageId = ''m'', cr_reason = SPAM, cr_freeText = None\<rparr>) [(''r1'', ''ann''), (''r2'', ''bob''), (''r3'', ''eve'')]\<rparr>\<rparr>"

theorem paging_complete_witness:
  "walk (\<lambda>c. page_of (listReports (demo_query\<lparr>rq_cursor := c\<rparr>)) demo_paging_world) (Suc (length (reports (w_db demo_paging_world)))) None
     = Some (report_queue demo_query (w_db demo_paging_world))
   \<and> map rp_id (report_queue demo_query (w_db demo_paging_world)) = [''r1'', ''r2'', ''r3'']"
proof
  have "distinct (map rp_id (reports (w_db demo_paging_world)))" "[] \<notin> rp_id ` set (reports (w_db demo_paging_world))"
    "distinct (map al_id (adminAuditLog (w_db demo_paging_world)))" "[] \<notin> al_id ` set (adminAuditLog (w_db demo_paging_world))"
    by code_simp+
  from paging_complete [OF this, where q = demo_query and f = demo_audit_filter and m = 0]
  show "walk (\<lambda>c. page_of (listReports (demo_query\<lparr>rq_cursor := c\<rparr>)) demo_paging_world) (Suc (length (reports (w_db demo_paging_world)))) None
     = Some (report_queue demo_query (w_db demo_paging_world))" by simp
  show "map rp_id (report_queue demo_query (w_db demo_paging_world)) = [''r1'', ''r2'', ''r3'']" by code_simp
qed

end
