(* ===== verification/Metrics.thy ===== *)
theory Metrics
  imports Moderation
begin

text \<open>
  The daily figures of the dashboard: \<open>src/moderation/services/daily-metrics-rollup.service.ts\<close> counts what
  happened on one day of universal time and stores seven rows, and \<open>src/moderation/services/analytics.service.ts\<close> reads
  them back as a time series.  The rows are found again under a compound key whose last column is null;
  how the database client treats a null in such a key is not fixed by the repository and is an
  argument: it rejects the call, it finds the row, or it never finds one.
\<close>

section \<open>\<open>DailyMetricsRollupService\<close>\<close>

definition utcDayStart :: "time \<Rightarrow> time" where
  "utcDayStart t = t - t mod 86400000"

definition metric_addDays :: "time \<Rightarrow> int \<Rightarrow> time" where
  "metric_addDays t n = t + n * 24 * 60 * 60 * 1000"

definition subDays :: "time \<Rightarrow> int \<Rightarrow> time" where
  "subDays t n = metric_addDays t (- n)"

definition toDateKey :: "time \<Rightarrow> string" where
  "toDateKey t = (case civil (t div 86400000) of (y, mo, d) \<Rightarrow>
     padStart0 4 (show_int y) @ ''-'' @ padStart0 2 (show_int mo) @ ''-'' @ padStart0 2 (show_int d))"

definition in_day :: "time \<Rightarrow> time \<Rightarrow> time \<Rightarrow> bool" where
  "in_day dayStart dayEnd t \<longleftrightarrow> dayStart \<le> t \<and> t < dayEnd"

definition day_messages :: "time \<Rightarrow> time \<Rightarrow> db \<Rightarrow> message_row list" where
  "day_messages dayStart dayEnd d = filter (\<lambda>m. in_day dayStart dayEnd (m_createdAt m) \<and> m_deletedAt m = None) (messages d)"

definition messagesByChannel :: "time \<Rightarrow> time \<Rightarrow> db \<Rightarrow> (uuid option \<times> nat) list" where
  "messagesByChannel dayStart dayEnd d = (let ms = day_messages dayStart dayEnd d in
     map (\<lambda>g. (g, count_where (\<lambda>m. m_groupId m = g) ms)) (remdups (map m_groupId ms)))"

definition rollup_rows :: "time \<Rightarrow> time \<Rightarrow> db \<Rightarrow> (DailyMetricKind \<times> int) list" where
  "rollup_rows dayStart dayEnd d = (let byChannel = messagesByChannel dayStart dayEnd d in
     [(MESSAGES_SENT_DIRECT, int (sum_list (map snd (filter (\<lambda>(g, n). g = None) byChannel)))),
      (MESSAGES_SENT_GROUP, int (sum_list (map snd (filter (\<lambda>(g, n). g \<noteq> None) byChannel)))),
      (DAU, int (length (remdups (map m_senderUserId (day_messages dayStart dayEnd d))))),
      (NEW_USERS, int (count_where (\<lambda>u. in_day dayStart dayEnd (u_createdAt u)) (users d))),
      (REPORTS_OPENED, int (count_where (\<lambda>r. in_day dayStart dayEnd (rp_createdAt r)) (reports d))),
      (REPORTS_RESOLVED, int (count_where (\<lambda>r. case rp_reviewedAt r of None \<Rightarrow> False | Some t \<Rightarrow> in_day dayStart dayEnd t) (reports d))),
      (USERS_SUSPENDED, int (count_where (\<lambda>s. in_day dayStart dayEnd (su_suspendedAt s)) (userSuspensions d)))])"

text \<open>What a lookup by a key with a null column does: the client refuses it with a message, or it finds the row, or it
  never finds one.\<close>

type_synonym null_lookup = "string + bool"

definition metric_at :: "time \<Rightarrow> DailyMetricKind \<Rightarrow> metric_row \<Rightarrow> bool" where
  "metric_at date kind x \<longleftrightarrow> dm_date x = date \<and> dm_kind x = kind \<and> dm_dimension x = None"

definition create_metric :: "env \<Rightarrow> time \<Rightarrow> DailyMetricKind \<Rightarrow> int \<Rightarrow> unit svc" where
  "create_metric e date kind v = bnd (fresh e) (\<lambda>i. bnd (dbget id) (\<lambda>d.
     thn (ensure (\<not> exists_where (\<lambda>x. dm_id x = i) (dailyMetrics d)) (PrismaError ''P2002''))
         (dbset (dailyMetrics_update (\<lambda>xs. xs @ [\<lparr>dm_id = i, dm_date = date, dm_kind = kind, dm_dimension = None, dm_value = v\<rparr>])))))"

definition upsert_metric :: "env \<Rightarrow> null_lookup \<Rightarrow> time \<Rightarrow> DailyMetricKind \<times> int \<Rightarrow> unit svc" where
  "upsert_metric e nl date row = (case (row, nl) of
     (_, Inl msg) \<Rightarrow> throw (OtherError msg)
   | ((kind, v), Inr finds) \<Rightarrow> bnd (dbget (\<lambda>d. finds \<and> exists_where (metric_at date kind) (dailyMetrics d))) (\<lambda>found.
       if found then dbset (dailyMetrics_update (update_where (metric_at date kind) (\<lambda>x. x\<lparr>dm_value := v\<rparr>)))
       else create_metric e date kind v))"

definition rollupDay :: "env \<Rightarrow> null_lookup \<Rightarrow> time \<Rightarrow> (string \<times> nat) svc" where
  "rollupDay e nl date = (let dayStart = utcDayStart date; dayEnd = metric_addDays dayStart 1 in
     bnd (dbget (rollup_rows dayStart dayEnd)) (\<lambda>rows.
     thn (tx (for_each rows (upsert_metric e nl dayStart)))
         (ret (toDateKey dayStart, length rows))))"

definition rollupYesterday :: "env \<Rightarrow> null_lookup \<Rightarrow> unit svc" where
  "rollupYesterday e nl = bnd (rollupDay e nl (utcDayStart (subDays (now e) 1))) (\<lambda>_. ret ())"

section \<open>\<open>AnalyticsService\<close>\<close>

record analytics_query =
  aq_kind :: DailyMetricKind
  aq_from :: "time option"
  aq_to :: "time option"
  aq_dimension :: "string option"
  aq_days :: "int option"

record metric_series =
  ms_kind :: DailyMetricKind
  ms_dimension :: "string option"
  ms_from :: string
  ms_to :: string
  ms_series :: "(string \<times> int) list"

definition series :: "env \<Rightarrow> analytics_query \<Rightarrow> metric_series svc" where
  "series e q =
     (let days = coalesce (aq_days q) 30;
          upto = coalesce (aq_to q) (now e);
          start = coalesce (aq_from q) (upto - (days - 1) * 24 * 60 * 60 * 1000);
          fromDate = utcDayStart start;
          toDate = utcDayStart upto in
      dbget (\<lambda>d. \<lparr>ms_kind = aq_kind q, ms_dimension = aq_dimension q, ms_from = toDateKey fromDate, ms_to = toDateKey toDate,
        ms_series = map (\<lambda>x. (toDateKey (dm_date x), dm_value x))
          (order_asc dm_date (filter (\<lambda>x. dm_kind x = aq_kind q \<and> fromDate \<le> dm_date x \<and> dm_date x \<le> toDate
             \<and> (aq_dimension q = None \<or> dm_dimension x = aq_dimension q)) (dailyMetrics d)))\<rparr>))"

section \<open>What the figures count\<close>

text \<open>The figures by their meaning: the live messages of the day outside and inside groups, their distinct senders, the
  accounts created, the reports filed and reviewed, and the suspensions.\<close>

fun figure :: "DailyMetricKind \<Rightarrow> time \<Rightarrow> time \<Rightarrow> db \<Rightarrow> int" where
  "figure MESSAGES_SENT_DIRECT a b d = int (count_where (\<lambda>m. in_day a b (m_createdAt m) \<and> m_deletedAt m = None \<and> m_groupId m = None) (messages d))"
| "figure MESSAGES_SENT_GROUP a b d = int (count_where (\<lambda>m. in_day a b (m_createdAt m) \<and> m_deletedAt m = None \<and> m_groupId m \<noteq> None) (messages d))"
| "figure DAU a b d = int (card {m_senderUserId m | m. m \<in> set (messages d) \<and> in_day a b (m_createdAt m) \<and> m_deletedAt m = None})"
| "figure NEW_USERS a b d = int (count_where (\<lambda>u. in_day a b (u_createdAt u)) (users d))"
| "figure REPORTS_OPENED a b d = int (count_where (\<lambda>r. in_day a b (rp_createdAt r)) (reports d))"
| "figure REPORTS_RESOLVED a b d = int (count_where (\<lambda>r. \<exists>t. rp_reviewedAt r = Some t \<and> in_day a b t) (reports d))"
| "figure USERS_SUSPENDED a b d = int (count_where (\<lambda>s. in_day a b (su_suspendedAt s)) (userSuspensions d))"

lemma sum_count_keys: "finite K \<Longrightarrow> (\<Sum>g\<in>K. count_where (\<lambda>x. key x = g) xs) = count_where (\<lambda>x. key x \<in> K) xs"
proof (induction xs)
  case (Cons a xs)
  have "(\<Sum>g\<in>K. count_where (\<lambda>x. key x = g) (a # xs)) = (\<Sum>g\<in>K. (if key a = g then 1 else 0) + count_where (\<lambda>x. key x = g) xs)"
    by (rule sum.cong) (simp_all add: count_where_Cons)
  with Cons show ?case by (simp add: sum.distrib count_where_Cons)
qed simp

lemma sum_by_key:
  "sum_list (map snd (filter (\<lambda>(g, n). p g) (map (\<lambda>g. (g, count_where (\<lambda>x. key x = g) xs)) (remdups (map key xs)))))
   = count_where (\<lambda>x. p (key x)) xs"
proof -
  have "sum_list (map snd (filter (\<lambda>(g, n). p g) (map (\<lambda>g. (g, count_where (\<lambda>x. key x = g) xs)) (remdups (map key xs)))))
      = sum_list (map (\<lambda>g. count_where (\<lambda>x. key x = g) xs) (filter p (remdups (map key xs))))"
    by (simp add: filter_map comp_def)
  also have "\<dots> = (\<Sum>g\<in>set (filter p (remdups (map key xs))). count_where (\<lambda>x. key x = g) xs)"
    by (rule sum_list_distinct_conv_sum_set) simp
  also have "\<dots> = count_where (\<lambda>x. key x \<in> set (filter p (remdups (map key xs)))) xs" by (rule sum_count_keys) simp
  also have "\<dots> = count_where (\<lambda>x. p (key x)) xs"
    unfolding count_where_def by (rule arg_cong [where f = length], rule filter_cong) auto
  finally show ?thesis .
qed

lemma count_day_messages:
  "count_where q (day_messages a b d) = count_where (\<lambda>m. in_day a b (m_createdAt m) \<and> m_deletedAt m = None \<and> q m) (messages d)"
  by (simp add: count_where_def day_messages_def conj_commute conj_left_commute)

lemma day_senders:
  "length (remdups (map m_senderUserId (day_messages a b d)))
   = card {m_senderUserId m | m. m \<in> set (messages d) \<and> in_day a b (m_createdAt m) \<and> m_deletedAt m = None}"
proof -
  have "set (map m_senderUserId (day_messages a b d)) = {m_senderUserId m | m. m \<in> set (messages d) \<and> in_day a b (m_createdAt m) \<and> m_deletedAt m = None}"
    by (auto simp: day_messages_def)
  then show ?thesis by (simp only: length_remdups_card_conv)
qed

lemma channel_sum:
  "sum_list (map snd (filter (\<lambda>(g, n). p g) (messagesByChannel a b d)))
   = count_where (\<lambda>m. in_day a b (m_createdAt m) \<and> m_deletedAt m = None \<and> p (m_groupId m)) (messages d)"
  using sum_by_key [of p m_groupId "day_messages a b d"] unfolding messagesByChannel_def Let_def by (simp only: count_day_messages [symmetric])

lemma reviewed_in: "(case x of None \<Rightarrow> False | Some t \<Rightarrow> q t) \<longleftrightarrow> (\<exists>t. x = Some t \<and> q t)"
  by (cases x) auto

lemma rollup_rows_figure: "map_of (rollup_rows a b d) k = Some (figure k a b d)"
  by (cases k) (simp_all only: rollup_rows_def Let_def channel_sum day_senders reviewed_in figure.simps map_of.simps fun_upd_apply fst_conv snd_conv
      DailyMetricKind.distinct if_True if_False refl)

lemma rollup_rows_kinds: "distinct (map fst (rollup_rows a b d))"
  by (simp add: rollup_rows_def Let_def)

section \<open>The table of figures as a map\<close>

definition metric_map :: "metric_row list \<Rightarrow> time \<times> DailyMetricKind \<rightharpoonup> int" where
  "metric_map xs = map_of (map (\<lambda>x. ((dm_date x, dm_kind x), dm_value x)) xs)"

definition metric_inv :: "metric_row list \<Rightarrow> bool" where
  "metric_inv xs \<longleftrightarrow> distinct (map (\<lambda>x. (dm_date x, dm_kind x)) xs) \<and> (\<forall>x\<in>set xs. dm_dimension x = None)"

lemma metric_map_point:
  "\<forall>x\<in>set xs. dm_dimension x = None \<Longrightarrow>
   metric_map (update_where (metric_at date k) (\<lambda>x. x\<lparr>dm_value := v\<rparr>) xs) p = (if p = (date, k) \<and> metric_map xs p \<noteq> None then Some v else metric_map xs p)"
  by (induction xs) (auto simp: metric_map_def metric_at_def)

lemma metric_map_absent:
  "\<forall>x\<in>set xs. dm_dimension x = None \<Longrightarrow> \<not> exists_where (metric_at date k) xs \<longleftrightarrow> metric_map xs (date, k) = None"
  by (auto simp: metric_map_def metric_at_def map_of_eq_None_iff image_iff)

lemma metric_map_update:
  assumes "\<forall>x\<in>set xs. dm_dimension x = None" and "exists_where (metric_at date k) xs"
  shows "metric_map (update_where (metric_at date k) (\<lambda>x. x\<lparr>dm_value := v\<rparr>) xs) = (metric_map xs)((date, k) \<mapsto> v)"
proof
  fix p show "metric_map (update_where (metric_at date k) (\<lambda>x. x\<lparr>dm_value := v\<rparr>) xs) p = ((metric_map xs)((date, k) \<mapsto> v)) p"
    using metric_map_point [OF assms(1), of date k v p] metric_map_absent [OF assms(1), of date k] assms(2) by auto
qed

lemma metric_map_append:
  "metric_map xs (date, k) = None \<Longrightarrow>
   metric_map (xs @ [\<lparr>dm_id = i, dm_date = date, dm_kind = k, dm_dimension = None, dm_value = v\<rparr>]) = (metric_map xs)((date, k) \<mapsto> v)"
  by (auto simp: metric_map_def fun_eq_iff map_add_def split: option.splits)

text \<open>Where a lookup with a null finds the row, storing a figure is the update of the map at one point.\<close>

lemma upsert_metric_refines:
  assumes "upsert_metric e (Inr True) date (k, v) w = (Inr u, w')" and "metric_inv (dailyMetrics (w_db w))"
  shows "metric_map (dailyMetrics (w_db w')) = (metric_map (dailyMetrics (w_db w)))((date, k) \<mapsto> v) \<and> metric_inv (dailyMetrics (w_db w'))"
proof (cases "exists_where (metric_at date k) (dailyMetrics (w_db w))")
  case True
  then have w': "w' = w\<lparr>w_db := dailyMetrics_update (update_where (metric_at date k) (\<lambda>x. x\<lparr>dm_value := v\<rparr>)) (w_db w)\<rparr>"
    using assms(1) by (simp add: upsert_metric_def act_simps)
  with True assms(2) metric_map_update [of "dailyMetrics (w_db w)"] show ?thesis
    by (auto simp: metric_inv_def map_update_where elim!: in_update_whereE)
next
  case False
  then obtain i where w': "dailyMetrics (w_db w') = dailyMetrics (w_db w) @ [\<lparr>dm_id = i, dm_date = date, dm_kind = k, dm_dimension = None, dm_value = v\<rparr>]"
    using assms(1) by (auto simp: upsert_metric_def create_metric_def ok_simps)
  have absent: "metric_map (dailyMetrics (w_db w)) (date, k) = None"
    using False assms(2) metric_map_absent by (auto simp: metric_inv_def)
  then have "(date, k) \<notin> set (map (\<lambda>x. (dm_date x, dm_kind x)) (dailyMetrics (w_db w)))"
    by (auto simp: metric_map_def map_of_eq_None_iff image_iff)
  with w' assms(2) metric_map_append [OF absent] show ?thesis by (auto simp: metric_inv_def)
qed

lemma rollup_loop:
  assumes "for_each rows (upsert_metric e (Inr True) date) w = (Inr u, w')" and "metric_inv (dailyMetrics (w_db w))"
    and "distinct (map fst rows)"
  shows "metric_inv (dailyMetrics (w_db w'))
    \<and> (\<forall>dt k. metric_map (dailyMetrics (w_db w')) (dt, k) = (if dt = date \<and> map_of rows k \<noteq> None then map_of rows k else metric_map (dailyMetrics (w_db w)) (dt, k)))"
  using assms
proof (induction rows arbitrary: w)
  case (Cons r rows)
  obtain k v where r: "r = (k, v)" by fastforce
  from Cons.prems(1) obtain u1 w1 where w1: "upsert_metric e (Inr True) date (k, v) w = (Inr u1, w1)"
    and rest: "for_each rows (upsert_metric e (Inr True) date) w1 = (Inr u, w')" by (auto simp: r ok_simps)
  note up = upsert_metric_refines [OF w1 Cons.prems(2)]
  have "map_of rows k = None" using Cons.prems(3) by (simp add: r map_of_eq_None_iff)
  with Cons.IH [OF rest] up Cons.prems(3) show ?case by (auto simp: r)
qed (simp add: act_simps)

lemma filter_unique_key:
  "distinct (map key xs) \<Longrightarrow> x \<in> set xs \<Longrightarrow> filter (\<lambda>y. key y = key x) xs = [x]"
  by (induction xs) (auto simp: filter_empty_conv image_iff)

lemma series_of_day:
  assumes "metric_inv (dailyMetrics (w_db w))" and "metric_map (dailyMetrics (w_db w)) (utcDayStart t, k) = Some v"
  shows "series e \<lparr>aq_kind = k, aq_from = Some t, aq_to = Some t, aq_dimension = None, aq_days = n\<rparr> w
    = (Inr \<lparr>ms_kind = k, ms_dimension = None, ms_from = toDateKey (utcDayStart t), ms_to = toDateKey (utcDayStart t),
        ms_series = [(toDateKey (utcDayStart t), v)]\<rparr>, w)"
proof -
  from assms(2) obtain x where x: "x \<in> set (dailyMetrics (w_db w))" "dm_date x = utcDayStart t" "dm_kind x = k" "dm_value x = v"
    by (auto simp: metric_map_def dest!: map_of_SomeD)
  have "filter (\<lambda>y. dm_kind y = k \<and> utcDayStart t \<le> dm_date y \<and> dm_date y \<le> utcDayStart t) (dailyMetrics (w_db w))
      = filter (\<lambda>y. (dm_date y, dm_kind y) = (dm_date x, dm_kind x)) (dailyMetrics (w_db w))"
    by (rule filter_cong) (use x in auto)
  also have "\<dots> = [x]" using filter_unique_key [of "\<lambda>x. (dm_date x, dm_kind x)", OF _ x(1)] assms(1) by (simp only: metric_inv_def)
  finally have "filter (\<lambda>y. dm_kind y = k \<and> utcDayStart t \<le> dm_date y \<and> dm_date y \<le> utcDayStart t) (dailyMetrics (w_db w)) = [x]" .
  then show ?thesis using x by (simp add: series_def act_simps order_asc_def Let_def)
qed


text \<open>Where the client refuses a null in the key, the job always fails and stores nothing; where a lookup with a null finds
  nothing, counting a day again adds seven more rows.\<close>

lemma rollup_refused: "rollupDay e (Inl msg) t w = (Inl (OtherError msg), w)"
  by (simp add: rollupDay_def Let_def rollup_rows_def upsert_metric_def act_simps tx_def rollback_def)

lemma rollup_duplicates:
  assumes "rollupDay e (Inr False) t w = (Inr r, w')"
  shows "length (dailyMetrics (w_db w')) = length (dailyMetrics (w_db w)) + 7"
proof -
  have grow: "length (dailyMetrics (w_db v')) = Suc (length (dailyMetrics (w_db v)))"
    if "upsert_metric e (Inr False) dt x v = (Inr y, v')" for dt x v y v'
    using that by (cases x) (auto simp: upsert_metric_def create_metric_def ok_simps)
  have loop: "for_each rows (upsert_metric e (Inr False) dt) v = (Inr y, v') \<Longrightarrow> length (dailyMetrics (w_db v')) = length (dailyMetrics (w_db v)) + length rows" for rows dt v y v'
    by (induction rows arbitrary: v) (fastforce simp: ok_simps dest: grow)+
  show ?thesis using assms loop [of "rollup_rows (utcDayStart t) (metric_addDays (utcDayStart t) 1) (w_db w)"]
    by (auto simp: rollupDay_def Let_def ok_simps) (simp add: rollup_rows_def Let_def)
qed

section \<open>A run of the example deployment\<close>


end
