(* ===== verification/Routes.thy ===== *)
theory Routes
  imports Messages_Ops Suspensions Reactions Keys Storage_Api Telegram Http_Edge Report_Flow Metrics
begin

text \<open>
  The HTTP interface: for every controller of \<open>src\<close> the requests it accepts, after validation of their bodies, and the call
  of a service that each of them is, behind the guards that the controller declares.  A route is modelled up to its
  answer, which is the answer of the service: what remains is the effect on the world, or the error.  The code outside the repository
  that the services rely on is collected in one record.
\<close>

record outside =
  o_r2 :: r2_client
  o_del :: r2_delete
  o_tg :: tg_bot
  o_null :: null_lookup
  o_rnd :: nat
  o_verify :: "string \<Rightarrow> (uuid \<times> uuid) option"

text \<open>A call whose answer is the body of the response\<close>

definition call :: "'a svc \<Rightarrow> unit svc" where
  "call m = bnd m (\<lambda>_. ret ())"

section \<open>Conversations\<close>

datatype messages_request =
    PostMessage send_dto
  | PostForward forward_dto
  | GetPending uuid "int option" nat
  | GetUnreadCounts
  | PostMarkAllRead uuid uuid ThreadType
  | PostAck uuid uuid AckStatus
  | DeleteMessage uuid uuid DeleteScope
  | PatchMessage uuid edit_dto
  | GetSync uuid "time option" nat

fun messages_route :: "env \<Rightarrow> uuid \<Rightarrow> messages_request \<Rightarrow> unit svc" where
  "messages_route e u (PostMessage dto) = call (send e u dto)"
| "messages_route e u (PostForward dto) = call (forward e u dto)"
| "messages_route e u (GetPending dv after limit) = call (getPending u dv after limit)"
| "messages_route e u GetUnreadCounts = call (getCounts u)"
| "messages_route e u (PostMarkAllRead dv t ty) = call (markAllReadMessages e u dv t ty)"
| "messages_route e u (PostAck mid dv st) = call (ack e u mid dv st)"
| "messages_route e u (DeleteMessage mid dv sc) = call (delete e u mid dv sc)"
| "messages_route e u (PatchMessage mid dto) = call (edit e u mid dto)"
| "messages_route e u (GetSync dv since limit) = call (sync e u dv since limit)"

datatype groups_request =
    GetGroups
  | GetGroup uuid
  | GetGroupMessages uuid history_opts
  | PostGroup create_group_dto
  | PatchGroup uuid json
  | PostMembers uuid "uuid list"
  | DeleteMember uuid uuid
  | PostEnvelopes uuid send_group_dto
  | PatchGroupMessage uuid uuid edit_group_dto

fun groups_route :: "env \<Rightarrow> uuid \<Rightarrow> groups_request \<Rightarrow> unit svc" where
  "groups_route e u GetGroups = call (findGroupsByUser u)"
| "groups_route e u (GetGroup g) = call (findByIdWithMembers g u)"
| "groups_route e u (GetGroupMessages g q) = call (getGroupMessages g u q)"
| "groups_route e u (PostGroup dto) = call (createGroup e u dto)"
| "groups_route e u (PatchGroup g md) = call (updateGroupMetadata e u g md)"
| "groups_route e u (PostMembers g ms) = call (addMembers e u g ms)"
| "groups_route e u (DeleteMember g t) = call (removeMember e u g t)"
| "groups_route e u (PostEnvelopes g dto) = call (queueGroupMessage e u g dto)"
| "groups_route e u (PatchGroupMessage g mid dto) = call (editGroupMessage e u g mid dto)"

datatype threads_request = GetThreads | GetThread uuid | GetThreadMessages uuid history_opts

fun threads_route :: "uuid \<Rightarrow> threads_request \<Rightarrow> unit svc" where
  "threads_route u GetThreads = call (findByUserWithDetails u)"
| "threads_route u (GetThread t) = call (findByIdWithDetails t u)"
| "threads_route u (GetThreadMessages t q) = call (getThreadMessages t u q)"

datatype reactions_request = PostReaction uuid string | DeleteReaction uuid | GetReactions uuid

fun reactions_route :: "env \<Rightarrow> uuid \<Rightarrow> reactions_request \<Rightarrow> unit svc" where
  "reactions_route e u (PostReaction mid emoji) = call (toggle e u mid emoji)"
| "reactions_route e u (DeleteReaction mid) = call (removeReaction e u mid)"
| "reactions_route e u (GetReactions mid) = call (getAggregated e u mid)"

datatype media_request = PostMediaInit init_media_dto | PostMediaComplete uuid int | GetMediaUrl uuid

fun media_route :: "env \<Rightarrow> r2_client \<Rightarrow> uuid \<Rightarrow> media_request \<Rightarrow> unit svc" where
  "media_route e c u (PostMediaInit dto) = call (initUpload e c u dto)"
| "media_route e c u (PostMediaComplete i n) = call (completeUpload e c u i n)"
| "media_route e c u (GetMediaUrl i) = call (getDownloadUrl e c u i)"

section \<open>Accounts, devices and keys\<close>

datatype devices_request =
    PostDevice register_dto | GetDevices | DeleteDevice uuid

fun devices_route :: "env \<Rightarrow> uuid \<Rightarrow> devices_request \<Rightarrow> unit svc" where
  "devices_route e u (PostDevice dto) = call (registerDevice e u dto)"
| "devices_route e u GetDevices = call (listDevices u)"
| "devices_route e u (DeleteDevice dv) = call (deactivate u dv)"

datatype prekeys_request = GetPrekeyCount uuid | PostPrekeys uuid "prekey_dto list" | PutSignedPrekey uuid signed_dto

fun prekeys_route :: "env \<Rightarrow> uuid \<Rightarrow> prekeys_request \<Rightarrow> unit svc" where
  "prekeys_route e u (GetPrekeyCount dv) = call (getCount u dv)"
| "prekeys_route e u (PostPrekeys dv ps) = call (refill e u dv ps)"
| "prekeys_route e u (PutSignedPrekey dv dto) = call (rotateSignedPrekey e u dv dto)"

datatype users_request =
    GetKeyBundles uuid | PostContacts "string list option" "string list option" | PatchProfile profile_dto | GetMe | SearchUsers string

fun users_route :: "env \<Rightarrow> uuid \<Rightarrow> users_request \<Rightarrow> unit svc" where
  "users_route e u (GetKeyBundles v) = call (getDeviceKeyBundles e v)"
| "users_route e u (PostContacts hs ps) = call (syncContacts e (coalesce hs []) (coalesce ps []))"
| "users_route e u (PatchProfile dto) = call (updateProfile e u dto)"
| "users_route e u GetMe = call (getMe u)"
| "users_route e u (SearchUsers n) = call (searchByUsername n (Some u))"

datatype backups_request = PostUploadUrl int | PutBackup put_backup_dto | GetBackup | GetBackupMetadata

fun backups_route :: "env \<Rightarrow> r2_client \<Rightarrow> uuid \<Rightarrow> backups_request \<Rightarrow> unit svc" where
  "backups_route e c u (PostUploadUrl n) = call (getBackupUploadUrl c u n)"
| "backups_route e c u (PutBackup dto) = call (putCurrent e c u dto)"
| "backups_route e c u GetBackup = call (getCurrent c u)"
| "backups_route e c u GetBackupMetadata = call (getMetadata u)"

datatype storage_request = PostPresigned string string int upload_purpose | GetObject string | DeleteObject string

fun storage_route :: "outside \<Rightarrow> uuid \<Rightarrow> storage_request \<Rightarrow> unit svc" where
  "storage_route o' u (PostPresigned f mime n p) = call (getPresignedUploadUrl (o_r2 o') u f mime n p)"
| "storage_route o' u (GetObject k) = call (getObjectUrl (o_r2 o') u k)"
| "storage_route o' u (DeleteObject k) = call (deleteStoredObject (o_del o') u k)"

datatype auth_request =
    PostOtpRequest string
  | PostOtpVerify string string session_meta
  | PostRefresh string session_meta

fun auth_route :: "env \<Rightarrow> nat \<Rightarrow> auth_request \<Rightarrow> unit svc" where
  "auth_route e rnd (PostOtpRequest phone) = call (requestLoginOtp e rnd phone)"
| "auth_route e rnd (PostOtpVerify phone code meta) = call (verifyLoginOtp e phone code meta)"
| "auth_route e rnd (PostRefresh tok meta) = call (refresh e tok meta)"

definition logout_route :: "env \<Rightarrow> auth_user \<Rightarrow> string option \<Rightarrow> uuid option \<Rightarrow> unit svc" where
  "logout_route e user tok dv = logout e user tok dv"

definition realtime_route :: "env \<Rightarrow> auth_user \<Rightarrow> uuid \<Rightarrow> unit svc" where
  "realtime_route e user dv = call (createSocketTicket e user dv)"

section \<open>Reports and moderation\<close>

definition extractIp :: "string option \<Rightarrow> string option" where
  "extractIp ip = (if ip = None \<or> ip = Some [] then None else ip)"

datatype reports_request = PostReport create_report_dto "string option" | GetMyReports "int option"

fun reports_route :: "env \<Rightarrow> uuid \<Rightarrow> reports_request \<Rightarrow> unit svc" where
  "reports_route e u (PostReport dto ip) = call (createReport e u dto (extractIp ip))"
| "reports_route e u (GetMyReports limit) = call (listMine u (coalesce limit 20))"

record audit_query =
  aqy_filter :: audit_filter
  aqy_limit :: "nat option"

datatype admin_request =
    AdminMe
  | ListReports reports_query
  | GetReport uuid
  | ReviewReport uuid
  | DismissReport uuid "string option"
  | Tombstone uuid tombstone_dto
  | Untombstone uuid "string option"
  | Suspend uuid suspend_dto
  | Unsuspend uuid "string option"
  | ListSuspensions uuid
  | GetUser uuid
  | SearchAccounts "string option" "UserRole option" "UserStatus option" "int option"
  | ChangeRole uuid UserRole "string option"
  | ResetStrikes uuid string
  | Analytics analytics_query
  | AuditLog audit_query
  | Rollup time

text \<open>The roles that the decorators of the handlers name\<close>

fun required_roles :: "admin_request \<Rightarrow> UserRole list" where
  "required_roles AdminMe = []"
| "required_roles (ListReports q) = [MODERATOR, ADMIN]"
| "required_roles (GetReport i) = [MODERATOR, ADMIN]"
| "required_roles (ReviewReport i) = [MODERATOR, ADMIN]"
| "required_roles (DismissReport i r) = [MODERATOR, ADMIN]"
| "required_roles (Tombstone i dto) = [MODERATOR, ADMIN]"
| "required_roles (Analytics q) = [MODERATOR, ADMIN]"
| "required_roles _ = [ADMIN]"

definition admin_rollup :: "env \<Rightarrow> null_lookup \<Rightarrow> auth_user \<Rightarrow> time \<Rightarrow> (string \<times> nat) svc" where
  "admin_rollup e nl user day = bnd (rollupDay e nl day) (\<lambda>(date, written).
     thn (call (audit_write e (Some (au_userId user)) METRICS_ROLLUP T_USER (au_userId user) (Some ''manual_rollup'')
            (JObj [(''date'', JStr date), (''written'', JNum (int written))])))
         (ret (date, written)))"

fun admin_route :: "env \<Rightarrow> null_lookup \<Rightarrow> auth_user \<Rightarrow> admin_request \<Rightarrow> unit svc" where
  "admin_route e nl user AdminMe = ret ()"
| "admin_route e nl user (ListReports q) = call (listReports q)"
| "admin_route e nl user (GetReport i) = call (getReportById i)"
| "admin_route e nl user (ReviewReport i) = call (markInReview e (au_userId user) i)"
| "admin_route e nl user (DismissReport i r) = call (dismiss e (au_userId user) i r)"
| "admin_route e nl user (Tombstone i dto) = call (tombstoneMessage e (au_userId user) (au_role user) i dto)"
| "admin_route e nl user (Untombstone i r) = call (untombstoneMessage e (au_userId user) (au_role user) i r)"
| "admin_route e nl user (Suspend i dto) = call (suspendUser e (au_userId user) (au_role user) i dto)"
| "admin_route e nl user (Unsuspend i r) = call (unsuspendUser e (au_userId user) (au_role user) i r)"
| "admin_route e nl user (ListSuspensions i) = call (listSuspensions i 50)"
| "admin_route e nl user (GetUser i) = call (getDetail i)"
| "admin_route e nl user (SearchAccounts q r s n) = call (searchUsers q r s n)"
| "admin_route e nl user (ChangeRole i r why) = call (changeUserRole e (au_userId user) (au_role user) i r why)"
| "admin_route e nl user (ResetStrikes i why) = call (resetStrikes e (au_userId user) (au_role user) i why)"
| "admin_route e nl user (Analytics q) = call (series e q)"
| "admin_route e nl user (AuditLog q) = call (audit_list ((aqy_filter q)\<lparr>af_limit := coalesce (aqy_limit q) 50\<rparr>))"
| "admin_route e nl user (Rollup day) = call (admin_rollup e nl user day)"

section \<open>The interface\<close>

datatype request =
    Public auth_request
  | Webhook tg_update "string option"
  | Messages_api messages_request
  | Groups_api groups_request
  | Threads_api threads_request
  | Reactions_api reactions_request
  | Media_api media_request
  | Devices_api devices_request
  | Prekeys_api prekeys_request
  | Users_api users_request
  | Backups_api backups_request
  | Storage_api storage_request
  | Logout "string option" "uuid option"
  | Realtime_token uuid
  | Reports_api reports_request
  | Admin_api admin_request

fun is_public :: "request \<Rightarrow> bool" where
  "is_public (Public r) = True"
| "is_public (Webhook upd secret) = True"
| "is_public _ = False"

text \<open>The body of a request, run for the caller that the guard admitted\<close>

fun handler :: "env \<Rightarrow> outside \<Rightarrow> auth_user \<Rightarrow> request \<Rightarrow> unit svc" where
  "handler e o' user (Public r) = auth_route e (o_rnd o') r"
| "handler e o' user (Webhook upd secret) = call (handleWebhook e (o_tg o') upd secret)"
| "handler e o' user (Messages_api r) = messages_route e (au_userId user) r"
| "handler e o' user (Groups_api r) = groups_route e (au_userId user) r"
| "handler e o' user (Threads_api r) = threads_route (au_userId user) r"
| "handler e o' user (Reactions_api r) = reactions_route e (au_userId user) r"
| "handler e o' user (Media_api r) = media_route e (o_r2 o') (au_userId user) r"
| "handler e o' user (Devices_api r) = devices_route e (au_userId user) r"
| "handler e o' user (Prekeys_api r) = prekeys_route e (au_userId user) r"
| "handler e o' user (Users_api r) = users_route e (au_userId user) r"
| "handler e o' user (Backups_api r) = backups_route e (o_r2 o') (au_userId user) r"
| "handler e o' user (Storage_api r) = storage_route o' (au_userId user) r"
| "handler e o' user (Logout tok dv) = logout_route e user tok dv"
| "handler e o' user (Realtime_token dv) = realtime_route e user dv"
| "handler e o' user (Reports_api r) = reports_route e (au_userId user) r"
| "handler e o' user (Admin_api r) = thn (call (roleCanActivate (required_roles r) (Some user))) (admin_route e (o_null o') user r)"

definition anonymous :: auth_user where
  "anonymous = \<lparr>au_userId = [], au_sessionId = [], au_role = USER\<rparr>"

definition serve :: "env \<Rightarrow> outside \<Rightarrow> string option \<Rightarrow> request \<Rightarrow> unit svc" where
  "serve e o' header req =
     (if is_public req then handler e o' anonymous req
      else bnd (canActivate e (o_verify o') header) (\<lambda>user. handler e o' user req))"

section \<open>Nobody acts without a session and a role\<close>

lemma call_ok [ok_simps]: "call m w = (Inr x, w') \<longleftrightarrow> (\<exists>y. m w = (Inr y, w'))"
  by (auto simp: call_def ok_simps)

lemma call_snd [simp]: "snd (call m w) = snd (m w)"
  by (auto simp: call_def act_simps split: prod.splits sum.splits)

lemma kdb_call [kdb_intros]: "kdb P m \<Longrightarrow> kdb P (call m)"
  by (simp add: kdb_def keeps_def)

lemma role_run:
  "roleCanActivate required (Some u) w = ((if required = [] \<or> au_role u \<in> set required then Inr True
     else Inl (Forbidden (''Requires one of: '' @ join_roles required @ '' (caller has '' @ role_name (au_role u) @ '')''))), w)"
  by (simp add: roleCanActivate_def act_simps)

lemma guard_pure: "snd (canActivate e verify header w) = w"
  by (auto simp: canActivate_def Let_def act_simps branch_simps split: option.splits prod.splits)

text \<open>What an administrator decides about accounts: the accounts themselves, their suspensions and their sessions.\<close>

definition accounts :: "db \<Rightarrow> user_row list \<times> suspension_row list \<times> refresh_token_row list" where
  "accounts d = (users d, userSuspensions d, refreshTokens d)"

lemma accounts_frames [kdb_intros]:
  "kdb (\<lambda>d. accounts d = a) (dbset (reports_update f))" "kdb (\<lambda>d. accounts d = a) (dbset (messages_update g))"
  "kdb (\<lambda>d. accounts d = a) (dbset (adminAuditLog_update h))" "kdb (\<lambda>d. accounts d = a) (audit e u ac ty i r md)"
  by (rule kdb_dbset kdb_audit; simp add: accounts_def)+

lemma accounts_moderator:
  "kdb (\<lambda>d. accounts d = a) (listReports q)" "kdb (\<lambda>d. accounts d = a) (getReportById i)"
  "kdb (\<lambda>d. accounts d = a) (markInReview e u i)" "kdb (\<lambda>d. accounts d = a) (dismiss e u i r)"
  "kdb (\<lambda>d. accounts d = a) (tombstoneMessage e u ro i dto)" "kdb (\<lambda>d. accounts d = a) (series e q')"
  unfolding listReports_def getReportById_def markInReview_def dismiss_def tombstoneMessage_def tombstone_tx_def series_def Let_def
    update_report_def cascadeCloseReports_def close_reports_def
  by (intro kdb_intros kdb_tx_body)+

lemma moderator_route:
  "MODERATOR \<in> set (required_roles r) \<Longrightarrow> kdb (\<lambda>d. accounts d = a) (admin_route e nl u r)"
  by (cases r) (auto intro!: kdb_call accounts_moderator)

text \<open>C4: Nobody acts without a session and a role.  Of all requests only login, refresh and the webhook are open.  If any other
  request changes anything, the guard admitted its caller, who is a stored account that is not suspended with a session that
  is neither revoked nor expired; if it is a request of the admin interface, the caller also has one of the roles the
  handler names, and where it changes accounts, suspensions or sessions the caller is an administrator.\<close>

theorem api_guarded:
  assumes "serve e o' header req w = (res, w')" and "\<not> is_public req" and "w' \<noteq> w"
  shows "\<exists>u usr s. canActivate e (o_verify o') header w = (Inr u, w) \<and> find_user (w_db w) (au_userId u) = Some usr \<and> u_status usr \<noteq> SUSPENDED
    \<and> find_session (w_db w) (au_sessionId u) = Some s \<and> rt_userId s = u_id usr \<and> rt_revokedAt s = None \<and> now e < rt_expiresAt s
    \<and> (\<forall>r. req = Admin_api r \<longrightarrow> u_role usr \<in> set (required_roles r) \<and> u_role usr \<noteq> USER
         \<and> (accounts (w_db w') \<noteq> accounts (w_db w) \<longrightarrow> u_role usr = ADMIN))"
proof -
  obtain g where g: "canActivate e (o_verify o') header w = (g, w)" using guard_pure [of e "o_verify o'" header w] by (metis prod.collapse)
  with assms obtain u where u: "canActivate e (o_verify o') header w = (Inr u, w)" and run: "handler e o' u req w = (res, w')"
    by (cases g) (auto simp: serve_def act_simps)
  then obtain usr s where usr: "find_user (w_db w) (au_userId u) = Some usr" "u_status usr \<noteq> SUSPENDED" "au_role u = u_role usr"
    and s: "find_session (w_db w) (au_sessionId u) = Some s" "rt_userId s = au_userId u" "rt_revokedAt s = None" "now e < rt_expiresAt s"
    by (auto simp: guard_admits)
  have id: "u_id usr = au_userId u" using usr(1) by (auto dest: find_userD)
  have "u_role usr \<in> set (required_roles r) \<and> u_role usr \<noteq> USER \<and> (accounts (w_db w') \<noteq> accounts (w_db w) \<longrightarrow> u_role usr = ADMIN)"
    if r: "req = Admin_api r" for r
  proof -
    have role: "required_roles r = [] \<or> u_role usr \<in> set (required_roles r)" and route: "snd (admin_route e (o_null o') u r w) = w'"
      using run assms(3) by (auto simp: r usr(3) call_def role_run act_simps split: if_splits)
    have "required_roles r \<noteq> []" using route assms(3) by (cases r) (auto simp: act_simps)
    with role have mem: "u_role usr \<in> set (required_roles r)" by blast
    then have staff: "u_role usr = MODERATOR \<or> u_role usr = ADMIN" by (cases r) auto
    have "u_role usr = ADMIN" if "accounts (w_db w') \<noteq> accounts (w_db w)"
      using that staff mem kdbD [OF moderator_route [of r "accounts (w_db w)" e "o_null o'" u], of w] route by auto
    with mem staff show ?thesis by auto
  qed
  with u usr s id show ?thesis by metis
qed

section \<open>A run of the example deployment\<close>

definition demo_outside :: outside where
  "demo_outside = \<lparr>o_r2 = demo_r2, o_del = (\<lambda>_. None), o_tg = demo_bot, o_null = Inr True, o_rnd = 0,
     o_verify = (\<lambda>t. if t = ''ann.s1'' then Some (''ann'', ''s1'') else None)\<rparr>"

text \<open>Ann, an administrator, makes Bob a moderator.\<close>

theorem api_guarded_witness:
  "\<exists>w' u usr. serve demo_env demo_outside (Some ''Bearer ann.s1'') (Admin_api (ChangeRole ''bob'' MODERATOR None)) demo_session_world = (Inr (), w')
     \<and> accounts (w_db w') \<noteq> accounts (w_db demo_session_world)
     \<and> canActivate demo_env (o_verify demo_outside) (Some ''Bearer ann.s1'') demo_session_world = (Inr u, demo_session_world)
     \<and> find_user (w_db demo_session_world) (au_userId u) = Some usr \<and> u_role usr = ADMIN"
proof -
  let ?m = "serve demo_env demo_outside (Some ''Bearer ann.s1'') (Admin_api (ChangeRole ''bob'' MODERATOR None))"
  have "\<not> isl (fst (?m demo_session_world))" by code_simp
  then obtain x w' where run: "?m demo_session_world = (Inr x, w')" by (rule run_okE)
  have "map u_role (users (w_db (snd (?m demo_session_world)))) = [ADMIN, MODERATOR]" by code_simp
  moreover have "map u_role (users (w_db demo_session_world)) = [ADMIN, USER]" by code_simp
  ultimately have diff: "accounts (w_db w') \<noteq> accounts (w_db demo_session_world)" by (auto simp: accounts_def run)
  then have "w' \<noteq> demo_session_world" by auto
  with api_guarded [OF run] diff run show ?thesis by auto
qed

end
