(* ===== verification/Sockets.thy ===== *)
theory Sockets
  imports Demo
begin

text \<open>
  The socket registry of \<open>src/redis/redis.service.ts\<close>: for every user and device the set of connected sockets,
  and for every socket its owner, each under a key that expires.  A key past its expiry is absent.  Times are
  milliseconds.  The registry refines a plain set of open sockets as long as the first of its keys is alive.
\<close>

section \<open>Keys that expire\<close>

definition alive :: "time \<Rightarrow> ('a \<times> time) option \<Rightarrow> 'a option" where
  "alive t c = (case c of None \<Rightarrow> None | Some (x, ex) \<Rightarrow> if t < ex then Some x else None)"

definition smembers :: "time \<Rightarrow> (string list \<times> time) option \<Rightarrow> string list" where
  "smembers t c = coalesce (alive t c) []"

text \<open>\<open>SADD\<close> and \<open>EXPIRE\<close> of the same key\<close>

definition sadd_expire :: "time \<Rightarrow> string \<Rightarrow> time \<Rightarrow> (string list \<times> time) option \<Rightarrow> (string list \<times> time) option" where
  "sadd_expire t s ttl c = Some (List.insert s (smembers t c), t + ttl)"

text \<open>\<open>SREM\<close>; a set that becomes empty is no longer a key.\<close>

definition srem :: "time \<Rightarrow> string list \<Rightarrow> (string list \<times> time) option \<Rightarrow> (string list \<times> time) option" where
  "srem t ss c = (case c of
     None \<Rightarrow> None
   | Some (xs, ex) \<Rightarrow> let rest = filter (\<lambda>x. x \<notin> set ss) xs in if ex \<le> t \<or> rest = [] then None else Some (rest, ex))"

section \<open>\<open>RedisService\<close>\<close>

definition socket_exists :: "time \<Rightarrow> redis_store \<Rightarrow> string \<Rightarrow> bool" where
  "socket_exists t r s = (case r_socketInfo r s of None \<Rightarrow> False | Some (u, d, ex) \<Rightarrow> t < ex)"

definition pruneStaleSockets :: "env \<Rightarrow> uuid \<Rightarrow> uuid \<Rightarrow> unit svc" where
  "pruneStaleSockets e userId deviceId =
     bnd (redis_get e (\<lambda>r. (smembers (now e) (r_userSockets r userId), smembers (now e) (r_deviceSockets r deviceId)))) (\<lambda>(userSockets, deviceSockets).
     if userSockets @ deviceSockets = [] then ret ()
     else bnd (redis_get e (\<lambda>r. (filter (\<lambda>s. \<not> socket_exists (now e) r s) userSockets, filter (\<lambda>s. \<not> socket_exists (now e) r s) deviceSockets))) (\<lambda>(staleUser, staleDevice).
       whenA (staleUser \<noteq> [] \<or> staleDevice \<noteq> [])
         (redis_set e (\<lambda>r. r\<lparr>r_userSockets := (r_userSockets r)(userId := srem (now e) staleUser (r_userSockets r userId)),
            r_deviceSockets := (r_deviceSockets r)(deviceId := srem (now e) staleDevice (r_deviceSockets r deviceId))\<rparr>))))"

definition register_socket :: "time \<Rightarrow> uuid \<Rightarrow> uuid \<Rightarrow> string \<Rightarrow> redis_store \<Rightarrow> redis_store" where
  "register_socket t userId deviceId s r = r\<lparr>
     r_userSockets := (r_userSockets r)(userId := sadd_expire t s 7200000 (r_userSockets r userId)),
     r_deviceSockets := (r_deviceSockets r)(deviceId := sadd_expire t s 7200000 (r_deviceSockets r deviceId)),
     r_socketInfo := (r_socketInfo r)(s := Some (userId, deviceId, t + 3600000))\<rparr>"

definition setDeviceSocket :: "env \<Rightarrow> uuid \<Rightarrow> uuid \<Rightarrow> string \<Rightarrow> unit svc" where
  "setDeviceSocket e userId deviceId socketId =
     thn (redis_set e (register_socket (now e) userId deviceId socketId))
         (catch_ignore (pruneStaleSockets e userId deviceId))"

definition removeDeviceSocket :: "env \<Rightarrow> uuid \<Rightarrow> uuid \<Rightarrow> string \<Rightarrow> unit svc" where
  "removeDeviceSocket e userId deviceId socketId = redis_set e (\<lambda>r. r\<lparr>
     r_userSockets := (r_userSockets r)(userId := srem (now e) [socketId] (r_userSockets r userId)),
     r_deviceSockets := (r_deviceSockets r)(deviceId := srem (now e) [socketId] (r_deviceSockets r deviceId)),
     r_socketInfo := (r_socketInfo r)(socketId := None)\<rparr>)"

definition hasDeviceSocket :: "env \<Rightarrow> uuid \<Rightarrow> bool svc" where
  "hasDeviceSocket e deviceId = redis_get e (\<lambda>r. 0 < length (smembers (now e) (r_deviceSockets r deviceId)))"

definition getDevicesWithSockets :: "env \<Rightarrow> uuid list \<Rightarrow> uuid list svc" where
  "getDevicesWithSockets e deviceIds =
     (if deviceIds = [] then ret []
      else redis_get e (\<lambda>r. js_set (filter (\<lambda>i. 0 < length (smembers (now e) (r_deviceSockets r i))) deviceIds)))"

section \<open>The registry as a set of open sockets\<close>

text \<open>An open socket is its identifier with its user and device.\<close>

type_synonym open_sockets = "(string \<times> uuid \<times> uuid) set"

datatype socket_call = Open uuid uuid string | Close uuid uuid string

fun call_svc :: "env \<Rightarrow> socket_call \<Rightarrow> unit svc" where
  "call_svc e (Open u d s) = setDeviceSocket e u d s"
| "call_svc e (Close u d s) = removeDeviceSocket e u d s"

fun call_spec :: "socket_call \<Rightarrow> open_sockets \<Rightarrow> open_sockets" where
  "call_spec (Open u d s) A = insert (s, u, d) A"
| "call_spec (Close u d s) A = A - {(s, u, d)}"

text \<open>The calls of the gateway: a socket is opened once and closed by its owner.\<close>

fun call_ok :: "socket_call \<Rightarrow> open_sockets \<Rightarrow> bool" where
  "call_ok (Open u d s) A = (s \<notin> fst ` A)"
| "call_ok (Close u d s) A = (\<forall>x\<in>A. fst x = s \<longrightarrow> x = (s, u, d))"

fun run_calls :: "(env \<times> socket_call) list \<Rightarrow> world \<Rightarrow> world" where
  "run_calls [] w = w"
| "run_calls ((e, c) # cs) w = run_calls cs (snd (call_svc e c w))"

fun spec_calls :: "(env \<times> socket_call) list \<Rightarrow> open_sockets \<Rightarrow> open_sockets" where
  "spec_calls [] A = A"
| "spec_calls ((e, c) # cs) A = spec_calls cs (call_spec c A)"

fun calls_ok :: "(env \<times> socket_call) list \<Rightarrow> open_sockets \<Rightarrow> bool" where
  "calls_ok [] A = True"
| "calls_ok ((e, c) # cs) A = (call_ok c A \<and> calls_ok cs (call_spec c A))"

text \<open>The registry holds exactly the open sockets, and every key lives at least until \<open>T\<close>.\<close>

definition lives :: "time \<Rightarrow> (string list \<times> time) option \<Rightarrow> string set \<Rightarrow> bool" where
  "lives T c S \<longleftrightarrow> (case c of None \<Rightarrow> S = {} | Some (xs, ex) \<Rightarrow> set xs = S \<and> T \<le> ex)"

definition of_user :: "open_sockets \<Rightarrow> uuid \<Rightarrow> string set" where
  "of_user A u = {s. \<exists>d. (s, u, d) \<in> A}"

definition of_device :: "open_sockets \<Rightarrow> uuid \<Rightarrow> string set" where
  "of_device A d = {s. \<exists>u. (s, u, d) \<in> A}"

definition registry :: "time \<Rightarrow> redis_store \<Rightarrow> open_sockets \<Rightarrow> bool" where
  "registry T r A \<longleftrightarrow> (\<forall>u. lives T (r_userSockets r u) (of_user A u)) \<and> (\<forall>d. lives T (r_deviceSockets r d) (of_device A d))
     \<and> (\<forall>(s, u, d)\<in>A. \<exists>ex\<ge>T. r_socketInfo r s = Some (u, d, ex))"

lemma of_insert:
  "of_user (insert (s, u, d) A) v = (if v = u then insert s (of_user A v) else of_user A v)"
  "of_device (insert (s, u, d) A) v = (if v = d then insert s (of_device A v) else of_device A v)"
  by (auto simp: of_user_def of_device_def)

lemma of_remove:
  assumes "\<forall>x\<in>A. fst x = s \<longrightarrow> x = (s, u, d)"
  shows "of_user (A - {(s, u, d)}) v = (if v = u then of_user A v - set [s] else of_user A v)"
    and "of_device (A - {(s, u, d)}) v = (if v = d then of_device A v - set [s] else of_device A v)"
  using assms by (auto simp: of_user_def of_device_def)

lemma lives_members: "lives T c S \<Longrightarrow> t < T \<Longrightarrow> set (smembers t c) = S"
  by (auto simp: lives_def smembers_def alive_def split: option.splits)

lemma lives_add: "lives T c S \<Longrightarrow> t < T \<Longrightarrow> T \<le> t + ttl \<Longrightarrow> lives T (sadd_expire t s ttl c) (insert s S)"
  by (auto simp: sadd_expire_def lives_members) (simp add: lives_def lives_members)

lemma lives_srem: "lives T c S \<Longrightarrow> t < T \<Longrightarrow> lives T (srem t ss c) (S - set ss)"
  by (auto simp: lives_def srem_def Let_def filter_empty_conv split: option.splits)

lemma registry_exists: "registry T r A \<Longrightarrow> t < T \<Longrightarrow> (s, u, d) \<in> A \<Longrightarrow> socket_exists t r s"
  by (fastforce simp: registry_def socket_exists_def)

lemma registry_members:
  assumes "registry T r A" and "t < T"
  shows "set (smembers t (r_userSockets r u)) = of_user A u" and "set (smembers t (r_deviceSockets r d)) = of_device A d"
  using assms lives_members unfolding registry_def by blast+

lemma prune_fresh:
  assumes "registry T (w_redis w) A" and "now e < T" and "redisErr e = None"
  shows "pruneStaleSockets e u d w = (Inr (), w)"
proof -
  let ?us = "smembers (now e) (r_userSockets (w_redis w) u)" and ?ds = "smembers (now e) (r_deviceSockets (w_redis w) d)"
  have "filter (\<lambda>s. \<not> socket_exists (now e) (w_redis w) s) ?us = []" and "filter (\<lambda>s. \<not> socket_exists (now e) (w_redis w) s) ?ds = []"
    using registry_exists [OF assms(1,2)] registry_members [OF assms(1,2)] by (auto simp: filter_empty_conv of_user_def of_device_def)
  then show ?thesis by (simp add: pruneStaleSockets_def redis_get_def assms(3) act_simps)
qed

lemma registry_open:
  assumes "registry T r A" and "t < T" and "T \<le> t + 3600000" and "s \<notin> fst ` A"
  shows "registry T (register_socket t u d s r) (insert (s, u, d) A)"
proof -
  have us: "lives T (r_userSockets r v) (of_user A v)" and ds: "lives T (r_deviceSockets r v) (of_device A v)" for v
    using assms(1) by (simp_all add: registry_def)
  have "\<exists>ex\<ge>T. r_socketInfo (register_socket t u d s r) s' = Some (u', d', ex)" if "(s', u', d') \<in> insert (s, u, d) A" for s' u' d'
    using that assms(1,3,4) by (force simp: registry_def register_socket_def)
  then show ?thesis
    using lives_add [OF us [of u] assms(2), of 7200000 s] lives_add [OF ds [of d] assms(2), of 7200000 s] us ds assms(3)
    unfolding registry_def by (auto simp: register_socket_def of_insert)
qed

lemma registry_close:
  assumes "registry T r A" and "t < T" and "\<forall>x\<in>A. fst x = s \<longrightarrow> x = (s, u, d)"
  shows "registry T (r\<lparr>r_userSockets := (r_userSockets r)(u := srem t [s] (r_userSockets r u)),
     r_deviceSockets := (r_deviceSockets r)(d := srem t [s] (r_deviceSockets r d)), r_socketInfo := (r_socketInfo r)(s := None)\<rparr>) (A - {(s, u, d)})"
    (is "registry T ?r _")
proof -
  have us: "lives T (r_userSockets r v) (of_user A v)" and ds: "lives T (r_deviceSockets r v) (of_device A v)" for v
    using assms(1) by (simp_all add: registry_def)
  have "\<exists>ex\<ge>T. r_socketInfo ?r s' = Some (u', d', ex)" if "(s', u', d') \<in> A - {(s, u, d)}" for s' u' d'
    using that assms(1,3) by (force simp: registry_def)
  then show ?thesis
    using lives_srem [OF us [of u] assms(2), of "[s]"] lives_srem [OF ds [of d] assms(2), of "[s]"] us ds
    unfolding registry_def by (auto simp: of_remove [OF assms(3)])
qed

lemma call_refines:
  assumes "registry T (w_redis w) A" and "now e < T" and "T \<le> now e + 3600000" and "redisErr e = None" and "call_ok c A"
  shows "registry T (w_redis (snd (call_svc e c w))) (call_spec c A)"
proof (cases c)
  case (Open u d s)
  let ?w = "w\<lparr>w_redis := register_socket (now e) u d s (w_redis w)\<rparr>"
  have r: "registry T (w_redis ?w) (insert (s, u, d) A)" using registry_open [OF assms(1-3)] assms(5) by (simp add: Open)
  from prune_fresh [OF r assms(2,4)] r show ?thesis
    by (simp add: Open setDeviceSocket_def redis_set_def catch_ignore_def assms(4) act_simps)
next
  case (Close u d s)
  then show ?thesis using registry_close [OF assms(1,2)] assms(5)
    by (simp add: removeDeviceSocket_def redis_set_def assms(4) act_simps)
qed

lemma calls_refine:
  assumes "registry T (w_redis w) A" and "calls_ok cs A"
    and "\<forall>(e, c)\<in>set cs. now e < T \<and> T \<le> now e + 3600000 \<and> redisErr e = None"
  shows "registry T (w_redis (run_calls cs w)) (spec_calls cs A)"
  using assms
proof (induction cs arbitrary: w A)
  case (Cons c cs)
  then show ?case using call_refines by (cases c) auto
qed simp


text \<open>Two hours after the last connection of a device nothing is left of it, although its sockets may still be open:
  nothing renews the keys of a socket that stays connected.\<close>

lemma registry_forgets:
  assumes "setDeviceSocket e u d s w = (Inr (), w')" and "now e + 7200000 \<le> now e'" and "redisErr e' = None"
  shows "fst (hasDeviceSocket e' d w') = Inr False"
proof -
  have exp: "\<exists>xs. r_deviceSockets (w_redis v) d = Some (xs, now e + 7200000)
      \<Longrightarrow> smembers (now e') (r_deviceSockets (w_redis (snd (catch_ignore (pruneStaleSockets e u d) v))) d) = []" for v
    using assms(2) by (auto simp: catch_ignore_def pruneStaleSockets_def redis_get_def redis_set_def act_simps branch_simps
        smembers_def alive_def srem_def Let_def split: option.splits)
  from assms(1) have "w' = snd (catch_ignore (pruneStaleSockets e u d) (w\<lparr>w_redis := register_socket (now e) u d s (w_redis w)\<rparr>))"
    by (auto simp: setDeviceSocket_def redis_set_def act_simps split: option.splits) 
  with exp [of "w\<lparr>w_redis := register_socket (now e) u d s (w_redis w)\<rparr>"] show ?thesis
    by (simp add: register_socket_def sadd_expire_def hasDeviceSocket_def redis_get_def assms(3) act_simps)
qed

section \<open>Runs of the example deployment\<close>

definition demo_socket_calls :: "(env \<times> socket_call) list" where
  "demo_socket_calls = [(demo_env, Open ''ann'' ''a1'' ''s1''), (demo_env, Open ''bob'' ''b1'' ''s2''),
     (demo_env\<lparr>now := 1000500\<rparr>, Open ''ann'' ''a1'' ''s3''), (demo_env\<lparr>now := 1000900\<rparr>, Close ''bob'' ''b1'' ''s2'')]"


end
