(* ===== verification/Gateway.thy ===== *)
theory Gateway
  imports Sockets Reactions Suspensions
begin

text \<open>
  The socket gateway \<open>src/realtime/realtime.gateway.ts\<close>.  Its state is the world of the services together with the
  connected sockets (each with the rooms it joined and the identity that its ticket gave it), the sockets that
  were disconnected and whose \<open>handleDisconnect\<close> is still to run, the frames sent to each socket in order, and
  whether the server is shutting down.  One handler runs to its end before the next one starts.
\<close>

section \<open>State\<close>

datatype room = User_room uuid | Device_room uuid

record socket =
  so_id :: string
  so_data :: "(uuid \<times> uuid \<times> uuid) option"
  so_rooms :: "room list"

datatype created_envelope = Direct_env envelope_row | Group_env fanout_envelope

record reaction_frame =
  rf_reactionId :: uuid
  rf_messageId :: uuid
  rf_userId :: uuid
  rf_emoji :: string
  rf_createdAt :: "time option"
  rf_threadId :: "uuid option"
  rf_groupId :: "uuid option"

record deleted_frame =
  df_messageId :: uuid
  df_threadId :: "uuid option"
  df_groupId :: "uuid option"
  df_senderUserId :: uuid
  df_deletedAt :: "time option"

record edited_frame =
  ef_messageId :: "uuid option"
  ef_threadId :: "uuid option"
  ef_groupId :: "uuid option"
  ef_senderUserId :: uuid
  ef_senderDeviceId :: uuid
  ef_editedAt :: "time option"
  ef_ciphertext :: json

datatype frame =
    F_user_kicked string
  | F_server_shutdown string
  | F_presence_active uuid uuid
  | F_typing_start uuid uuid "uuid option"
  | F_typing_stop uuid uuid "uuid option"
  | F_message_new created_envelope
  | F_message_ack ack_event
  | F_unread_updated uuid ThreadType int
  | F_marked_all_read uuid ThreadType
  | F_reaction_new reaction_frame
  | F_reaction_removed reaction_frame
  | F_message_deleted deleted_frame
  | F_message_edited edited_frame

record gw =
  gw_world :: world
  gw_sockets :: "socket list"
  gw_closing :: "socket list"
  gw_sent :: "(string \<times> frame) list"
  gw_shutting :: bool

type_synonym 'a gsvc = "(gw, error, 'a) act"

section \<open>The socket server\<close>

text \<open>A call of a service\<close>

definition on_world :: "'a svc \<Rightarrow> 'a gsvc" where
  "on_world m = (\<lambda>g. case m (gw_world g) of (r, w') \<Rightarrow> (r, g\<lparr>gw_world := w'\<rparr>))"

definition in_room :: "gw \<Rightarrow> room \<Rightarrow> socket list" where
  "in_room g r = filter (\<lambda>s. r \<in> set (so_rooms s)) (gw_sockets g)"

text \<open>\<open>server.to(room).emit(...)\<close>\<close>

definition to_room :: "room \<Rightarrow> frame \<Rightarrow> unit gsvc" where
  "to_room r f = modify (\<lambda>g. g\<lparr>gw_sent := gw_sent g @ map (\<lambda>s. (so_id s, f)) (in_room g r)\<rparr>)"

text \<open>\<open>socket.emit(...)\<close>, \<open>socket.disconnect(true)\<close> and \<open>socket.join(room)\<close>\<close>

definition send_to :: "string \<Rightarrow> frame \<Rightarrow> unit gsvc" where
  "send_to sid f = modify (\<lambda>g. g\<lparr>gw_sent := gw_sent g @ [(sid, f)]\<rparr>)"

definition disconnect :: "string \<Rightarrow> unit gsvc" where
  "disconnect sid = modify (\<lambda>g. g\<lparr>gw_sockets := filter (\<lambda>s. so_id s \<noteq> sid) (gw_sockets g),
     gw_closing := gw_closing g @ filter (\<lambda>s. so_id s = sid) (gw_sockets g)\<rparr>)"

definition update_socket :: "string \<Rightarrow> (socket \<Rightarrow> socket) \<Rightarrow> unit gsvc" where
  "update_socket sid f = modify (\<lambda>g. g\<lparr>gw_sockets := update_where (\<lambda>s. so_id s = sid) f (gw_sockets g)\<rparr>)"

definition join :: "string \<Rightarrow> room \<Rightarrow> unit gsvc" where
  "join sid r = update_socket sid (\<lambda>s. s\<lparr>so_rooms := so_rooms s @ [r]\<rparr>)"

section \<open>\<open>RealtimeGateway\<close>: connections\<close>

record handshake =
  hs_authTicket :: "json option"
  hs_queryTicket :: "json option"

fun as_string :: "json option \<Rightarrow> string option" where
  "as_string (Some (JStr s)) = Some s"
| "as_string _ = None"

definition extractTicket :: "handshake \<Rightarrow> string option" where
  "extractTicket hs = (case as_string (hs_authTicket hs) of Some t \<Rightarrow> Some t | None \<Rightarrow> as_string (hs_queryTicket hs))"

definition handleConnection :: "env \<Rightarrow> handshake \<Rightarrow> string \<Rightarrow> unit gsvc" where
  "handleConnection e hs sid = bnd (gets gw_shutting) (\<lambda>isShuttingDown.
     if isShuttingDown then thn (send_to sid (F_server_shutdown ''Server is shutting down'')) (disconnect sid)
     else if \<not> truthy (extractTicket hs) then disconnect sid
     else catching
       (bnd (on_world (consumeSocketTicket e (coalesce (extractTicket hs) []) sid)) (\<lambda>(userId, deviceId, sessionId).
        thn (update_socket sid (\<lambda>s. s\<lparr>so_data := Some (userId, deviceId, sessionId)\<rparr>))
       (thn (join sid (User_room userId))
       (thn (join sid (Device_room deviceId))
       (thn (on_world (catch_ignore (setDeviceSocket e userId deviceId sid)))
            (to_room (User_room userId) (F_presence_active userId deviceId)))))))
       (\<lambda>_. disconnect sid))"

definition handleDisconnect :: "env \<Rightarrow> socket \<Rightarrow> unit gsvc" where
  "handleDisconnect e client = (case so_data client of
     None \<Rightarrow> ret ()
   | Some (userId, deviceId, _) \<Rightarrow>
       if userId = [] \<or> deviceId = [] then ret ()
       else on_world (catch_ignore (removeDeviceSocket e userId deviceId (so_id client))))"

text \<open>The message of the kick channel, \<open>None\<close> when it does not parse\<close>

record kick_payload =
  kp_userId :: "string option"
  kp_reason :: "string option"

definition handleUserKicked :: "kick_payload option \<Rightarrow> unit gsvc" where
  "handleUserKicked raw = (case raw of
     None \<Rightarrow> ret ()
   | Some payload \<Rightarrow>
       if \<not> truthy (kp_userId payload) then ret ()
       else bnd (gets (\<lambda>g. in_room g (User_room (coalesce (kp_userId payload) [])))) (\<lambda>sockets.
         for_each sockets (\<lambda>sock.
           thn (send_to (so_id sock) (F_user_kicked (coalesce (kp_reason payload) ''KICKED'')))
               (disconnect (so_id sock)))))"

text \<open>The kick channel receives what \<open>emitUserKicked\<close> published.\<close>

fun onPublication :: "publication \<Rightarrow> unit gsvc" where
  "onPublication (PubUserKicked userId reason t) = handleUserKicked (Some \<lparr>kp_userId = Some userId, kp_reason = Some reason\<rparr>)"
| "onPublication (PubMessageTombstoned m) = ret ()"

record typing_dto =
  ty_recipientUserId :: "uuid option"
  ty_groupId :: "uuid option"

text \<open>\<open>handleTypingStart\<close> and \<open>handleTypingStop\<close>, which differ in the frame\<close>

definition handleTyping :: "env \<Rightarrow> (uuid \<Rightarrow> uuid \<Rightarrow> uuid option \<Rightarrow> frame) \<Rightarrow> socket \<Rightarrow> typing_dto \<Rightarrow> unit gsvc" where
  "handleTyping e mk client body = (case so_data client of
     None \<Rightarrow> ret ()
   | Some (userId, deviceId, _) \<Rightarrow>
       if userId = [] then ret ()
       else if truthy (ty_groupId body) then
         bnd (on_world (group_member_ids e (coalesce (ty_groupId body) []))) (\<lambda>memberIds.
         for_each memberIds (\<lambda>i. whenA (i \<noteq> userId) (to_room (User_room i) (mk userId deviceId (ty_groupId body)))))
       else whenA (truthy (ty_recipientUserId body))
         (to_room (User_room (coalesce (ty_recipientUserId body) [])) (mk userId deviceId None)))"

definition handleTypingStart :: "env \<Rightarrow> socket \<Rightarrow> typing_dto \<Rightarrow> unit gsvc" where
  "handleTypingStart e = handleTyping e F_typing_start"

definition handleTypingStop :: "env \<Rightarrow> socket \<Rightarrow> typing_dto \<Rightarrow> unit gsvc" where
  "handleTypingStop e = handleTyping e F_typing_stop"

text \<open>Shutdown: every socket is told, its registration removed, and then closed by the server.\<close>

definition onModuleDestroy :: "env \<Rightarrow> unit gsvc" where
  "onModuleDestroy e =
     thn (modify (\<lambda>g. g\<lparr>gw_shutting := True, gw_sent := gw_sent g @ map (\<lambda>s. (so_id s, F_server_shutdown ''Server is shutting down, please reconnect'')) (gw_sockets g)\<rparr>))
    (bnd (gets gw_sockets) (\<lambda>connected.
     thn (for_each connected (handleDisconnect e))
         (modify (\<lambda>g. g\<lparr>gw_closing := gw_closing g @ gw_sockets g, gw_sockets := []\<rparr>))))"

section \<open>\<open>RealtimeGateway\<close>: events\<close>

definition onMessageCreated :: "env \<Rightarrow> (push_target \<times> created_envelope) list \<Rightarrow> unit gsvc" where
  "onMessageCreated e envelopes =
     thn (for_each envelopes (\<lambda>(t, x). to_room (Device_room (pt_recipientDeviceId t)) (F_message_new x)))
         (on_world (catch_ignore (sendMessageWakeup e (map fst envelopes))))"

definition reaction_frame_of :: "reaction_payload \<Rightarrow> reaction_frame" where
  "reaction_frame_of p = \<lparr>rf_reactionId = rj_reactionId p, rf_messageId = rj_messageId p, rf_userId = rj_userId p, rf_emoji = rj_emoji p,
     rf_createdAt = (if rj_created p then Some (rj_createdAt p) else None), rf_threadId = rj_threadId p, rf_groupId = rj_groupId p\<rparr>"

definition onReactionCreated :: "reaction_payload \<Rightarrow> uuid list \<Rightarrow> unit gsvc" where
  "onReactionCreated p targetUserIds = for_each targetUserIds (\<lambda>i. to_room (User_room i) (F_reaction_new (reaction_frame_of p)))"

definition onReactionRemoved :: "reaction_payload \<Rightarrow> uuid list \<Rightarrow> unit gsvc" where
  "onReactionRemoved p targetUserIds = for_each targetUserIds (\<lambda>i. to_room (User_room i) (F_reaction_removed (reaction_frame_of p)))"

definition deleted_frame_of :: "deleted_event \<Rightarrow> deleted_frame" where
  "deleted_frame_of p = \<lparr>df_messageId = de_messageId p, df_threadId = de_threadId p, df_groupId = de_groupId p,
     df_senderUserId = de_senderUserId p, df_deletedAt = de_deletedAt p\<rparr>"

definition onMessageDeleted :: "deleted_event \<Rightarrow> uuid list \<Rightarrow> unit gsvc" where
  "onMessageDeleted p targetUserIds = for_each targetUserIds (\<lambda>i. to_room (User_room i) (F_message_deleted (deleted_frame_of p)))"

text \<open>A frame to every member of a group but one\<close>

definition to_members :: "env \<Rightarrow> uuid \<Rightarrow> uuid \<Rightarrow> frame \<Rightarrow> unit gsvc" where
  "to_members e groupId actor f = bnd (on_world (group_member_ids e groupId)) (\<lambda>memberIds.
     for_each memberIds (\<lambda>i. whenA (i \<noteq> actor) (to_room (User_room i) f)))"

definition onGroupMessageDeleted :: "env \<Rightarrow> deleted_event \<Rightarrow> unit gsvc" where
  "onGroupMessageDeleted e p =
     (if \<not> truthy (de_groupId p) then ret ()
      else to_members e (coalesce (de_groupId p) []) (de_deletedByUserId p) (F_message_deleted (deleted_frame_of p)))"

definition onPlatformTombstone :: "env \<Rightarrow> tombstoned_event \<Rightarrow> unit gsvc" where
  "onPlatformTombstone e p =
     (let f = F_message_deleted \<lparr>df_messageId = te_messageId p, df_threadId = te_threadId p, df_groupId = te_groupId p,
            df_senderUserId = te_senderUserId p, df_deletedAt = Some (te_at p)\<rparr> in
      if truthy (te_groupId p) then to_members e (coalesce (te_groupId p) []) (te_tombstonedBy p) f
      else if truthy (te_threadId p) then
        bnd (on_world (dbget (\<lambda>d. find_thread d (coalesce (te_threadId p) [])))) (\<lambda>thread. case thread of
          None \<Rightarrow> ret ()
        | Some th \<Rightarrow> for_each (filter (\<lambda>i. i \<noteq> te_tombstonedBy p) [th_userAId th, th_userBId th]) (\<lambda>i. to_room (User_room i) f))
      else ret ())"

definition emitEditedPerDevice :: "edited_frame \<Rightarrow> (uuid \<times> json) list \<Rightarrow> unit gsvc" where
  "emitEditedPerDevice f envelopes =
     for_each envelopes (\<lambda>(dv, ct). to_room (Device_room dv) (F_message_edited (f\<lparr>ef_ciphertext := ct\<rparr>)))"

definition edited_frame_of :: "edited_event \<Rightarrow> edited_frame" where
  "edited_frame_of p = \<lparr>ef_messageId = Some (ee_messageId p), ef_threadId = ee_threadId p, ef_groupId = ee_groupId p,
     ef_senderUserId = ee_senderUserId p, ef_senderDeviceId = ee_senderDeviceId p, ef_editedAt = ee_editedAt p, ef_ciphertext = JNull\<rparr>"

definition edited_envelopes :: "edited_event \<Rightarrow> (uuid \<times> json) list" where
  "edited_envelopes p = map (\<lambda>x. (e_recipientDeviceId x, e_ciphertext x)) (ee_envelopes p)"

definition onMessageEdited :: "edited_event \<Rightarrow> unit gsvc" where
  "onMessageEdited p = emitEditedPerDevice (edited_frame_of p) (edited_envelopes p)"

text \<open>\<open>{ ...payload, messageId: payload.id }\<close>: the identifier is read from \<open>id\<close>.\<close>

definition onGroupMessageEdited :: "uuid option \<Rightarrow> edited_frame \<Rightarrow> (uuid \<times> json) list \<Rightarrow> unit gsvc" where
  "onGroupMessageEdited payload_id f envelopes =
     (if \<not> truthy (ef_groupId f) then ret () else emitEditedPerDevice (f\<lparr>ef_messageId := payload_id\<rparr>) envelopes)"

definition edited_frame_of_job :: "edit_fanout_job \<Rightarrow> edited_frame" where
  "edited_frame_of_job j = \<lparr>ef_messageId = None, ef_threadId = None, ef_groupId = Some (ej_groupId j), ef_senderUserId = ej_senderUserId j,
     ef_senderDeviceId = ej_senderDeviceId j, ef_editedAt = Some (ej_editedAt j), ef_ciphertext = JNull\<rparr>"

text \<open>The handler of every event.  The edit of a message emits \<open>message.edited.group\<close> with \<open>messageId\<close> and no \<open>id\<close>; the
  fan-out worker emits it with \<open>id\<close>.\<close>

fun onEvent :: "env \<Rightarrow> event \<Rightarrow> unit gsvc" where
  "onEvent e (EvMessageCreated v) = onMessageCreated e (map (\<lambda>x. (push_target_of x, Direct_env x)) (v_envelopes v))"
| "onEvent e (EvGroupMessageCreated v) = onMessageCreated e (map (\<lambda>x. (\<lparr>pt_recipientDeviceId = fe_recipientDeviceId x,
     pt_recipientUserId = fe_recipientUserId x\<rparr>, Group_env x)) (fm_envelopes v))"
| "onEvent e (EvMessageAck p) = to_room (User_room (ak_senderUserId p)) (F_message_ack p)"
| "onEvent e (EvMarkedAllRead u t ty) = to_room (User_room u) (F_marked_all_read t ty)"
| "onEvent e (EvUnreadUpdated u t ty n) = to_room (User_room u) (F_unread_updated t ty n)"
| "onEvent e (EvMessageEdited p targets) = onMessageEdited p"
| "onEvent e (EvMessageEditedGroup p) = onGroupMessageEdited None (edited_frame_of p) (edited_envelopes p)"
| "onEvent e (EvGroupFanoutEdited j xs) = onGroupMessageEdited (Some (ej_messageId j)) (edited_frame_of_job j)
     (map (\<lambda>x. (fe_recipientDeviceId x, fe_ciphertext x)) xs)"
| "onEvent e (EvMessageDeleted p targets) = onMessageDeleted p targets"
| "onEvent e (EvMessageDeletedGroup p) = onGroupMessageDeleted e p"
| "onEvent e (EvReaction p targets) = (if rj_created p then onReactionCreated p targets else onReactionRemoved p targets)"
| "onEvent e (EvTombstonedPlatform p) = onPlatformTombstone e p"
| "onEvent e (EvError m er) = ret ()"

section \<open>Connected sockets and their rooms\<close>

definition socket_user :: "socket \<Rightarrow> uuid option" where
  "socket_user s = map_option fst (so_data s)"

definition socket_device :: "socket \<Rightarrow> uuid option" where
  "socket_device s = map_option (fst \<circ> snd) (so_data s)"

definition socket_ok :: "socket \<Rightarrow> bool" where
  "socket_ok s \<longleftrightarrow> so_rooms s = (case so_data s of None \<Rightarrow> [] | Some (u, d, k) \<Rightarrow> [User_room u, Device_room d])"

definition gw_inv :: "gw \<Rightarrow> bool" where
  "gw_inv g \<longleftrightarrow> distinct (map so_id (gw_sockets g @ gw_closing g)) \<and> (\<forall>s\<in>set (gw_sockets g). socket_ok s)"

text \<open>The steps of the gateway.  A new socket has an identifier of its own; the services may change the world in
  between in any way.\<close>

definition accept :: "string \<Rightarrow> gw \<Rightarrow> gw" where
  "accept sid g = g\<lparr>gw_sockets := gw_sockets g @ [\<lparr>so_id = sid, so_data = None, so_rooms = []\<rparr>]\<rparr>"

definition closed :: "string \<Rightarrow> gw \<Rightarrow> gw" where
  "closed sid g = g\<lparr>gw_closing := filter (\<lambda>s. so_id s \<noteq> sid) (gw_closing g)\<rparr>"

inductive gw_step :: "gw \<Rightarrow> gw \<Rightarrow> bool" where
  connects: "sid \<notin> so_id ` set (gw_sockets g @ gw_closing g) \<Longrightarrow> gw_step g (snd (handleConnection e hs sid (accept sid g)))"
| leaves: "gw_step g (snd (disconnect sid g))"
| disconnected: "c \<in> set (gw_closing g) \<Longrightarrow> gw_step g (snd (handleDisconnect e c (closed (so_id c) g)))"
| event: "gw_step g (snd (onEvent e ev g))"
| typing: "c \<in> set (gw_sockets g) \<Longrightarrow> mk \<in> {F_typing_start, F_typing_stop} \<Longrightarrow> gw_step g (snd (handleTyping e mk c b g))"
| published: "gw_step g (snd (onPublication p g))"
| shutdown: "gw_step g (snd (onModuleDestroy e g))"
| service: "gw_step g (g\<lparr>gw_world := w'\<rparr>)"

inductive_cases gw_stepE: "gw_step g g'"

subsection \<open>Handlers that leave the sockets alone\<close>

definition socks :: "socket list \<Rightarrow> socket list \<Rightarrow> gw \<Rightarrow> bool" where
  "socks S C g \<longleftrightarrow> gw_sockets g = S \<and> gw_closing g = C"

lemma on_world_run [act_simps]: "on_world m g = (fst (m (gw_world g)), g\<lparr>gw_world := snd (m (gw_world g))\<rparr>)"
  by (simp add: on_world_def split: prod.split)

lemma keeps_on_world [keeps_intros]: "(\<And>g w. P g \<Longrightarrow> P (g\<lparr>gw_world := w\<rparr>)) \<Longrightarrow> keeps P (on_world m)"
  by (rule keepsI) (simp add: on_world_run)

lemma socks_simps [simp]: "socks S C (g\<lparr>gw_world := w\<rparr>) = socks S C g" "socks S C (g\<lparr>gw_sent := fs\<rparr>) = socks S C g"
  by (simp_all add: socks_def)

lemma socks_sends [keeps_intros]: "keeps (socks S C) (to_room r f)" "keeps (socks S C) (send_to sid f)"
  unfolding to_room_def send_to_def by (rule keeps_modify; simp)+

lemma socks_handleDisconnect [keeps_intros]: "keeps (socks S C) (handleDisconnect e c)"
  unfolding handleDisconnect_def by (intro keeps_intros) simp

lemma socks_handleTyping [keeps_intros]: "keeps (socks S C) (handleTyping e mk c b)"
  unfolding handleTyping_def by (intro keeps_intros) simp_all

lemma socks_to_members [keeps_intros]: "keeps (socks S C) (to_members e i a f)"
  unfolding to_members_def by (intro keeps_intros) simp

lemma socks_edited [keeps_intros]: "keeps (socks S C) (emitEditedPerDevice f xs)"
  unfolding emitEditedPerDevice_def by (intro keeps_intros)

lemma socks_world: "socks S C g \<Longrightarrow> socks S C (g\<lparr>gw_world := w\<rparr>)"
  by simp

lemma socks_handlers [keeps_intros]:
  "keeps (socks S C) (onMessageCreated e xs)" "keeps (socks S C) (onReactionCreated p us)" "keeps (socks S C) (onReactionRemoved p us)"
  "keeps (socks S C) (onMessageDeleted q us)" "keeps (socks S C) (onGroupMessageDeleted e q)" "keeps (socks S C) (onPlatformTombstone e t)"
  "keeps (socks S C) (onMessageEdited ed)" "keeps (socks S C) (onGroupMessageEdited i f ds)"
  unfolding onMessageCreated_def onReactionCreated_def onReactionRemoved_def onMessageDeleted_def onGroupMessageDeleted_def
    onPlatformTombstone_def onMessageEdited_def onGroupMessageEdited_def Let_def
  by (intro keeps_intros socks_world; assumption)+

lemma socks_onEvent [keeps_intros]: "keeps (socks S C) (onEvent e ev)"
  by (cases ev) (auto intro!: keeps_intros)

lemma inv_socks: "keeps (socks S C) m \<Longrightarrow> socks S C g \<Longrightarrow> gw_inv g \<Longrightarrow> gw_inv (snd (m g))"
  by (drule (1) keepsD) (simp add: socks_def gw_inv_def)

lemma socksI: "socks (gw_sockets g) (gw_closing g) g"
  by (simp add: socks_def)

lemma inv_keeps: "(\<And>S C. keeps (socks S C) m) \<Longrightarrow> gw_inv g \<Longrightarrow> gw_inv (snd (m g))"
  by (rule inv_socks [OF _ socksI])

subsection \<open>Handlers that change the sockets\<close>

lemma inv_disconnect: "gw_inv g \<Longrightarrow> gw_inv (snd (disconnect sid g))"
  by (auto simp: gw_inv_def disconnect_def act_simps distinct_map_filter)

lemma keeps_inv_disconnect [keeps_intros]: "keeps gw_inv (disconnect sid)"
  by (rule keepsI) (rule inv_disconnect)

lemma keeps_inv_socks: "(\<And>S C. keeps (socks S C) m) \<Longrightarrow> keeps gw_inv m"
  by (rule keepsI) (rule inv_keeps)

lemma keeps_inv_sends [keeps_intros]: "keeps gw_inv (to_room r f)" "keeps gw_inv (send_to sid f)"
  by (rule keeps_inv_socks; rule socks_sends)+

lemma inv_handleUserKicked: "keeps gw_inv (handleUserKicked raw)"
  unfolding handleUserKicked_def by (intro keeps_intros)

lemma inv_accept: "gw_inv g \<Longrightarrow> sid \<notin> so_id ` set (gw_sockets g @ gw_closing g) \<Longrightarrow> gw_inv (accept sid g)"
  by (auto simp: gw_inv_def accept_def socket_ok_def)

text \<open>A socket that has just been accepted joins the two rooms of its identity.\<close>

lemma inv_joined:
  assumes "gw_inv (accept sid g)"
  shows "gw_inv ((accept sid g)\<lparr>gw_sockets := gw_sockets g @ [\<lparr>so_id = sid, so_data = Some (u, d, k), so_rooms = [User_room u, Device_room d]\<rparr>], gw_world := w'\<rparr>)"
  using assms by (auto simp: gw_inv_def accept_def socket_ok_def)

lemma update_other: "sid \<notin> so_id ` set xs \<Longrightarrow> update_where (\<lambda>s. so_id s = sid) f xs = xs"
  by (rule update_where_id) auto

lemma handleConnection_run:
  assumes "sid \<notin> so_id ` set (gw_sockets g)"
  shows "handleConnection e hs sid (accept sid g) =
    (if gw_shutting g then (Inr (), snd (disconnect sid ((accept sid g)\<lparr>gw_sent := gw_sent g @ [(sid, F_server_shutdown ''Server is shutting down'')]\<rparr>)))
     else if \<not> truthy (extractTicket hs) then (Inr (), snd (disconnect sid (accept sid g)))
     else case consumeSocketTicket e (coalesce (extractTicket hs) []) sid (gw_world g) of
       (Inl er, w1) \<Rightarrow> (Inr (), snd (disconnect sid ((accept sid g)\<lparr>gw_world := w1\<rparr>)))
     | (Inr (u, d, k), w1) \<Rightarrow> (Inr (), snd (to_room (User_room u) (F_presence_active u d)
         (g\<lparr>gw_world := snd (catch_ignore (setDeviceSocket e u d sid) w1),
            gw_sockets := gw_sockets g @ [\<lparr>so_id = sid, so_data = Some (u, d, k), so_rooms = [User_room u, Device_room d]\<rparr>]\<rparr>))))"
proof -
  have set_ok: "fst (catch_ignore (setDeviceSocket e u d sid) w) = Inr ()" for u d w
    by (simp add: catch_ignore_def act_simps split: prod.split sum.split)
  show ?thesis using assms
    by (simp add: handleConnection_def act_simps accept_def send_to_def disconnect_def update_socket_def join_def to_room_def
        update_other in_room_def set_ok split: prod.split sum.split)
qed

lemma inv_connected:
  assumes "gw_inv g" and "sid \<notin> so_id ` set (gw_sockets g @ gw_closing g)"
  shows "gw_inv (snd (handleConnection e hs sid (accept sid g)))"
proof -
  have acc: "gw_inv ((accept sid g)\<lparr>gw_sent := fs\<rparr>)" "gw_inv ((accept sid g)\<lparr>gw_world := w1\<rparr>)" "gw_inv (accept sid g)" for fs w1
    using inv_accept [OF assms] by (simp_all add: gw_inv_def)
  have joined: "gw_inv (g\<lparr>gw_world := w1, gw_sockets := gw_sockets g @ [\<lparr>so_id = sid, so_data = Some (u, d, k), so_rooms = [User_room u, Device_room d]\<rparr>]\<rparr>)" for w1 u d k
    using assms by (auto simp: gw_inv_def socket_ok_def)
  have "sid \<notin> so_id ` set (gw_sockets g)" using assms(2) by auto
  then show ?thesis using keepsD [OF keeps_inv_sends(1) joined]
    by (simp add: handleConnection_run inv_disconnect acc split: prod.split sum.split)
qed

lemma inv_shutdown: "keeps gw_inv (onModuleDestroy e)"
proof -
  have "gw_inv g \<Longrightarrow> gw_inv (g\<lparr>gw_closing := gw_closing g @ gw_sockets g, gw_sockets := []\<rparr>)" for g
    by (auto simp: gw_inv_def)
  moreover have "gw_inv g \<Longrightarrow> gw_inv (g\<lparr>gw_shutting := True, gw_sent := fs\<rparr>)" for g fs by (simp add: gw_inv_def)
  ultimately show ?thesis unfolding onModuleDestroy_def
    by (intro keeps_intros keeps_modify keeps_inv_socks) auto
qed

lemma gw_step_inv: "gw_step g g' \<Longrightarrow> gw_inv g \<Longrightarrow> gw_inv g'"
proof (induction rule: gw_step.induct)
  case (connects sid g e hs)
  then show ?case by (intro inv_connected) auto
next
  case (disconnected c g e)
  have "gw_inv (closed (so_id c) g)" using disconnected.prems by (auto simp: gw_inv_def closed_def distinct_map_filter)
  then show ?case by (rule inv_keeps [rotated]) (rule socks_handleDisconnect)
next
  case (published g p)
  then show ?case by (cases p) (auto intro!: keepsD [OF inv_handleUserKicked] simp: act_simps)
next
  case (service g w')
  then show ?case by (simp add: gw_inv_def)
qed (auto intro!: inv_disconnect inv_keeps keeps_intros keepsD [OF inv_shutdown])

lemma gw_reachable_inv: "gw_step\<^sup>*\<^sup>* g g' \<Longrightarrow> gw_inv g \<Longrightarrow> gw_inv g'"
  by (induction rule: rtranclp_induct) (auto dest: gw_step_inv)

text \<open>A room holds exactly the sockets of its user or device.\<close>

lemma in_room_identity:
  assumes "gw_inv g"
  shows "in_room g (Device_room d) = filter (\<lambda>s. socket_device s = Some d) (gw_sockets g)"
    and "in_room g (User_room u) = filter (\<lambda>s. socket_user s = Some u) (gw_sockets g)"
  using assms unfolding in_room_def gw_inv_def socket_ok_def socket_device_def socket_user_def
  by (auto intro!: filter_cong split: option.splits)

section \<open>Who receives what\<close>

lemma room_loop:
  "for_each xs (\<lambda>x. to_room (r x) (f x)) g
     = (Inr (), g\<lparr>gw_sent := gw_sent g @ concat (map (\<lambda>x. map (\<lambda>s. (so_id s, f x)) (in_room g (r x))) xs)\<rparr>)"
  by (induction xs arbitrary: g) (simp_all add: act_simps to_room_def in_room_def)

text \<open>The frames that carry an envelope, with the device each one is for.\<close>

fun device_frames :: "event \<Rightarrow> (uuid \<times> frame) list" where
  "device_frames (EvMessageCreated v) = map (\<lambda>x. (e_recipientDeviceId x, F_message_new (Direct_env x))) (v_envelopes v)"
| "device_frames (EvGroupMessageCreated v) = map (\<lambda>x. (fe_recipientDeviceId x, F_message_new (Group_env x))) (fm_envelopes v)"
| "device_frames (EvMessageEdited p ts) =
     map (\<lambda>x. (e_recipientDeviceId x, F_message_edited ((edited_frame_of p)\<lparr>ef_ciphertext := e_ciphertext x\<rparr>))) (ee_envelopes p)"
| "device_frames (EvMessageEditedGroup p) = (if truthy (ee_groupId p)
     then map (\<lambda>x. (e_recipientDeviceId x, F_message_edited ((edited_frame_of p)\<lparr>ef_messageId := None, ef_ciphertext := e_ciphertext x\<rparr>))) (ee_envelopes p)
     else [])"
| "device_frames (EvGroupFanoutEdited j xs) = (if ej_groupId j \<noteq> []
     then map (\<lambda>x. (fe_recipientDeviceId x, F_message_edited ((edited_frame_of_job j)\<lparr>ef_messageId := Some (ej_messageId j), ef_ciphertext := fe_ciphertext x\<rparr>))) xs
     else [])"
| "device_frames _ = []"

fun carries_envelopes :: "event \<Rightarrow> bool" where
  "carries_envelopes (EvMessageCreated v) = True"
| "carries_envelopes (EvGroupMessageCreated v) = True"
| "carries_envelopes (EvMessageEdited p ts) = True"
| "carries_envelopes (EvMessageEditedGroup p) = True"
| "carries_envelopes (EvGroupFanoutEdited j xs) = True"
| "carries_envelopes _ = False"

lemma room_loop_pairs:
  "for_each xs (\<lambda>(d, y). to_room (Device_room d) (f y)) g
     = (Inr (), g\<lparr>gw_sent := gw_sent g @ concat (map (\<lambda>(d, y). map (\<lambda>s. (so_id s, f y)) (in_room g (Device_room d))) xs)\<rparr>)"
  using room_loop [of xs "\<lambda>x. Device_room (fst x)" "\<lambda>x. f (snd x)" g] by (simp add: case_prod_unfold)

lemma created_run:
  "onMessageCreated e xs g = (Inr (), g\<lparr>gw_sent := gw_sent g @ concat (map (\<lambda>(t, x). map (\<lambda>s. (so_id s, F_message_new x)) (in_room g (Device_room (pt_recipientDeviceId t)))) xs),
     gw_world := snd (catch_ignore (sendMessageWakeup e (map fst xs)) (gw_world g))\<rparr>)"
proof -
  have "fst (catch_ignore m w) = Inr ()" for m w by (simp add: catch_ignore_def act_simps split: prod.split sum.split)
  then show ?thesis
    using room_loop [of xs "\<lambda>x. Device_room (pt_recipientDeviceId (fst x))" "\<lambda>x. F_message_new (snd x)" g]
    by (simp add: onMessageCreated_def case_prod_unfold act_simps)
qed

lemma carried_run:
  assumes "carries_envelopes ev"
  shows "\<exists>w1. onEvent e ev g = (Inr (), g\<lparr>gw_sent := gw_sent g @ concat (map (\<lambda>(d, f). map (\<lambda>s. (so_id s, f)) (in_room g (Device_room d))) (device_frames ev)), gw_world := w1\<rparr>)"
  using assms
  by (cases ev) (auto simp: created_run push_target_of_def onMessageEdited_def onGroupMessageEdited_def emitEditedPerDevice_def room_loop_pairs
      edited_envelopes_def edited_frame_of_def edited_frame_of_job_def truthy_def comp_def ret_run intro: exI [of _ "gw_world g"])

text \<open>C5: Message content reaches exactly the sockets of its device.  In every reachable state of the gateway, when a new or
  edited message is announced, each envelope is sent once to every socket that authenticated for the
  recipient device of that envelope, in order, and to no other socket.\<close>

theorem envelope_frames_exact:
  assumes "gw_step\<^sup>*\<^sup>* g0 g" and "gw_inv g0" and "carries_envelopes ev" and "onEvent e ev g = (r, g')"
  shows "r = Inr () \<and> gw_sent g' = gw_sent g @
    concat (map (\<lambda>(d, f). map (\<lambda>s. (so_id s, f)) (filter (\<lambda>s. socket_device s = Some d) (gw_sockets g))) (device_frames ev))"
proof -
  have "gw_inv g" by (rule gw_reachable_inv [OF assms(1,2)])
  with carried_run [OF assms(3), of e g] assms(4) show ?thesis by (auto simp: in_room_identity)
qed

text \<open>An edit of a group message through the message route reaches the clients without the identifier of the message: the
  event carries it as \<open>messageId\<close>, and the handler reads \<open>id\<close>.\<close>

lemma group_edit_without_id:
  "(d, f) \<in> set (device_frames (EvMessageEditedGroup p)) \<Longrightarrow> \<exists>x. f = F_message_edited x \<and> ef_messageId x = None"
  by (auto split: if_splits)

section \<open>A suspended user is disconnected\<close>

lemma kick_loop:
  "\<exists>C. for_each ss (\<lambda>sock. thn (send_to (so_id sock) f) (disconnect (so_id sock))) g
     = (Inr (), g\<lparr>gw_sent := gw_sent g @ map (\<lambda>s. (so_id s, f)) ss,
          gw_sockets := filter (\<lambda>s. so_id s \<notin> so_id ` set ss) (gw_sockets g), gw_closing := C\<rparr>)"
proof (induction ss arbitrary: g)
  case Nil
  then show ?case by (auto simp: act_simps intro: exI [of _ "gw_closing g"])
next
  case (Cons x ss)
  let ?g = "snd (thn (send_to (so_id x) f) (disconnect (so_id x)) g)"
  from Cons.IH [of ?g] show ?case
    by (auto simp: act_simps send_to_def disconnect_def conj_commute)
qed

lemma kicked_run:
  assumes "gw_inv g" and "t \<noteq> []"
  shows "\<exists>C. handleUserKicked (Some \<lparr>kp_userId = Some t, kp_reason = Some why\<rparr>) g =
    (Inr (), g\<lparr>gw_sent := gw_sent g @ map (\<lambda>s. (so_id s, F_user_kicked why)) (filter (\<lambda>s. socket_user s = Some t) (gw_sockets g)),
       gw_sockets := filter (\<lambda>s. socket_user s \<noteq> Some t) (gw_sockets g), gw_closing := C\<rparr>)"
proof -
  let ?ss = "filter (\<lambda>s. socket_user s = Some t) (gw_sockets g)"
  have "so_id s \<in> so_id ` set ?ss \<longleftrightarrow> socket_user s = Some t" if "s \<in> set (gw_sockets g)" for s
    using unique_row [of so_id "gw_sockets g", OF _ that] assms(1) that by (auto simp: gw_inv_def)
  then have "filter (\<lambda>s. so_id s \<notin> so_id ` set ?ss) (gw_sockets g) = filter (\<lambda>s. socket_user s \<noteq> Some t) (gw_sockets g)"
    by (intro filter_cong) auto
  then show ?thesis using kick_loop [of ?ss "F_user_kicked why" g]
    by (simp add: handleUserKicked_def act_simps truthy_def assms(2) in_room_identity [OF assms(1)])
qed

text \<open>A ticket belongs to the user of its session; \<open>createSocketTicket\<close> runs behind the bearer guard, which
  takes both from the session.\<close>

definition ticket_owner :: "db \<Rightarrow> bool" where
  "ticket_owner d \<longleftrightarrow> (\<forall>tk\<in>set (socketTickets d). \<forall>s. find_session d (tk_sessionId tk) = Some s \<longrightarrow> rt_userId s = tk_userId tk)"

lemma createSocketTicket_owner:
  assumes "canActivate e verify header w = (Inr user, w1)" and "createSocketTicket e' user dv w1 = (r, w2)" and "ticket_owner (w_db w)"
  shows "ticket_owner (w_db w2)"
proof -
  from assms(1) have w1: "w_db w1 = w_db w" and own: "\<exists>s. find_session (w_db w) (au_sessionId user) = Some s \<and> rt_userId s = au_userId user"
    by (auto simp: canActivate_def Let_def ok_simps split: if_splits prod.splits)
  have "find_session (socketTickets_update f d) i = find_session d i" for f d i by (simp add: find_session_def)
  then show ?thesis using assms(2,3) w1 own
    by (auto simp: createSocketTicket_def Let_def act_simps ticket_owner_def split: if_splits)
qed

text \<open>A connection of a user whose sessions are all revoked is refused.\<close>

lemma dead_user_cannot_connect:
  assumes "\<forall>x\<in>set (refreshTokens (w_db (gw_world g))). rt_revokedAt x = None \<longrightarrow> rt_userId x \<noteq> t" and "ticket_owner (w_db (gw_world g))"
    and "sid \<notin> so_id ` set (gw_sockets g)" and "s \<in> set (gw_sockets (snd (handleConnection e hs sid (accept sid g))))" and "socket_user s = Some t"
  shows "s \<in> set (gw_sockets g)"
proof (rule ccontr)
  assume new: "s \<notin> set (gw_sockets g)"
  from assms(4) [unfolded handleConnection_run [OF assms(3)]] new obtain u d k w1 where c: "consumeSocketTicket e (coalesce (extractTicket hs) []) sid (gw_world g) = (Inr (u, d, k), w1)"
    and s: "so_data s = Some (u, d, k)"
    by (auto simp: disconnect_def accept_def to_room_def act_simps split: if_splits prod.splits sum.splits)
  from c obtain tk ss where "find_ticket (w_db (gw_world g)) (sha256 e (coalesce (extractTicket hs) [])) = Some tk" "tk_userId tk = u"
    "find_session (w_db (gw_world g)) (tk_sessionId tk) = Some ss" "rt_revokedAt ss = None"
    by (auto simp: consumeSocketTicket_def consume_tx_def ok_simps)
  moreover have "ss \<in> set (refreshTokens (w_db (gw_world g)))" and "tk \<in> set (socketTickets (w_db (gw_world g)))"
    using calculation by (auto simp: find_session_def find_ticket_def dest: find_Some_in)
  ultimately show False using assms(1,2,5) s by (auto simp: ticket_owner_def socket_user_def)
qed

text \<open>C6: A suspension ends every live connection.  The suspension publishes a kick; when the gateway, in any reachable
  state, receives it, every socket of the target is told so and disconnected, all others stay connected, and
  whatever ticket is presented afterwards no socket of the target is admitted.\<close>

theorem suspension_disconnects:
  assumes "suspendUser e a ro t dto w = (Inr r, w')" and "redisErr e = None" and "key_inv (w_db w)" and "t \<noteq> []"
    and "gw_step\<^sup>*\<^sup>* g0 g" and "gw_inv g0" and "gw_world g = w'" and "ticket_owner (w_db w')"
  shows "\<exists>p g1. p \<in> set (w_pubs w') \<and> onPublication p g = (Inr (), g1)
    \<and> (\<forall>s\<in>set (gw_sockets g). if socket_user s = Some t then (so_id s, F_user_kicked ''SUSPENDED'') \<in> set (gw_sent g1) else s \<in> set (gw_sockets g1))
    \<and> (\<forall>s\<in>set (gw_sockets g1). socket_user s \<noteq> Some t)
    \<and> (\<forall>e' hs sid. sid \<notin> so_id ` set (gw_sockets g1) \<longrightarrow>
         (\<forall>s\<in>set (gw_sockets (snd (handleConnection e' hs sid (accept sid g1)))). socket_user s \<noteq> Some t))"
proof -
  have pub: "PubUserKicked t ''SUSPENDED'' (now e) \<in> set (w_pubs w')"
    by (rule suspendUser_ok [OF assms(1)]) (use assms(2) in simp)
  have inv: "gw_inv g" by (rule gw_reachable_inv [OF assms(5,6)])
  from kicked_run [OF inv assms(4), of "''SUSPENDED''"] obtain g1 where
    run: "onPublication (PubUserKicked t ''SUSPENDED'' (now e)) g = (Inr (), g1)" and world: "gw_world g1 = w'"
    and sent: "gw_sent g1 = gw_sent g @ map (\<lambda>s. (so_id s, F_user_kicked ''SUSPENDED'')) (filter (\<lambda>s. socket_user s = Some t) (gw_sockets g))"
    and left: "gw_sockets g1 = filter (\<lambda>s. socket_user s \<noteq> Some t) (gw_sockets g)" by (auto simp: assms(7))
  have dead: "\<forall>x\<in>set (refreshTokens (w_db (gw_world g1))). rt_revokedAt x = None \<longrightarrow> rt_userId x \<noteq> t"
    using suspended_sessions [OF assms(1,3)] by (simp add: world)
  have own: "ticket_owner (w_db (gw_world g1))" using assms(8) by (simp add: world)
  have refused: "socket_user s \<noteq> Some t" if new: "sid \<notin> so_id ` set (gw_sockets g1)"
    "s \<in> set (gw_sockets (snd (handleConnection e' hs sid (accept sid g1))))" for e' hs sid s
  proof
    assume "socket_user s = Some t"
    then have "s \<in> set (gw_sockets g1)" by (rule dead_user_cannot_connect [OF dead own new])
    with \<open>socket_user s = Some t\<close> show False by (simp add: left)
  qed
  show ?thesis
  proof (intro exI conjI)
    show "\<forall>s\<in>set (gw_sockets g). if socket_user s = Some t then (so_id s, F_user_kicked ''SUSPENDED'') \<in> set (gw_sent g1) else s \<in> set (gw_sockets g1)"
      by (auto simp: sent left)
    show "\<forall>s\<in>set (gw_sockets g1). socket_user s \<noteq> Some t" by (simp add: left)
    show "\<forall>e' hs sid. sid \<notin> so_id ` set (gw_sockets g1) \<longrightarrow>
         (\<forall>s\<in>set (gw_sockets (snd (handleConnection e' hs sid (accept sid g1)))). socket_user s \<noteq> Some t)"
      by (intro allI impI ballI) (rule refused)
  qed (fact pub run)+
qed

section \<open>Runs of the example deployment\<close>

definition demo_socket :: "string \<Rightarrow> uuid \<Rightarrow> uuid \<Rightarrow> socket" where
  "demo_socket i u d = \<lparr>so_id = i, so_data = Some (u, d, ''s''), so_rooms = [User_room u, Device_room d]\<rparr>"

definition demo_gw :: "world \<Rightarrow> gw" where
  "demo_gw w = \<lparr>gw_world = w, gw_sockets = [demo_socket ''x'' ''bob'' ''b1'', demo_socket ''y'' ''ann'' ''a2''], gw_closing = [],
     gw_sent = [], gw_shutting = False\<rparr>"

lemma demo_gw_inv: "gw_inv (demo_gw w)"
  by (simp add: gw_inv_def demo_gw_def demo_socket_def socket_ok_def)

theorem suspension_disconnects_witness:
  "\<exists>r w' p g1. suspendUser demo_env ''ann'' ADMIN ''bob'' (demo_suspend None) demo_mod_world = (Inr r, w')
     \<and> onPublication p (demo_gw w') = (Inr (), g1) \<and> (\<forall>s\<in>set (gw_sockets g1). socket_user s \<noteq> Some ''bob'')"
proof -
  have "\<not> isl (fst (suspendUser demo_env ''ann'' ADMIN ''bob'' (demo_suspend None) demo_mod_world))" by code_simp
  then obtain r w' where run: "suspendUser demo_env ''ann'' ADMIN ''bob'' (demo_suspend None) demo_mod_world = (Inr r, w')" by (rule run_okE)
  have "socketTickets (w_db (snd (suspendUser demo_env ''ann'' ADMIN ''bob'' (demo_suspend None) demo_mod_world))) = []" by code_simp
  then have own: "ticket_owner (w_db w')" by (simp add: run ticket_owner_def)
  have env: "redisErr demo_env = None" by (simp add: demo_env_def)
  have "gw_world (demo_gw w') = w'" by (simp add: demo_gw_def)
  from suspension_disconnects [OF run env demo_mod_key_inv _ rtranclp.rtrancl_refl demo_gw_inv this own] run show ?thesis by blast
qed

theorem envelope_frames_exact_witness:
  "\<exists>v w' r g'. w_events w' = [EvMessageCreated v] \<and> send demo_env ''ann'' demo_send demo_world = (Inr v, w')
     \<and> onEvent demo_env (EvMessageCreated v) (demo_gw w') = (r, g')
     \<and> map fst (gw_sent g') = concat (map (\<lambda>x. map so_id (filter (\<lambda>s. socket_device s = Some (e_recipientDeviceId x)) (gw_sockets (demo_gw w')))) (v_envelopes v))"
proof -
  obtain v w' where run: "send demo_env ''ann'' demo_send demo_world = (Inr v, w')" using demo_send_runs by (rule run_okE)
  have "w_events (snd (send demo_env ''ann'' demo_send demo_world)) = [EvMessageCreated (projr (fst (send demo_env ''ann'' demo_send demo_world)))]" by code_simp
  then have ev: "w_events w' = [EvMessageCreated v]" by (simp add: run)
  obtain r g' where on: "onEvent demo_env (EvMessageCreated v) (demo_gw w') = (r, g')" by fastforce
  from envelope_frames_exact [OF rtranclp.rtrancl_refl demo_gw_inv _ on]
  have "gw_sent g' = concat (map (\<lambda>(d, f). map (\<lambda>s. (so_id s, f)) (filter (\<lambda>s. socket_device s = Some d) (gw_sockets (demo_gw w')))) (device_frames (EvMessageCreated v)))"
    by (simp add: demo_gw_def)
  then have "map fst (gw_sent g') = concat (map (\<lambda>x. map so_id (filter (\<lambda>s. socket_device s = Some (e_recipientDeviceId x)) (gw_sockets (demo_gw w')))) (v_envelopes v))"
    by (simp add: map_concat comp_def)
  with ev run on show ?thesis by (intro exI conjI)
qed

end
