(* ===== verification/Push.thy ===== *)
theory Push
  imports Sockets Auth
begin

text \<open>
  The push worker \<open>src/push/queue/push-notification.processor.ts\<close>.  The push service of Firebase is a parameter: whether
  it is initialised, and what it answers to a multicast.  The outcome of a job says what the worker did: it
  wrote the devices to the log, did nothing, or handed a multicast to the push service.
\<close>

section \<open>\<open>PushNotificationProcessor\<close>\<close>

record multicast =
  mc_type :: string
  mc_tokens :: "string list"

record send_response =
  fs_success :: bool
  fs_error :: "(string \<times> string) option"

record batch_response =
  br_failureCount :: int
  br_responses :: "send_response list"

record fcm_provider =
  fcm_ready :: bool
  fcm_send :: "multicast \<Rightarrow> string + batch_response"

datatype push_outcome = Logged "device_row list" | Skipped | Pushed multicast

definition recipient_ids :: "push_target list \<Rightarrow> uuid list" where
  "recipient_ids envelopes = js_set (map pt_recipientDeviceId envelopes)"

definition push_devices :: "db \<Rightarrow> uuid list \<Rightarrow> device_row list" where
  "push_devices d deviceIds = filter (\<lambda>x. d_id x \<in> set deviceIds \<and> d_active x \<and> d_pushToken x \<noteq> None
     \<and> (case find_user d (d_userId x) of Some u \<Rightarrow> u_status u = ACTIVE | None \<Rightarrow> False)) (devices d)"

definition logWakeup :: "push_target list \<Rightarrow> push_outcome svc" where
  "logWakeup envelopes = dbget (\<lambda>d. Logged (push_devices d (recipient_ids envelopes)))"

definition logSilentWakeup :: "push_target list \<Rightarrow> push_outcome svc" where
  "logSilentWakeup envelopes = dbget (\<lambda>d. Logged (push_devices d (recipient_ids envelopes)))"

text \<open>A presence check that fails counts every device as online.\<close>

definition filterOnlineDevices :: "env \<Rightarrow> device_row list \<Rightarrow> device_row list svc" where
  "filterOnlineDevices e ds =
     (if ds = [] then ret []
      else catching
        (bnd (getDevicesWithSockets e (map d_id ds)) (\<lambda>online. ret (filter (\<lambda>x. d_id x \<notin> set online) ds)))
        (\<lambda>_. ret []))"

definition stale_code :: "string \<Rightarrow> bool" where
  "stale_code c \<longleftrightarrow> c = ''messaging/registration-token-not-registered'' \<or> c = ''messaging/invalid-registration-token''"

definition stale_tokens :: "batch_response \<Rightarrow> string list \<Rightarrow> string list" where
  "stale_tokens response tokens =
     map snd (filter (\<lambda>(r, t). \<not> fs_success r \<and> (case fs_error r of Some (code, msg) \<Rightarrow> stale_code code | None \<Rightarrow> False))
                     (zip (br_responses response) tokens))"

definition clear_tokens :: "string list \<Rightarrow> db \<Rightarrow> db" where
  "clear_tokens ts = devices_update (update_where (\<lambda>x. \<exists>t\<in>set ts. d_pushToken x = Some t)
     (\<lambda>x. x\<lparr>d_pushToken := None, d_pushPlatform := None, d_pushActive := False\<rparr>))"

text \<open>What both senders do after the test of readiness; they differ in the type they send.\<close>

definition send_multicast :: "env \<Rightarrow> fcm_provider \<Rightarrow> string \<Rightarrow> push_target list \<Rightarrow> push_outcome svc" where
  "send_multicast e fcm ty envelopes =
     bnd (dbget (\<lambda>d. filter (\<lambda>x. d_pushPlatform x = Some FCM \<and> truthy (d_pushToken x)) (push_devices d (recipient_ids envelopes)))) (\<lambda>candidates.
     if candidates = [] then ret Skipped
     else bnd (filterOnlineDevices e candidates) (\<lambda>fcmDevices.
       if fcmDevices = [] then ret Skipped
       else let tokens = map (\<lambda>x. coalesce (d_pushToken x) []) fcmDevices;
                message = \<lparr>mc_type = ty, mc_tokens = tokens\<rparr> in
         case fcm_send fcm message of
           Inl msg \<Rightarrow> throw (OtherError msg)
         | Inr response \<Rightarrow>
             thn (whenA (0 < br_failureCount response \<and> stale_tokens response tokens \<noteq> [])
                   (dbset (clear_tokens (stale_tokens response tokens))))
                 (ret (Pushed message))))"

definition sendFcmWakeup :: "env \<Rightarrow> fcm_provider \<Rightarrow> push_target list \<Rightarrow> push_outcome svc" where
  "sendFcmWakeup e fcm envelopes =
     (if \<not> fcm_ready fcm then logWakeup envelopes else send_multicast e fcm ''new_message'' envelopes)"

definition sendSilentFcmWakeup :: "env \<Rightarrow> fcm_provider \<Rightarrow> push_target list \<Rightarrow> string \<Rightarrow> push_outcome svc" where
  "sendSilentFcmWakeup e fcm envelopes ty =
     (if \<not> fcm_ready fcm then logSilentWakeup envelopes else send_multicast e fcm (''message_'' @ ty) envelopes)"

fun push_type :: "PushType \<Rightarrow> string" where
  "push_type P_new_message = ''new_message''"
| "push_type P_edit = ''edit''"
| "push_type P_delete = ''delete''"

definition processPush :: "env \<Rightarrow> fcm_provider \<Rightarrow> PushType \<Rightarrow> push_target list \<Rightarrow> push_outcome svc" where
  "processPush e fcm ty envelopes =
     (let provider = coalesce (PUSH_PROVIDER (cfg e)) ''logger''; silent = (ty = P_edit \<or> ty = P_delete) in
      if provider = ''fcm'' then
        if silent then sendSilentFcmWakeup e fcm envelopes (push_type ty) else sendFcmWakeup e fcm envelopes
      else if silent then logSilentWakeup envelopes else logWakeup envelopes)"

section \<open>Who is woken up\<close>

text \<open>A device that a job should wake up: a recipient, active, of an active user, with a Firebase token and without an
  open socket.\<close>

definition wakes :: "env \<Rightarrow> world \<Rightarrow> push_target list \<Rightarrow> device_row \<Rightarrow> bool" where
  "wakes e w ts x \<longleftrightarrow> d_id x \<in> pt_recipientDeviceId ` set ts \<and> d_active x \<and> d_pushPlatform x = Some FCM \<and> truthy (d_pushToken x)
     \<and> (\<exists>u. find_user (w_db w) (d_userId x) = Some u \<and> u_status u = ACTIVE)
     \<and> smembers (now e) (r_deviceSockets (w_redis w) (d_id x)) = []"

lemma offline_run:
  assumes "redisErr e = None"
  shows "filterOnlineDevices e ds w = (Inr (filter (\<lambda>x. smembers (now e) (r_deviceSockets (w_redis w) (d_id x)) = []) ds), w)"
  using assms by (auto simp: filterOnlineDevices_def getDevicesWithSockets_def redis_get_def act_simps intro!: filter_cong)

lemma no_presence_run: "redisErr e = Some msg \<Longrightarrow> filterOnlineDevices e ds w = (Inr [], w)"
  by (auto simp: filterOnlineDevices_def getDevicesWithSockets_def redis_get_def act_simps)

lemma push_candidates:
  "filter (\<lambda>x. smembers (now e) (r_deviceSockets (w_redis w) (d_id x)) = [])
     (filter (\<lambda>x. d_pushPlatform x = Some FCM \<and> truthy (d_pushToken x)) (push_devices (w_db w) (recipient_ids ts)))
   = filter (wakes e w ts) (devices (w_db w))"
  unfolding push_devices_def recipient_ids_def filter_filter
  by (rule filter_cong) (auto simp: wakes_def truthy_def split: option.splits)

lemma multicast_run:
  assumes "redisErr e = None"
  shows "send_multicast e fcm ty ts w =
    (let xs = filter (wakes e w ts) (devices (w_db w)); tokens = map (\<lambda>x. coalesce (d_pushToken x) []) xs; mc = \<lparr>mc_type = ty, mc_tokens = tokens\<rparr> in
     if xs = [] then (Inr Skipped, w)
     else case fcm_send fcm mc of
       Inl msg \<Rightarrow> (Inl (OtherError msg), w)
     | Inr response \<Rightarrow> (Inr (Pushed mc), if 0 < br_failureCount response \<and> stale_tokens response tokens \<noteq> []
          then w\<lparr>w_db := clear_tokens (stale_tokens response tokens) (w_db w)\<rparr> else w))"
proof -
  define cs where "cs = filter (\<lambda>x. d_pushPlatform x = Some FCM \<and> truthy (d_pushToken x)) (push_devices (w_db w) (recipient_ids ts))"
  have ws: "filter (wakes e w ts) (devices (w_db w)) = filter (\<lambda>x. smembers (now e) (r_deviceSockets (w_redis w) (d_id x)) = []) cs"
    unfolding cs_def push_candidates ..
  show ?thesis unfolding ws
    by (cases "cs = []") (auto simp: send_multicast_def cs_def [symmetric] offline_run [OF assms] act_simps Let_def split: sum.split)
qed

lemma multicast_no_presence: "redisErr e = Some msg \<Longrightarrow> send_multicast e fcm ty ts w = (Inr Skipped, w)"
  by (simp add: send_multicast_def no_presence_run act_simps)

lemma processPush_fcm:
  assumes "PUSH_PROVIDER (cfg e) = Some ''fcm''" and "fcm_ready fcm"
  shows "\<exists>ty'. processPush e fcm ty ts w = send_multicast e fcm ty' ts w"
  using assms by (cases ty) (auto simp: processPush_def sendFcmWakeup_def sendSilentFcmWakeup_def)


section \<open>Runs of the example deployment\<close>

text \<open>Bob's device has a Firebase token that turns out to be unregistered.\<close>

definition demo_push_env :: env where
  "demo_push_env = demo_env\<lparr>cfg := default_config\<lparr>PUSH_PROVIDER := Some ''fcm''\<rparr>\<rparr>"

definition demo_fcm :: fcm_provider where
  "demo_fcm = \<lparr>fcm_ready = True, fcm_send = (\<lambda>mc. Inr \<lparr>br_failureCount = 1,
     br_responses = map (\<lambda>_. \<lparr>fs_success = False, fs_error = Some (''messaging/invalid-registration-token'', ''gone'')\<rparr>) (mc_tokens mc)\<rparr>)\<rparr>"

definition demo_push_world :: world where
  "demo_push_world = demo_world\<lparr>w_db := devices_update (update_where (\<lambda>x. d_id x = ''b1'')
     (\<lambda>x. x\<lparr>d_pushToken := Some ''tok'', d_pushPlatform := Some FCM\<rparr>)) demo_db\<rparr>"


end
