(* ===== verification/System.thy ===== *)
theory System
  imports Routes Gateway Push
begin

text \<open>
  The whole program: a step is a request that the HTTP interface serves, a job that a worker takes from a queue, possibly
  again and in any order, a scheduled task, the start of the process, or a connection of a socket.  The state is the world;
  every client, worker and clock is chosen freely at every step.
\<close>

section \<open>Workers and scheduled tasks\<close>

fun work :: "env \<Rightarrow> outside \<Rightarrow> fcm_provider \<Rightarrow> job \<Rightarrow> unit svc" where
  "work e o' fcm (Fanout j) = call (processGroupFanout e j)"
| "work e o' fcm (EditFanout j) = call (processGroupEditFanout e j)"
| "work e o' fcm (ReactionFanout j) = call (processReactionFanout e j)"
| "work e o' fcm (UnreadRecalc j) = call (processUnreadRecalc j)"
| "work e o' fcm (PushNotification ty ts) = call (processPush e fcm ty ts)"
| "work e o' fcm (StorageCleanup k) = call (processStorageCleanup (o_del o') k)"
| "work e o' fcm (TelegramOtp h p c) = call (processTelegramOtp e (o_tg o') h p c)"

datatype task = Prune | Media_cleanup | Reactivate | Rollup_yesterday | Bootstrap "string option" string

fun run_task :: "env \<Rightarrow> outside \<Rightarrow> task \<Rightarrow> unit svc" where
  "run_task e o' Prune = processPrune e"
| "run_task e o' Media_cleanup = call (processMediaCleanup e (o_del o'))"
| "run_task e o' Reactivate = reactivateExpired e"
| "run_task e o' Rollup_yesterday = rollupYesterday e (o_null o')"
| "run_task e o' (Bootstrap hashes pepper) = onApplicationBootstrap e hashes pepper"

inductive system_step :: "world \<Rightarrow> world \<Rightarrow> bool" where
  request: "serve e o' header req w = (r, w') \<Longrightarrow> system_step w w'"
| work: "j \<in> set (w_jobs w) \<Longrightarrow> work e o' fcm j w = (r, w') \<Longrightarrow> system_step w w'"
| finished: "system_step w (w\<lparr>w_jobs := remove1 j (w_jobs w)\<rparr>)"
| scheduled: "run_task e o' t w = (r, w') \<Longrightarrow> system_step w w'"
| ticket: "consumeSocketTicket e tk sock w = (r, w') \<Longrightarrow> system_step w w'"
| connect: "setDeviceSocket e u d sock w = (r, w') \<Longrightarrow> system_step w w'"
| leave: "removeDeviceSocket e u d sock w = (r, w') \<Longrightarrow> system_step w w'"

inductive_cases system_stepE: "system_step w w'"

section \<open>The message tables stay sound\<close>

text \<open>Writes to any other table\<close>

lemma chat_frames [kdb_intros]:
  "kdb chat_inv (dbset (users_update f1))" "kdb chat_inv (dbset (devices_update f2))" "kdb chat_inv (dbset (signedPrekeys_update f3))"
  "kdb chat_inv (dbset (oneTimePrekeys_update f4))" "kdb chat_inv (dbset (messageMedia_update f5))" "kdb chat_inv (dbset (refreshTokens_update f6))"
  "kdb chat_inv (dbset (socketTickets_update f7))" "kdb chat_inv (dbset (backupBlobs_update f8))" "kdb chat_inv (dbset (otps_update f9))"
  "kdb chat_inv (dbset (smsReports_update f10))" "kdb chat_inv (dbset (telegramLinks_update f11))" "kdb chat_inv (dbset (groups_update f12))"
  "kdb chat_inv (dbset (groupMembers_update f13))" "kdb chat_inv (dbset (messageReactions_update f14))" "kdb chat_inv (dbset (reports_update f15))"
  "kdb chat_inv (dbset (userSuspensions_update f16))" "kdb chat_inv (dbset (adminAuditLog_update f17))" "kdb chat_inv (dbset (dailyMetrics_update f18))"
  "kdb chat_inv (dbset (unreadCounters_update f19))" "kdb chat_inv (dbset (hiddenMessages_update f20))"
  by (rule kdb_same_chat; simp add: same_chat_def)+

lemma chat_messages: "kdb chat_inv (messages_route e u r)"
  by (cases r) (auto simp: getPending_def getCounts_def sync_def Let_def intro!: kdb_intros kdb_send)

lemma chat_helpers [kdb_intros]:
  "kdb chat_inv (insert_members ms)" "kdb P (setGroupMemberIds e g ids)" "kdb P (invalidateGroupMemberIds e g)" "kdb P (assertGroupAdmin u g)" "kdb chat_inv (upsert_reaction e u mid em)"
  "kdb chat_inv (dbset (delete_reaction i))" "kdb chat_inv (insert_prekey_skip e dv p)" "kdb chat_inv (dbset (consume_prekeys e ps))"
  unfolding insert_members_def setGroupMemberIds_def invalidateGroupMemberIds_def assertGroupAdmin_def upsert_reaction_def delete_reaction_def insert_prekey_skip_def consume_prekeys_def Let_def
  by (intro kdb_intros)+

lemma chat_groups: "kdb chat_inv (groups_route e u r)"
proof (cases r)
  case (PostGroup dto)
  then show ?thesis unfolding PostGroup groups_route.simps createGroup_def by (intro kdb_intros kdb_tx_body)
qed (auto simp: findGroupsByUser_def findByIdWithMembers_def getGroupMessages_def updateGroupMetadata_def addMembers_def removeMember_def Let_def intro!: kdb_intros kdb_tx_body)

lemma chat_threads: "kdb chat_inv (threads_route u r)"
  by (cases r) (auto simp: findByUserWithDetails_def findByIdWithDetails_def getThreadMessages_def Let_def intro!: kdb_intros)

lemma chat_reactions: "kdb chat_inv (reactions_route e u r)"
  by (cases r) (auto simp: toggle_def removeReaction_def getAggregated_def toggle_tx_def remove_tx_def Let_def intro!: kdb_intros kdb_tx_body)

lemma chat_media: "kdb chat_inv (media_route e c u r)"
  by (cases r) (auto simp: initUpload_def completeUpload_def getDownloadUrl_def Let_def intro!: kdb_intros)

lemma chat_devices: "kdb chat_inv (devices_route e u r)"
  by (cases r) (auto simp: registerDevice_def register_tx_def create_device_def listDevices_def deactivate_def Let_def intro!: kdb_intros kdb_tx_body)

lemma chat_prekeys: "kdb chat_inv (prekeys_route e u r)"
  by (cases r) (auto simp: getCount_def refill_def rotateSignedPrekey_def rotate_tx_def Let_def intro!: kdb_intros kdb_tx_body)

lemma chat_users: "kdb chat_inv (users_route e u r)"
  by (cases r) (auto simp: getDeviceKeyBundles_def syncContacts_def updateProfile_def getMe_def searchByUsername_def Let_def intro!: kdb_intros kdb_tx_body)

lemma chat_storage: "kdb chat_inv (storage_route o' u r)" "kdb chat_inv (backups_route e c u b)"
  by (cases r, auto simp: getPresignedUploadUrl_def getObjectUrl_def deleteStoredObject_def Let_def intro!: kdb_intros)
     (cases b, auto simp: getBackupUploadUrl_def putCurrent_def upsert_backup_def getCurrent_def getMetadata_def Let_def intro!: kdb_intros)

lemma chat_otp [kdb_intros]: "kdb chat_inv (requestLoginOtp e rnd p)" "kdb chat_inv (verifyOtp e p c)"
  unfolding requestLoginOtp_def requestOtp_def verifyOtp_def Let_def by (intro kdb_intros kdb_tx_body)+

lemma chat_tokens [kdb_intros]: "kdb chat_inv (dbset (revoke_tokens e p))" "kdb chat_inv (revokeTokenFamily e h')" "kdb chat_inv (findOrCreateUser e phone h)"
  "kdb P (throwIfSuspended e u)" "kdb chat_inv (issueTokenPair e u fam mt)"
  unfolding revokeTokenFamily_def revoke_tokens_def findOrCreateUser_def throwIfSuspended_def issueTokenPair_def Let_def by (intro kdb_intros kdb_tx_body)+

lemma chat_login [kdb_intros]: "kdb chat_inv (verifyLoginOtp e p c mt)" "kdb chat_inv (refresh e tok mt)" "kdb chat_inv (logout e user t dv)"
  unfolding verifyLoginOtp_def refresh_def logout_def Let_def by (intro kdb_intros kdb_tx_body)+

lemma chat_tickets [kdb_intros]: "kdb chat_inv (createSocketTicket e user dv)" "kdb chat_inv (consumeSocketTicket e tk sock)"
  unfolding createSocketTicket_def consumeSocketTicket_def consume_tx_def Let_def by (intro kdb_intros kdb_tx_body)+

lemma chat_auth: "kdb chat_inv (auth_route e rnd r)"
  by (cases r) (auto intro!: kdb_intros)

lemma chat_reports: "kdb chat_inv (reports_route e u r)"
  by (cases r) (auto simp: createReport_def upsert_report_def listMine_def Let_def intro!: kdb_intros)

lemma chat_moderation [kdb_intros]:
  "kdb chat_inv (audit e a ac ty i r md)" "kdb chat_inv (update_report i f)" "kdb chat_inv (update_user i g)" "kdb chat_inv (update_suspension i h)"
  unfolding audit_def update_report_def update_user_def update_suspension_def by (intro kdb_intros)+

lemma chat_messages_marked [kdb_intros]:
  "kdb chat_inv (dbset (messages_update (tombstone t mid)))" "kdb chat_inv (dbset (messages_update (restore_message mid)))"
  "kdb chat_inv (tombstone_all e a i ids)"
  unfolding restore_message_def tombstone_all_def close_reports_def
  by (intro kdb_intros kdb_same_chat same_chat_tombstone same_chat_update_messages; simp add: msg_core_def)+

lemma chat_closing [kdb_intros]: "kdb chat_inv (cascadeCloseReports e m i u res)" "kdb chat_inv (close_reports e u res p)" "kdb chat_inv (close_trigger e u ri)"
  unfolding cascadeCloseReports_def close_reports_def close_trigger_def by (intro kdb_intros)+

lemma chat_admin_reports:
  "kdb chat_inv (listReports q)" "kdb chat_inv (getReportById i)" "kdb chat_inv (markInReview e u i)" "kdb chat_inv (dismiss e u i r)"
  "kdb chat_inv (tombstoneMessage e u ro i dto)" "kdb chat_inv (untombstoneMessage e u ro i r)"
  unfolding listReports_def getReportById_def markInReview_def dismiss_def tombstoneMessage_def tombstone_tx_def untombstoneMessage_def Let_def
  by (intro kdb_intros kdb_tx_body)+

lemma chat_lift [kdb_intros]: "kdb chat_inv (lift_suspension e i u t a r md)" "kdb chat_inv (create_suspension e target a' dto)"
  unfolding lift_suspension_def create_suspension_def by (intro kdb_intros kdb_tx_body)+

lemma chat_admin_users:
  "kdb chat_inv (suspendUser e u ro i dto)" "kdb chat_inv (unsuspendUser e u ro i r)" "kdb chat_inv (listSuspensions i n)" "kdb chat_inv (getDetail i)"
  "kdb chat_inv (searchUsers q ro' st n')" "kdb chat_inv (changeUserRole e u ro i nr r)" "kdb chat_inv (resetStrikes e u ro i why)"
  unfolding suspendUser_def suspend_tx_def suspend_cascade_def unsuspendUser_def listSuspensions_def getDetail_def searchUsers_def changeUserRole_def resetStrikes_def Let_def
  by (intro kdb_intros kdb_tx_body)+

lemma chat_metric [kdb_intros]: "kdb chat_inv (upsert_metric e nl dt row)"
  by (cases row; cases nl) (auto simp: upsert_metric_def create_metric_def intro!: kdb_intros)

lemma chat_metrics [kdb_intros]: "kdb chat_inv (rollupDay e nl dt)" "kdb chat_inv (series e q)"
  unfolding rollupDay_def series_def Let_def by (intro kdb_intros kdb_tx_body)+

lemma chat_admin: "kdb chat_inv (admin_route e nl u r)"
  by (cases r) (auto simp: admin_rollup_def audit_list_def Let_def intro!: kdb_intros chat_admin_reports chat_admin_users)

lemma chat_update [kdb_intros]: "kdb chat_inv (handleUpdate e upd)"
  by (cases upd) (auto simp: onContact_def intro!: kdb_intros)

lemma chat_serve: "kdb chat_inv (serve e o' header req)"
proof -
  have "kdb chat_inv (handler e o' u req)" for u
    by (cases req) (auto simp: logout_route_def realtime_route_def handleWebhook_def roleCanActivate_def
        intro!: kdb_intros chat_auth chat_messages chat_groups chat_threads chat_reactions chat_media chat_devices chat_prekeys chat_users chat_storage chat_reports chat_admin)
  then show ?thesis unfolding serve_def canActivate_def Let_def by (intro kdb_intros)
qed

lemma chat_edit_fanout [kdb_intros]: "kdb chat_inv (processGroupEditFanout e j)"
  unfolding processGroupEditFanout_def update_in_chunks_def update_chunk_def edit_envelopes_def Let_def
  by (intro kdb_intros kdb_same_chat same_chat_update_envelopes) (simp add: env_core_def)

lemma chat_worker_helpers [kdb_intros]:
  "kdb P (processReactionFanout e rj)" "kdb P (filterOnlineDevices e ds)" "kdb chat_inv (dbset (clear_tokens ts))"
  "kdb P (processStorageCleanup del k)" "kdb chat_inv (create_sms_report e h ok er)"
  unfolding processReactionFanout_def group_member_ids_def getGroupMemberIds_def filterOnlineDevices_def getDevicesWithSockets_def
    clear_tokens_def processStorageCleanup_def create_sms_report_def Let_def
  by (intro kdb_intros)+

lemma chat_work: "kdb chat_inv (work e o' fcm j)"
proof (cases j)
  case (PushNotification ty ts)
  then show ?thesis
    by (auto simp: processPush_def sendSilentFcmWakeup_def sendFcmWakeup_def logWakeup_def logSilentWakeup_def send_multicast_def Let_def
        split: sum.split intro!: kdb_intros)
qed (auto simp: processTelegramOtp_def sendOtp_def Let_def intro!: kdb_intros)

lemma chat_reactivate [kdb_intros]: "kdb chat_inv (reactivate_all e t ss n)"
  by (rule kdb_reactivate_all) (auto simp: reactivateOne_def intro!: kdb_intros kdb_tx_body)

lemma chat_tasks: "kdb chat_inv (run_task e o' t)"
proof (cases t)
  case Prune
  have "same_chat d (prune_db e d)" for d by (simp add: same_chat_def prune_db_def Let_def)
  then show ?thesis by (auto simp: Prune processPrune_def intro!: kdb_tx_body kdb_same_chat)
qed (auto simp: processMediaCleanup_def reactivateExpired_def runReactivation_def rollupYesterday_def onApplicationBootstrap_def bootstrap_one_def Let_def intro!: kdb_intros)

lemma chat_sockets: "kdb P (setDeviceSocket e u d s)" "kdb P (removeDeviceSocket e u d s)"
  unfolding setDeviceSocket_def pruneStaleSockets_def removeDeviceSocket_def Let_def by (intro kdb_intros)+

lemma chat_step: "system_step w w' \<Longrightarrow> chat_inv (w_db w) \<Longrightarrow> chat_inv (w_db w')"
  by (erule system_stepE)
     (auto dest: kdb_result [OF chat_serve] kdb_result [OF chat_work] kdb_result [OF chat_tasks] kdb_result [OF chat_tickets(2)]
        kdb_result [OF chat_sockets(1), where P = chat_inv] kdb_result [OF chat_sockets(2), where P = chat_inv])

end
