(* ===== verification/System_Accounts.thy ===== *)
theory System_Accounts
  imports System
begin

text \<open>
  Invariants over the whole program.  Most of the program never writes accounts, suspensions, the audit log, devices, one-time prekeys,
  refresh tokens or socket tickets, and changes messages in two ways only.  The locale \<open>program_inv\<close> lists what is done to those tables, as
  what is left to show for a predicate on them, and derives that every step of the program keeps it.  A predicate on what users and moderators see has
  nothing to show about devices and sessions (\<open>content_inv\<close>), and one on accounts and suspensions alone needs less still (\<open>account_inv\<close>).
\<close>

text \<open>What never changes of a message, and a change that at most marks it as edited or deleted\<close>

definition msg_ident :: "message_row \<Rightarrow> message_row" where
  "msg_ident m = m\<lparr>m_deletedAt := None, m_editedAt := None, m_lastEditIdempotencyKey := None\<rparr>"

definition only_marks :: "(message_row \<Rightarrow> message_row) \<Rightarrow> bool" where
  "only_marks f \<longleftrightarrow> (\<forall>m. msg_ident (f m) = msg_ident m \<and> (m_deletedAt m \<noteq> None \<longrightarrow> m_deletedAt (f m) \<noteq> None))"

lemma only_marks_intros:
  "only_marks (\<lambda>m. m\<lparr>m_deletedAt := Some t\<rparr>)" "only_marks (\<lambda>m. m\<lparr>m_editedAt := x, m_lastEditIdempotencyKey := k\<rparr>)"
  by (simp_all add: only_marks_def msg_ident_def)

locale program_inv =
  fixes P :: "db \<Rightarrow> bool"
  assumes frame: "\<And>d d'. users d' = users d \<Longrightarrow> userSuspensions d' = userSuspensions d \<Longrightarrow> messages d' = messages d
      \<Longrightarrow> adminAuditLog d' = adminAuditLog d \<Longrightarrow> devices d' = devices d \<Longrightarrow> oneTimePrekeys d' = oneTimePrekeys d
      \<Longrightarrow> refreshTokens d' = refreshTokens d \<Longrightarrow> socketTickets d' = socketTickets d \<Longrightarrow> P d \<Longrightarrow> P d'"
    and logged: "\<And>row. kdb P (dbset (adminAuditLog_update (\<lambda>xs. xs @ [row])))"
    and stored: "\<And>m. kdb P (dbset (messages_update (\<lambda>ms. ms @ [m])))"
    and marked: "\<And>p f. only_marks f \<Longrightarrow> kdb P (dbset (messages_update (update_where p f)))"
    and moderation: "\<And>w w'. mod_step w w' \<Longrightarrow> P (w_db w) \<Longrightarrow> P (w_db w')"
    and profile: "\<And>e u dto. kdb P (updateProfile e u dto)"
    and registering: "\<And>e u dto. kdb P (registerDevice e u dto)"
    and device: "\<And>p f. (\<And>x. d_id (f x) = d_id x) \<Longrightarrow> kdb P (dbset (devices_update (update_where p f)))"
    and stocking: "\<And>e dv k. kdb P (insert_prekey_skip e dv k)"
    and handing: "\<And>e ks. kdb P (dbset (consume_prekeys e ks))"
    and revoking: "\<And>e p. kdb P (dbset (revoke_tokens e p))"
    and issuing: "\<And>e u mt fam. kdb P (issueTokenPair e u mt fam)"
    and ticketing: "\<And>e user dv. kdb P (createSocketTicket e user dv)"
    and consuming: "\<And>e tk sock. kdb P (consumeSocketTicket e tk sock)"
    and pruning: "\<And>e. kdb P (processPrune e)"
begin

declare logged [kdb_intros] stored [kdb_intros] registering [kdb_intros] stocking [kdb_intros] handing [kdb_intros] revoking [kdb_intros]
  issuing [kdb_intros] ticketing [kdb_intros] consuming [kdb_intros] pruning [kdb_intros]

lemma write_other: "(\<And>d. users (f d) = users d) \<Longrightarrow> (\<And>d. userSuspensions (f d) = userSuspensions d) \<Longrightarrow> (\<And>d. messages (f d) = messages d)
   \<Longrightarrow> (\<And>d. adminAuditLog (f d) = adminAuditLog d) \<Longrightarrow> (\<And>d. devices (f d) = devices d) \<Longrightarrow> (\<And>d. oneTimePrekeys (f d) = oneTimePrekeys d)
   \<Longrightarrow> (\<And>d. refreshTokens (f d) = refreshTokens d) \<Longrightarrow> (\<And>d. socketTickets (f d) = socketTickets d) \<Longrightarrow> kdb P (dbset f)"
  by (rule kdb_dbset) (rule frame)

lemma frames [kdb_intros]:
  "kdb P (dbset (signedPrekeys_update f3))" "kdb P (dbset (messageMedia_update f5))" "kdb P (dbset (backupBlobs_update f8))" "kdb P (dbset (otps_update f9))"
  "kdb P (dbset (smsReports_update f10))" "kdb P (dbset (telegramLinks_update f11))" "kdb P (dbset (groups_update f12))"
  "kdb P (dbset (groupMembers_update f13))" "kdb P (dbset (messageReactions_update f14))" "kdb P (dbset (reports_update f15))"
  "kdb P (dbset (dailyMetrics_update f18))" "kdb P (dbset (unreadCounters_update f19))" "kdb P (dbset (hiddenMessages_update f20))"
  "kdb P (dbset (messageEnvelopes_update f22))" "kdb P (dbset (directThreads_update f23))"
  by (rule write_other; simp)+

lemma marking [kdb_intros]: "kdb P (dbset (messages_update (tombstone t mid)))" "kdb P (mark_edited e mid key)" "kdb P (audit_write e a ac ty i rsn md)"
  unfolding tombstone_def mark_edited_def audit_write_def Let_def by (intro kdb_intros marked only_marks_intros)+

lemma helpers [kdb_intros]:
  "kdb P (create_message m)" "kdb P (create_envelope e mid usr dev ct)" "kdb P (create_thread e a b)" "kdb P (upsert_thread e a b)" "kdb P (increment_thread e th)"
  "kdb P (assertAttachmentsOwned e u ids)" "kdb P (attach_media u' ids' mid')" "kdb P (cloneMediaForForward e u'' mid'' md)"
  unfolding create_message_def create_envelope_def create_thread_def upsert_thread_def increment_thread_def assertAttachmentsOwned_def attach_media_def
    cloneMediaForForward_def Let_def
  by (intro kdb_intros)+

lemma direct_envelopes [kdb_intros]: "kdb P (create_direct_envelopes e mid ms r s es)"
  unfolding create_direct_envelopes_def by (intro kdb_intros)

lemma counters [kdb_intros]: "kdb P (dbset (upsert_counter u ty t n))" "kdb P (dbset (upsert_hidden u m))" "kdb P (markAllRead e u t ty)"
  unfolding markAllRead_def
  by ((intro kdb_intros kdb_tx_body)?, (rule write_other; simp add: upsert_counter_def upsert_hidden_def)+)+

lemma sending [kdb_intros]: "kdb P (send e u dto)"
  unfolding send_def send_attempt_def send_duplicate_def send_committed_def send_tx_def Let_def
  by (intro kdb_intros kdb_tx_body)

lemma forwarding [kdb_intros]: "kdb P (forward e u dto)"
  unfolding forward_def
  by (intro kdb_intros) (auto simp: forward_one_def forwardToDirect_def forwardToGroup_def forward_direct_tx_def forward_group_tx_def Let_def split: ThreadType.split prod.split intro!: kdb_intros kdb_tx_body)

lemma messages: "kdb P (messages_route e u r)"
  by (cases r) (auto simp: getPending_def getCounts_def sync_def ack_def ack_all_def ack_one_def markAllReadMessages_def edit_def refresh_envelope_def Let_def
     delete_def delete_tx_def intro!: kdb_intros kdb_tx_body split: DeleteScope.split)

lemma group_messages [kdb_intros]: "kdb P (queueGroupMessage e u g dto)" "kdb P (editGroupMessage e u g mid dto')"
  unfolding queueGroupMessage_def group_tx_def editGroupMessage_def Let_def by (intro kdb_intros kdb_tx_body)+

lemma membership [kdb_intros]: "kdb P (insert_members ms)" "kdb P (updateGroupMetadata e u g md)" "kdb P (addMembers e u g ids)" "kdb P (removeMember e u g t)"
  unfolding insert_members_def updateGroupMetadata_def addMembers_def removeMember_def Let_def by (intro kdb_intros kdb_tx_body)+

lemma groups: "kdb P (groups_route e u r)"
  by (cases r) (auto simp: findGroupsByUser_def findByIdWithMembers_def getGroupMessages_def createGroup_def Let_def intro!: kdb_intros kdb_tx_body)

lemma conversations: "kdb P (threads_route u r)" "kdb P (media_route e c u m)"
  by (cases r, auto simp: findByUserWithDetails_def findByIdWithDetails_def getThreadMessages_def Let_def intro!: kdb_intros)
     (cases m, auto simp: initUpload_def completeUpload_def getDownloadUrl_def Let_def intro!: kdb_intros)

lemma reactions: "kdb P (reactions_route e u r)"
  by (cases r) (auto simp: toggle_def removeReaction_def getAggregated_def toggle_tx_def remove_tx_def upsert_reaction_def delete_reaction_def Let_def intro!: kdb_intros kdb_tx_body)

lemma devices: "kdb P (devices_route e u r)" "kdb P (prekeys_route e u p)"
  by (cases r, auto simp: listDevices_def deactivate_def Let_def intro!: kdb_intros kdb_tx_body device)
     (cases p, auto simp: getCount_def refill_def rotateSignedPrekey_def rotate_tx_def Let_def intro!: kdb_intros kdb_tx_body)

lemma users: "kdb P (users_route e u r)"
  by (cases r) (auto simp: getDeviceKeyBundles_def syncContacts_def getMe_def searchByUsername_def Let_def intro!: kdb_intros kdb_tx_body profile)

lemma storage: "kdb P (storage_route o' u r)" "kdb P (backups_route e c u b)"
  by (cases r, auto simp: getPresignedUploadUrl_def getObjectUrl_def deleteStoredObject_def Let_def intro!: kdb_intros)
     (cases b, auto simp: getBackupUploadUrl_def putCurrent_def upsert_backup_def getCurrent_def getMetadata_def Let_def intro!: kdb_intros)

lemma mod_kdb: "(\<And>w r w'. m w = (r, w') \<Longrightarrow> mod_step w w') \<Longrightarrow> kdb P m"
  by (rule kdbI) (metis moderation prod.collapse)

lemma mod_services [kdb_intros]:
  "kdb P (createReport e u dto ip)" "kdb P (markInReview e a i)" "kdb P (dismiss e a i rsn)" "kdb P (tombstoneMessage e a ro m td)"
  "kdb P (untombstoneMessage e a ro m rsn)" "kdb P (suspendUser e a ro u sd)" "kdb P (unsuspendUser e a ro u rsn)" "kdb P (resetStrikes e a ro u rs)"
  "kdb P (changeUserRole e a ro u nr rsn)" "kdb P (reactivateExpired e)" "kdb P (onApplicationBootstrap e raw op)" "kdb P (verifyLoginOtp e p c mt)"
  by (rule mod_kdb, erule mod_step.intros)+

lemma sessions [kdb_intros]:
  "kdb P (revokeTokenFamily e h)" "kdb P (requestLoginOtp e rnd ph)"
  unfolding revokeTokenFamily_def requestLoginOtp_def requestOtp_def Let_def by (intro kdb_intros kdb_tx_body)+

lemma logins [kdb_intros]: "kdb P (refresh e tok mt)" "kdb P (logout e user t dv)"
  unfolding refresh_def logout_def Let_def by (intro kdb_intros kdb_tx_body device; simp)+

lemma reading_reports: "kdb P (reports_route e u r)" "kdb P (auth_route e rnd a)"
  by (cases r, auto simp: listMine_def Let_def intro!: kdb_intros) (cases a, auto intro!: kdb_intros)

lemma metrics [kdb_intros]: "kdb P (upsert_metric e nl dt row)" "kdb P (rollupDay e nl dt')"
proof -
  show metric: "kdb P (upsert_metric e nl dt row)" for dt row
    by (cases row; cases nl) (auto simp: upsert_metric_def create_metric_def intro!: kdb_intros)
  show "kdb P (rollupDay e nl dt')" unfolding rollupDay_def Let_def by (intro kdb_intros kdb_tx_body metric)
qed

lemma admin: "kdb P (admin_route e nl u r)"
  by (cases r) (auto simp: listReports_def getReportById_def listSuspensions_def getDetail_def searchUsers_def series_def audit_list_def admin_rollup_def Let_def
     intro!: kdb_intros)

lemma served: "kdb P (serve e o' header req)"
proof -
  have upd: "kdb P (handleUpdate e upd)" for upd by (cases upd) (auto simp: onContact_def intro!: kdb_intros)
  have "kdb P (handler e o' u req)" for u
    by (cases req) (auto simp: logout_route_def realtime_route_def handleWebhook_def roleCanActivate_def
        intro!: kdb_intros upd messages groups conversations reactions devices users storage reading_reports admin)
  then show ?thesis unfolding serve_def canActivate_def Let_def by (intro kdb_intros)
qed

lemma fanouts [kdb_intros]: "kdb P (processGroupFanout e j)" "kdb P (processGroupEditFanout e k)" "kdb P (processUnreadRecalc u)"
  unfolding processGroupFanout_def create_many_envelopes_def insert_envelope_skip_def processGroupEditFanout_def update_in_chunks_def update_chunk_def processUnreadRecalc_def Let_def
  by (intro kdb_intros)+

lemma worked: "kdb P (work e o' fcm j)"
proof (cases j)
  case (PushNotification ty ts)
  have "kdb P (dbset (clear_tokens xs))" for xs unfolding clear_tokens_def by (intro device) simp
  then show ?thesis
    by (auto simp: PushNotification processPush_def sendSilentFcmWakeup_def sendFcmWakeup_def logWakeup_def logSilentWakeup_def send_multicast_def Let_def
        split: sum.split intro!: kdb_intros)
qed (auto simp: processTelegramOtp_def sendOtp_def create_sms_report_def Let_def intro!: kdb_intros)

lemma scheduled_tasks: "kdb P (run_task e o' t)"
  by (cases t) (auto simp: processMediaCleanup_def rollupYesterday_def Let_def intro!: kdb_intros)

lemma step: "system_step w w' \<Longrightarrow> P (w_db w) \<Longrightarrow> P (w_db w')"
  by (erule system_stepE)
     (auto dest: kdb_result [OF served] kdb_result [OF worked] kdb_result [OF scheduled_tasks] kdb_result [OF consuming]
        kdb_result [OF chat_sockets(1), where P = P] kdb_result [OF chat_sockets(2), where P = P])

lemma reachable: "system_step\<^sup>*\<^sup>* w w' \<Longrightarrow> P (w_db w) \<Longrightarrow> P (w_db w')"
  by (induction rule: rtranclp_induct) (auto intro: step)

end

section \<open>Predicates on what users and moderators see\<close>

text \<open>A predicate on accounts, suspensions, messages and the audit log has nothing to show about devices, keys, sessions and tickets.\<close>

locale content_inv =
  fixes P :: "db \<Rightarrow> bool"
  assumes content_frame: "\<And>d d'. users d' = users d \<Longrightarrow> userSuspensions d' = userSuspensions d \<Longrightarrow> messages d' = messages d
      \<Longrightarrow> adminAuditLog d' = adminAuditLog d \<Longrightarrow> P d \<Longrightarrow> P d'"
    and content_logged: "\<And>row. kdb P (dbset (adminAuditLog_update (\<lambda>xs. xs @ [row])))"
    and content_stored: "\<And>m. kdb P (dbset (messages_update (\<lambda>ms. ms @ [m])))"
    and content_marked: "\<And>p f. only_marks f \<Longrightarrow> kdb P (dbset (messages_update (update_where p f)))"
    and content_moderation: "\<And>w w'. mod_step w w' \<Longrightarrow> P (w_db w) \<Longrightarrow> P (w_db w')"
    and content_profile: "\<And>e u dto. kdb P (updateProfile e u dto)"
begin

lemma content_write: "(\<And>d. users (f d) = users d) \<Longrightarrow> (\<And>d. userSuspensions (f d) = userSuspensions d) \<Longrightarrow> (\<And>d. messages (f d) = messages d)
   \<Longrightarrow> (\<And>d. adminAuditLog (f d) = adminAuditLog d) \<Longrightarrow> kdb P (dbset f)"
  by (rule kdb_dbset) (rule content_frame)

lemma content_writes [kdb_intros]:
  "kdb P (dbset (devices_update f1))" "kdb P (dbset (signedPrekeys_update f2))" "kdb P (dbset (oneTimePrekeys_update f3))"
  "kdb P (dbset (refreshTokens_update f4))" "kdb P (dbset (socketTickets_update f5))"
  by (rule content_write; simp)+

lemma content_credentials:
  "kdb P (registerDevice e u dto)" "kdb P (insert_prekey_skip e dv k)" "kdb P (dbset (consume_prekeys e ks))" "kdb P (dbset (revoke_tokens e p))"
  "kdb P (issueTokenPair e u mt fam)" "kdb P (createSocketTicket e user dv)" "kdb P (consumeSocketTicket e tk sock)"
  unfolding registerDevice_def register_tx_def create_device_def insert_prekey_skip_def consume_prekeys_def revoke_tokens_def issueTokenPair_def
    createSocketTicket_def consumeSocketTicket_def consume_tx_def Let_def
  by (intro kdb_intros kdb_tx_body)+

lemma content_pruned: "kdb P (processPrune e)"
  unfolding processPrune_def by (rule kdb_tx_body, rule content_write) (simp_all add: prune_db_def Let_def)

end

sublocale content_inv \<subseteq> program_inv P
  by unfold_locales (rule content_frame, assumption+ | rule content_moderation, assumption+ | rule content_marked, assumption
    | rule content_logged content_stored content_profile content_credentials content_pruned content_writes)+

locale account_inv =
  fixes P :: "db \<Rightarrow> bool"
  assumes account_frame: "\<And>d d'. users d' = users d \<Longrightarrow> userSuspensions d' = userSuspensions d \<Longrightarrow> P d \<Longrightarrow> P d'"
    and account_moderation: "\<And>w w'. mod_step w w' \<Longrightarrow> P (w_db w) \<Longrightarrow> P (w_db w')"
    and account_profile: "\<And>e u dto. kdb P (updateProfile e u dto)"
begin

lemma account_write: "(\<And>d. users (f d) = users d) \<Longrightarrow> (\<And>d. userSuspensions (f d) = userSuspensions d) \<Longrightarrow> kdb P (dbset f)"
  by (rule kdb_dbset) (rule account_frame)

end

sublocale account_inv \<subseteq> content_inv P
  by unfold_locales (auto intro: account_frame account_moderation account_profile account_write)

section \<open>Suspensions\<close>

interpretation susp: account_inv susp_inv
proof
  show "susp_inv d'" if "users d' = users d" "userSuspensions d' = userSuspensions d" "susp_inv d" for d d'
    using that by (simp add: susp_inv_def)
  show "susp_inv (w_db w')" if "mod_step w w'" "susp_inv (w_db w)" for w w'
    using that by (rule susp_step [rotated])
  show "kdb susp_inv (updateProfile e u dto)" for e u dto
    unfolding updateProfile_def Let_def
    by (intro kdb_intros) (auto simp: map_update_where update_profile_row_def intro!: kdb_intros kdb_tx_body kdb_dbset elim!: susp_inv_cong [rotated 2])
qed

end
