(* ===== verification/Accountability.thy ===== *)
theory Accountability
  imports System_Accounts
begin

text \<open>
  What the audit log promises over the whole program.  Two states of the database are compared: in the later one the log is
  extended, no account and no message has disappeared, and every change of a role, of a suspension, every removal of strikes
  and every restoration of a message has an entry among the new ones.  Inside a transaction the change comes
  before its entry, so the relation is parametrised with the entries still owed.
\<close>

section \<open>Tables that grow\<close>

definition grown :: "('r \<Rightarrow> 'r \<Rightarrow> bool) \<Rightarrow> 'r list \<Rightarrow> 'r list \<Rightarrow> bool" where
  "grown R xs ys \<longleftrightarrow> (\<exists>zs new. ys = zs @ new \<and> list_all2 R xs zs)"

lemma grown_refl: "(\<And>x. R x x) \<Longrightarrow> grown R xs xs"
  unfolding grown_def by (rule exI [of _ xs], rule exI [of _ "[]"]) (simp add: list_all2_same)

lemma grown_append: "grown R xs ys \<Longrightarrow> grown R xs (ys @ zs)"
  unfolding grown_def by (metis append_assoc)

lemma grown_mono: "grown R xs ys \<Longrightarrow> (\<And>x y. R x y \<Longrightarrow> S x y) \<Longrightarrow> grown S xs ys"
  unfolding grown_def by (elim exE conjE) (intro exI conjI, assumption, erule list_all2_mono)

lemma grown_update_where:
  assumes "grown R xs ys" and "\<And>x y. R x y \<Longrightarrow> S x y" and "\<And>x y. R x y \<Longrightarrow> p y \<Longrightarrow> S x (f y)"
  shows "grown S xs (update_where p f ys)"
proof -
  from assms(1) obtain zs new where "ys = zs @ new" "list_all2 R xs zs" by (auto simp: grown_def)
  moreover from this(2) have "list_all2 S xs (update_where p f zs)"
    by (auto simp: update_where_def list_all2_conv_all_nth assms)
  ultimately show ?thesis by (auto simp: grown_def update_where_def)
qed

lemma grown_find: "grown R xs ys \<Longrightarrow> x \<in> set xs \<Longrightarrow> \<exists>y\<in>set ys. R x y"
  unfolding grown_def list_all2_conv_all_nth by (auto simp: in_set_conv_nth) (metis UnCI nth_mem)

section \<open>Entries and what they account for\<close>

type_synonym entry = "AdminAuditAction \<times> uuid"

definition entry_of :: "audit_row \<Rightarrow> entry" where
  "entry_of r = (al_action r, al_targetId r)"

definition user_accounted :: "entry set \<Rightarrow> user_row \<Rightarrow> user_row \<Rightarrow> bool" where
  "user_accounted E u v \<longleftrightarrow> u_id v = u_id u
    \<and> (u_role v \<noteq> u_role u \<longrightarrow> (ROLE_PROMOTE, u_id u) \<in> E \<or> (ROLE_DEMOTE, u_id u) \<in> E)
    \<and> (u_status u = ACTIVE \<and> u_status v = SUSPENDED \<longrightarrow> (USER_SUSPEND, u_id u) \<in> E)
    \<and> (u_status u = SUSPENDED \<and> u_status v = ACTIVE \<longrightarrow> (USER_UNSUSPEND, u_id u) \<in> E)
    \<and> (u_strikeCount v < u_strikeCount u \<longrightarrow> (STRIKE_RESET, u_id u) \<in> E)"

definition message_accounted :: "entry set \<Rightarrow> message_row \<Rightarrow> message_row \<Rightarrow> bool" where
  "message_accounted E m n \<longleftrightarrow> msg_ident n = msg_ident m
    \<and> (m_deletedAt m \<noteq> None \<and> m_deletedAt n = None \<longrightarrow> (MESSAGE_UNTOMBSTONE, m_id m) \<in> E)"

text \<open>The entries of the later state that the earlier one has not got\<close>

definition new_entries :: "db \<Rightarrow> db \<Rightarrow> entry set" where
  "new_entries d d' = entry_of ` set (drop (length (adminAuditLog d)) (adminAuditLog d'))"

definition accounted :: "entry set \<Rightarrow> db \<Rightarrow> db \<Rightarrow> bool" where
  "accounted E d d' \<longleftrightarrow> take (length (adminAuditLog d)) (adminAuditLog d') = adminAuditLog d
     \<and> grown (user_accounted (E \<union> new_entries d d')) (users d) (users d')
     \<and> grown (message_accounted (E \<union> new_entries d d')) (messages d) (messages d')"

lemma new_entries_cong [simp]:
  "new_entries d (users_update f d') = new_entries d d'" "new_entries d (messages_update g d') = new_entries d d'"
  by (simp_all add: new_entries_def)

lemma msg_ident_id: "msg_ident n = msg_ident m \<Longrightarrow> m_id n = m_id m"
  unfolding msg_ident_def by (metis message_row.select_convs(1) message_row.surjective message_row.update_convs(12-14))

lemma msg_ident_restored: "msg_ident (m\<lparr>m_deletedAt := x\<rparr>) = msg_ident m"
  by (simp add: msg_ident_def)

lemma accounted_refl: "accounted E d d"
  by (auto simp: accounted_def user_accounted_def message_accounted_def intro!: grown_refl)

lemma accounted_cong:
  "users d' = users d \<Longrightarrow> messages d' = messages d \<Longrightarrow> adminAuditLog d' = adminAuditLog d \<Longrightarrow> accounted E c d \<Longrightarrow> accounted E c d'"
  by (simp add: accounted_def new_entries_def)

text \<open>An entry pays one that was owed.\<close>

lemma accounted_logged:
  assumes "accounted (insert (entry_of row) E) d d'"
  shows "accounted E d (adminAuditLog_update (\<lambda>xs. xs @ [row]) d')"
proof -
  have "take (length (adminAuditLog d)) (adminAuditLog d') = adminAuditLog d" using assms by (simp add: accounted_def)
  then have "length (adminAuditLog d) \<le> length (adminAuditLog d')" by (metis length_take min.cobounded1)
  then have "new_entries d (adminAuditLog_update (\<lambda>xs. xs @ [row]) d') = insert (entry_of row) (new_entries d d')"
    by (simp add: new_entries_def)
  then show ?thesis using assms \<open>length _ \<le> _\<close> by (simp add: accounted_def)
qed

lemma user_accounted_mono: "user_accounted E u v \<Longrightarrow> E \<subseteq> F \<Longrightarrow> user_accounted F u v"
  by (auto simp: user_accounted_def)

lemma message_accounted_mono: "message_accounted E m n \<Longrightarrow> E \<subseteq> F \<Longrightarrow> message_accounted F m n"
  by (auto simp: message_accounted_def)

lemma accounted_weaken:
  assumes "accounted E d d'" and "E \<subseteq> F"
  shows "accounted F d d'"
proof -
  have "E \<union> new_entries d d' \<subseteq> F \<union> new_entries d d'" using assms(2) by blast
  then show ?thesis using assms(1)
    unfolding accounted_def by (auto elim!: grown_mono intro: user_accounted_mono message_accounted_mono)
qed

lemma accounted_users:
  assumes "accounted E d d'" and "E \<subseteq> F" and "\<And>F' u v. F \<subseteq> F' \<Longrightarrow> p v \<Longrightarrow> user_accounted F' u v \<Longrightarrow> user_accounted F' u (f v)"
  shows "accounted F d (users_update (update_where p f) d')"
  using accounted_weaken [OF assms(1,2)] unfolding accounted_def
  by (auto elim!: grown_update_where intro: assms(3))

lemma accounted_messages:
  assumes "accounted E d d'" and "E \<subseteq> F"
    and "\<And>F' m n. F \<subseteq> F' \<Longrightarrow> p n \<Longrightarrow> message_accounted F' m n \<Longrightarrow> message_accounted F' m (f n)"
  shows "accounted F d (messages_update (update_where p f) d')"
  using accounted_weaken [OF assms(1,2)] unfolding accounted_def
  by (auto elim!: grown_update_where intro: assms(3))

lemma accounted_marks: "only_marks f \<Longrightarrow> accounted E d d' \<Longrightarrow> accounted E d (messages_update (update_where p f) d')"
  by (erule accounted_messages [OF _ order_refl]) (auto simp: message_accounted_def only_marks_def)

lemma accounted_new_message: "accounted E d d' \<Longrightarrow> accounted E d (messages_update (\<lambda>ms. ms @ [m]) d')"
  by (auto simp: accounted_def intro!: grown_append)

lemma accounted_new_user: "accounted E d d' \<Longrightarrow> accounted E d (users_update (\<lambda>us. us @ [u]) d')"
  by (auto simp: accounted_def intro!: grown_append)

section \<open>Moderation pays what it owes\<close>

lemma acc_frames [kdb_intros]:
  "kdb (accounted E c) (dbset (reports_update f1))" "kdb (accounted E c) (dbset (userSuspensions_update f2))"
  "kdb (accounted E c) (dbset (otps_update f3))" "kdb (accounted E c) (dbset (refreshTokens_update f4))"
  "kdb (accounted E c) (dbset (revoke_tokens e p))"
  unfolding revoke_tokens_def by (rule kdb_dbset, erule accounted_cong [rotated 3]; simp)+

lemma audit_pays: "audit e a act ty i r md w = (x, w') \<Longrightarrow> accounted (insert (act, i) E) c (w_db w) \<Longrightarrow> accounted E c (w_db w')"
  by (auto simp: audit_run entry_of_def intro!: accounted_logged)

lemma acc_log [kdb_intros]: "kdb (accounted E c) (audit e a act ty i r md)" "kdb (accounted E c) (dbset (adminAuditLog_update (\<lambda>xs. xs @ [row])))"
  by (auto intro!: kdbI kdb_dbset accounted_logged intro: audit_pays [OF surjective_pairing] elim: accounted_weaken)

lemma acc_messages [kdb_intros]:
  "kdb (accounted E c) (dbset (messages_update (\<lambda>ms. ms @ [m])))" "kdb (accounted E c) (dbset (messages_update (tombstone t i)))"
  "kdb (accounted E c) (dbset (messages_update (update_where p (\<lambda>m. m\<lparr>m_deletedAt := Some t\<rparr>))))"
  unfolding tombstone_def by (auto intro!: kdb_dbset accounted_new_message accounted_marks only_marks_intros)

text \<open>The writes of an account, and the entry that each of them owes\<close>

definition owes :: "entry \<Rightarrow> (user_row \<Rightarrow> user_row) \<Rightarrow> bool" where
  "owes en f \<longleftrightarrow> (\<forall>E u v. en \<in> E \<longrightarrow> u_id v = snd en \<longrightarrow> user_accounted E u v \<longrightarrow> user_accounted E u (f v)) \<and> (\<forall>v. u_id (f v) = u_id v)"

lemma owes_intros:
  "act = ROLE_PROMOTE \<or> act = ROLE_DEMOTE \<Longrightarrow> owes (act, i) (\<lambda>u. u\<lparr>u_role := nr, u_updatedAt := t\<rparr>)"
  "owes (USER_SUSPEND, i) (strike e)"
  "owes (USER_UNSUSPEND, i) (\<lambda>u. u\<lparr>u_status := ACTIVE, u_updatedAt := t\<rparr>)"
  "owes (STRIKE_RESET, i) (\<lambda>u. u\<lparr>u_strikeCount := 0, u_lastStrikeAt := None, u_updatedAt := t\<rparr>)"
  by (auto simp: owes_def user_accounted_def strike_def)

lemma update_user_owes:
  assumes "owes en f" and "update_user (snd en) f w = (r, w')" and "accounted E c (w_db w)"
  shows "accounted (insert en E) c (w_db w')"
proof -
  have "accounted (insert en E) c (users_update (update_where (\<lambda>u. u_id u = snd en) f) (w_db w))"
    using assms(1) by (intro accounted_users [OF assms(3)]) (auto simp: owes_def)
  with assms(2) show ?thesis by (auto simp: update_user_def act_simps split: option.splits)
qed

lemma update_user_failed:
  assumes "update_user i f w = (Inl er, w')" and "\<And>u. u_id (f u) = u_id u"
  shows "w_db w' = w_db w"
proof -
  let ?d = "users_update (update_where (\<lambda>u. u_id u = i) f) (w_db w)"
  from assms(1) have w': "find_user ?d i = None" "w_db w' = ?d"
    by (auto simp: update_user_def act_simps split: option.splits)
  from w'(1) have none: "\<forall>u\<in>set (users ?d). u_id u \<noteq> i" by (simp only: find_user_def find_None_all)
  have "u_id u \<noteq> i" if "u \<in> set (users (w_db w))" for u
  proof
    assume "u_id u = i"
    with that have "f u \<in> set (users ?d)" by (force simp: set_update_where)
    with none assms(2) \<open>u_id u = i\<close> show False by auto
  qed
  then have "update_where (\<lambda>u. u_id u = i) f (users (w_db w)) = users (w_db w)" by (simp add: update_where_def map_idI)
  with w'(2) show ?thesis by (cases "w_db w") simp
qed

lemma acc_change:
  assumes "owes (act, i) f"
  shows "kdb (accounted E c) (tx (bnd (update_user i f) (\<lambda>u. thn (audit e a act ty i r md) (ret (k u)))))"
proof (rule kdb_tx)
  fix w x w' assume inv: "accounted E c (w_db w)" and run: "bnd (update_user i f) (\<lambda>u. thn (audit e a act ty i r md) (ret (k u))) w = (Inr x, w')"
  from run obtain u w1 where "update_user i f w = (Inr u, w1)" "audit e a act ty i r md w1 = (Inr (), w')" by (auto simp: bnd_ok thn_ok ret_ok)
  with update_user_owes [OF assms, of w "Inr u" w1 E c] inv show "accounted E c (w_db w')" by (auto intro: audit_pays)
qed

lemma acc_roles [kdb_intros]: "kdb (accounted E c) (changeUserRole e a ro u nr rsn)" "kdb (accounted E c) (resetStrikes e a ro u why)"
  unfolding changeUserRole_def resetStrikes_def Let_def by (intro kdb_intros acc_change owes_intros; simp)+

lemma acc_lift [kdb_intros]: "kdb (accounted E c) (tx (lift_suspension e s u t a r md))"
proof (rule kdb_tx)
  fix w x w' assume inv: "accounted E c (w_db w)" and run: "lift_suspension e s u t a r md w = (Inr x, w')"
  from run obtain y z w1 w2 where r: "update_suspension s (revoke_suspension t a r) w = (Inr y, w1)"
      "update_user u (\<lambda>u. u\<lparr>u_status := ACTIVE, u_updatedAt := now e\<rparr>) w1 = (Inr z, w2)" "audit e a USER_UNSUSPEND T_USER u r md w2 = (Inr x, w')"
    unfolding lift_suspension_def by (auto simp: bnd_ok thn_ok)
  have "kdb (accounted E c) (update_suspension s (revoke_suspension t a r))" unfolding update_suspension_def by (intro kdb_intros)
  from kdb_result [OF this inv r(1)] update_user_owes [OF owes_intros(3), of u "now e" w1 "Inr z" w2 E c] r(2)
  show "accounted E c (w_db w')" by (auto intro: audit_pays [OF r(3)])
qed

lemma acc_reports [kdb_intros]:
  "kdb (accounted E c) (update_report i g)" "kdb (accounted E c) (close_reports e a res q)" "kdb (accounted E c) (close_trigger e a ri)"
  "kdb (accounted E c) (cascadeCloseReports e mi i' a res)"
  unfolding cascadeCloseReports_def close_reports_def close_trigger_def update_report_def by (intro kdb_intros)+

lemma acc_suspend_cascade:
  assumes "suspend_cascade e a t dto i w = (Inr r, w')" and "accounted (insert (USER_SUSPEND, t) E) c (w_db w)"
  shows "accounted E c (w_db w')"
proof -
  from assms(1) obtain w1 x w2 y w3 z md where r: "dbset (revoke_tokens e (\<lambda>x. rt_userId x = t)) w = (Inr (), w1)"
      "tombstone_all e a i (live_messages t (w_db w1)) w1 = (Inr x, w2)" "close_trigger e a (sd_reportId dto) w2 = (Inr y, w3)"
      "audit e (Some a) USER_SUSPEND T_USER t (sd_reason dto) md w3 = (Inr z, w')"
    unfolding suspend_cascade_def by (auto simp: thn_ok bnd_ok dbget_ok ret_ok)
  have "kdb (accounted F c) (tombstone_all e a i ids)" for F ids
    unfolding tombstone_all_def by (intro kdb_intros)
  from kdb_result [OF acc_reports(3) kdb_result [OF this kdb_result [OF acc_frames(5) assms(2) r(1)] r(2)] r(3)]
  show ?thesis by (rule audit_pays [OF r(4)])
qed

lemma acc_suspend [kdb_intros]: "kdb (accounted E c) (suspendUser e a ro t dto)"
proof -
  have "kdb (accounted E c) (tx (suspend_tx e a t dto))"
  proof (rule kdb_tx)
    fix w x w' assume inv: "accounted E c (w_db w)" and run: "suspend_tx e a t dto w = (Inr x, w')"
    from run obtain i w1 y w2 where r: "create_suspension e t a dto w = (Inr i, w1)" "update_user t (strike e) w1 = (Inr y, w2)"
        "suspend_cascade e a t dto i w2 = (Inr x, w')"
      unfolding suspend_tx_def by (auto simp: bnd_ok)
    have "kdb (accounted E c) (create_suspension e t a dto)" unfolding create_suspension_def by (intro kdb_intros)
    from kdb_result [OF this inv r(1)] update_user_owes [OF owes_intros(2), of t e w1 "Inr y" w2 E c] r(2)
    show "accounted E c (w_db w')" by (auto intro: acc_suspend_cascade [OF r(3)])
  qed
  then show ?thesis unfolding suspendUser_def by (intro kdb_intros)
qed

lemma acc_restore [kdb_intros]: "kdb (accounted E c) (untombstoneMessage e a ro i rsn)"
proof -
  let ?m = "thn (dbset (messages_update (restore_message i))) (bnd (dbget (\<lambda>d. find_message d i)) (\<lambda>f.
      bnd (require f (PrismaError ''P2025'')) (\<lambda>u. thn (audit e (Some a) MESSAGE_UNTOMBSTONE T_MESSAGE i rsn JNull) (ret u))))"
  have "kdb (accounted E c) (tx ?m)"
  proof (rule kdb_tx)
    fix w x w' assume inv: "accounted E c (w_db w)" and run: "?m w = (Inr x, w')"
    have "accounted (insert (MESSAGE_UNTOMBSTONE, i) E) c (messages_update (restore_message i) (w_db w))"
      unfolding restore_message_def using inv
      by (rule accounted_messages) (auto simp: message_accounted_def msg_ident_restored dest: msg_ident_id)
    moreover from run obtain y where "audit e (Some a) MESSAGE_UNTOMBSTONE T_MESSAGE i rsn JNull (w\<lparr>w_db := messages_update (restore_message i) (w_db w)\<rparr>) = (Inr y, w')"
      by (auto simp: thn_ok bnd_ok dbset_ok dbget_ok require_ok ret_ok)
    ultimately show "accounted E c (w_db w')" by (auto intro: audit_pays)
  qed
  then show ?thesis unfolding untombstoneMessage_def by (intro kdb_intros)
qed

lemma acc_others [kdb_intros]:
  "kdb (accounted E c) (createReport e u dto ip)" "kdb (accounted E c) (markInReview e a i)" "kdb (accounted E c) (dismiss e a i rsn)"
  "kdb (accounted E c) (tombstoneMessage e a ro m td)" "kdb (accounted E c) (unsuspendUser e a ro u rsn)" "kdb (accounted E c) (reactivateExpired e)"
  unfolding createReport_def upsert_report_def markInReview_def dismiss_def tombstoneMessage_def tombstone_tx_def unsuspendUser_def
    reactivateExpired_def runReactivation_def Let_def
  by (intro kdb_intros kdb_tx_body kdb_reactivate_all; (unfold reactivateOne_def, rule acc_lift)?)+

text \<open>The promotion at the start of the process is not a transaction, but its entry follows whenever the account was found.\<close>

lemma acc_bootstrap [kdb_intros]: "kdb (accounted E c) (onApplicationBootstrap e raw op)"
proof -
  define promote where "promote i md = bnd (update_user i (\<lambda>u. u\<lparr>u_role := ADMIN, u_updatedAt := now e\<rparr>)) (\<lambda>_.
    audit e None ROLE_PROMOTE T_USER i None md)" for i md
  have "kdb (accounted E c) (promote i md)" for i md
    unfolding promote_def
  proof (rule kdbI)
    fix w :: world assume inv: "accounted E c (w_db w)"
    let ?f = "\<lambda>u. u\<lparr>u_role := ADMIN, u_updatedAt := now e\<rparr>"
    obtain r w1 where run: "update_user i ?f w = (r, w1)" by fastforce
    show "accounted E c (w_db (snd (bnd (update_user i ?f) (\<lambda>_. audit e None ROLE_PROMOTE T_USER i None md) w)))"
    proof (cases r)
      case (Inl er)
      with run have "w_db w1 = w_db w" by (auto elim: update_user_failed)
      with inv run Inl show ?thesis by (simp add: bnd_def)
    next
      case (Inr u)
      have "owes (ROLE_PROMOTE, i) ?f" by (rule owes_intros) simp
      from update_user_owes [OF this] run inv have "accounted (insert (ROLE_PROMOTE, i) E) c (w_db w1)" by simp
      then show ?thesis using run Inr by (auto simp: bnd_def intro!: audit_pays [OF surjective_pairing])
    qed
  qed
  then show ?thesis unfolding onApplicationBootstrap_def bootstrap_one_def promote_def [symmetric] by (intro kdb_intros)
qed

lemma acc_login [kdb_intros]: "kdb (accounted E c) (verifyLoginOtp e p code mt)"
proof (rule kdb_login)
  have "kdb (accounted E c) (dbset (users_update (update_where q (\<lambda>x. x\<lparr>u_phoneHash := h, u_updatedAt := now e\<rparr>))))" for q h
    by (rule kdb_dbset, erule accounted_users) (auto simp: user_accounted_def)
  moreover have "kdb (accounted E c) (dbset (users_update (\<lambda>us. us @ [u])))" for u
    by (rule kdb_dbset) (rule accounted_new_user)
  ultimately show "kdb (accounted E c) (findOrCreateUser e (normalizePhone p) (phone_hash e (normalizePhone p)))"
    unfolding findOrCreateUser_def by (intro kdb_intros)
qed (auto simp: accounted_def new_entries_def intro: kdb_intros)

lemma acc_step: "mod_step x y \<Longrightarrow> accounted E c (w_db x) \<Longrightarrow> accounted E c (w_db y)"
  by (erule mod_stepE; erule kdb_step [where P = "accounted E c"], assumption, intro kdb_intros)

interpretation acc: content_inv "accounted E c" for E c
proof
  show "accounted E c d'" if "users d' = users d" "messages d' = messages d" "adminAuditLog d' = adminAuditLog d" "accounted E c d" for d d'
    using that by (rule accounted_cong)
  show "kdb (accounted E c) (dbset (messages_update (update_where p f)))" if "only_marks f" for p f
    using that by (auto intro!: kdb_dbset accounted_marks)
  show "kdb (accounted E c) (updateProfile e u dto)" for e u dto
    unfolding updateProfile_def Let_def
    by (intro kdb_intros) (auto simp: update_profile_row_def user_accounted_def intro!: kdb_intros kdb_tx_body kdb_dbset elim!: accounted_users)
qed (auto intro: kdb_intros acc_step)

text \<open>The relation with nothing owed, written out\<close>

lemma accounted_log: "accounted {} d d' \<Longrightarrow> \<exists>rows. adminAuditLog d' = adminAuditLog d @ rows \<and> new_entries d d' = entry_of ` set rows"
  by (intro exI [of _ "drop (length (adminAuditLog d)) (adminAuditLog d')"]) (metis accounted_def append_take_drop_id new_entries_def)

lemma accounted_user: "accounted {} d d' \<Longrightarrow> u \<in> set (users d) \<Longrightarrow> \<exists>v\<in>set (users d'). user_accounted (new_entries d d') u v"
  by (auto simp: accounted_def dest: grown_find)

lemma accounted_message: "accounted {} d d' \<Longrightarrow> m \<in> set (messages d) \<Longrightarrow> \<exists>n\<in>set (messages d'). message_accounted (new_entries d d') m n"
  by (auto simp: accounted_def dest: grown_find)

lemma msg_ident_eq:
  assumes "msg_ident n = msg_ident m"
  shows "n = m\<lparr>m_deletedAt := m_deletedAt n, m_editedAt := m_editedAt n, m_lastEditIdempotencyKey := m_lastEditIdempotencyKey n\<rparr>"
  using assms by (cases m; cases n) (simp add: msg_ident_def)

end
