(* ===== verification/System_Credentials.thy ===== *)
theory System_Credentials
  imports System_Accounts
begin

text \<open>
  Invariants of what users prove who they are with: devices, one-time prekeys, refresh tokens and socket tickets.  The locale
  \<open>credential_inv\<close> lists the operations of the program that write those tables and derives that every step of the program
  keeps a predicate that they keep.  It is interpreted for the stock of one-time prekeys and for the keys of tokens
  and tickets.
\<close>

locale credential_inv =
  fixes P :: "db \<Rightarrow> bool"
  assumes cred_frame: "\<And>d d'. devices d' = devices d \<Longrightarrow> oneTimePrekeys d' = oneTimePrekeys d
      \<Longrightarrow> refreshTokens d' = refreshTokens d \<Longrightarrow> socketTickets d' = socketTickets d \<Longrightarrow> P d \<Longrightarrow> P d'"
    and cred_registering: "\<And>e u dto. kdb P (registerDevice e u dto)"
    and cred_device: "\<And>p f. (\<And>x. d_id (f x) = d_id x) \<Longrightarrow> kdb P (dbset (devices_update (update_where p f)))"
    and cred_stocking: "\<And>e dv k. kdb P (insert_prekey_skip e dv k)"
    and cred_handing: "\<And>e ks. kdb P (dbset (consume_prekeys e ks))"
    and cred_revoking: "\<And>e p. kdb P (dbset (revoke_tokens e p))"
    and cred_issuing: "\<And>e u mt fam. kdb P (issueTokenPair e u mt fam)"
    and cred_ticketing: "\<And>e user dv. kdb P (createSocketTicket e user dv)"
    and cred_consuming: "\<And>e tk sock. kdb P (consumeSocketTicket e tk sock)"
    and cred_pruning: "\<And>e. kdb P (processPrune e)"
begin

declare cred_revoking [kdb_intros] cred_issuing [kdb_intros]

lemma cred_write: "(\<And>d. devices (f d) = devices d) \<Longrightarrow> (\<And>d. oneTimePrekeys (f d) = oneTimePrekeys d)
   \<Longrightarrow> (\<And>d. refreshTokens (f d) = refreshTokens d) \<Longrightarrow> (\<And>d. socketTickets (f d) = socketTickets d) \<Longrightarrow> kdb P (dbset f)"
  by (rule kdb_dbset) (rule cred_frame)

lemma cred_writes [kdb_intros]:
  "kdb P (dbset (users_update f1))" "kdb P (dbset (userSuspensions_update f2))" "kdb P (dbset (messages_update f3))"
  "kdb P (dbset (adminAuditLog_update f4))" "kdb P (dbset (reports_update f5))" "kdb P (dbset (otps_update f6))"
  "kdb P (dbset (telegramLinks_update f7))"
  by (rule cred_write; simp)+

lemma cred_moderation_writes [kdb_intros]:
  "kdb P (audit e a ac ty i r md)" "kdb P (audit_write e a ac ty i r' md)" "kdb P (update_report i f)" "kdb P (update_user i g)" "kdb P (update_suspension i h)"
  "kdb P (tombstone_all e a2 i ids)"
  unfolding audit_def audit_write_def update_report_def update_user_def update_suspension_def tombstone_all_def close_reports_def Let_def by (intro kdb_intros)+

lemma cred_closing [kdb_intros]: "kdb P (cascadeCloseReports e m i u res)" "kdb P (close_reports e u res p)" "kdb P (close_trigger e u ri)"
  unfolding cascadeCloseReports_def close_reports_def close_trigger_def by (intro kdb_intros)+

lemma cred_lifting [kdb_intros]: "kdb P (lift_suspension e i u t a r md)" "kdb P (create_suspension e target a' dto)" "kdb P (bootstrap_one e op ph)"
  "kdb P (findOrCreateUser e p h)"
  unfolding lift_suspension_def create_suspension_def bootstrap_one_def findOrCreateUser_def Let_def by (intro kdb_intros kdb_tx_body)+

lemma cred_reactivate [kdb_intros]: "kdb P (reactivate_all e t ss n)"
  by (rule kdb_reactivate_all) (auto simp: reactivateOne_def intro!: kdb_intros kdb_tx_body)

lemma cred_reports [kdb_intros]:
  "kdb P (createReport e u dto ip)" "kdb P (markInReview e u' i)" "kdb P (dismiss e u' i r)"
  "kdb P (tombstoneMessage e u' ro i td)" "kdb P (untombstoneMessage e u' ro i r')"
  unfolding createReport_def upsert_report_def markInReview_def dismiss_def tombstoneMessage_def tombstone_tx_def untombstoneMessage_def Let_def
  by (intro kdb_intros kdb_tx_body)+

lemma cred_accounts [kdb_intros]:
  "kdb P (suspendUser e u ro i dto)" "kdb P (unsuspendUser e u ro i r)" "kdb P (changeUserRole e u ro i nr r)" "kdb P (resetStrikes e u ro i why)"
  "kdb P (reactivateExpired e)" "kdb P (onApplicationBootstrap e raw op)" "kdb P (verifyLoginOtp e p c mt)" "kdb P (updateProfile e u pd)"
  unfolding suspendUser_def suspend_tx_def suspend_cascade_def unsuspendUser_def changeUserRole_def resetStrikes_def reactivateExpired_def runReactivation_def
    onApplicationBootstrap_def verifyLoginOtp_def verifyOtp_def throwIfSuspended_def updateProfile_def Let_def
  by (intro kdb_intros kdb_tx_body)+

lemma cred_step: "mod_step x y \<Longrightarrow> P (w_db x) \<Longrightarrow> P (w_db y)"
  by (erule mod_stepE; erule kdb_step [where P = P], assumption, intro kdb_intros)

end

sublocale credential_inv \<subseteq> program_inv P
  by unfold_locales (rule cred_frame, assumption+ | rule cred_step, assumption+ | rule cred_device, assumption
    | rule cred_writes cred_accounts cred_registering cred_stocking cred_handing cred_revoking cred_issuing cred_ticketing cred_consuming cred_pruning)+

section \<open>The stock of one-time prekeys\<close>

interpretation prekeys_sys: credential_inv "stock C" for C
proof
  have same: "kdb (stock C) (dbset f)" if "\<And>d. oneTimePrekeys (f d) = oneTimePrekeys d" "\<And>d. map d_id (devices (f d)) = map d_id (devices d)" for f
    by (rule kdb_dbset) (simp add: stock_same [OF that])
  show "stock C d'" if "devices d' = devices d" "oneTimePrekeys d' = oneTimePrekeys d" "stock C d" for d d'
    using that stock_same [of d' d C] by simp
  show "kdb (stock C) (dbset (devices_update (update_where p f)))" if "\<And>x. d_id (f x) = d_id x" for p f
    by (rule same) (simp_all add: map_update_where that)
  show "kdb (stock C) (dbset (consume_prekeys e ks))" for e ks
    by (rule kdb_dbset) (use stock_consume [of C _ ks e] in \<open>auto simp: stock_def\<close>)
  show "kdb (stock C) (dbset (revoke_tokens e p))" for e p
    by (rule same) (simp_all add: revoke_tokens_def)
  show "kdb (stock C) (issueTokenPair e u mt fam)" for e u mt fam
    unfolding issueTokenPair_def by (intro kdb_intros same) simp_all
  show "kdb (stock C) (createSocketTicket e user dv)" for e user dv
    unfolding createSocketTicket_def Let_def by (intro kdb_intros same) simp_all
  show "kdb (stock C) (consumeSocketTicket e tk sock)" for e tk sock
    unfolding consumeSocketTicket_def consume_tx_def Let_def by (intro kdb_intros kdb_tx_body same) (simp_all add: map_update_where)
  show "kdb (stock C) (processPrune e)" for e
    unfolding processPrune_def by (intro kdb_tx_body same) (simp_all add: prune_db_def Let_def)
qed (intro kdb_intros)+

section \<open>Tokens and tickets\<close>

text \<open>No two refresh tokens and no two socket tickets share an identifier or the hash that is looked up.\<close>

definition session_keys :: "db \<Rightarrow> bool" where
  "session_keys d \<longleftrightarrow> token_inv d \<and> ticket_inv d"

lemma session_keys_issue:
  assumes "session_keys d" and "find_session d (rt_id t) = None" and "find_token d (rt_tokenHash t) = None"
  shows "session_keys (refreshTokens_update (\<lambda>ts. ts @ [t]) d)"
  using assms by (auto simp: session_keys_def token_inv_def ticket_inv_def find_session_def find_token_def find_None_iff)

lemma session_keys_ticket:
  assumes "session_keys d" and "\<not> exists_where (\<lambda>x. tk_id x = tk_id t \<or> tk_tokenHash x = tk_tokenHash t) (socketTickets d)"
  shows "session_keys (socketTickets_update (\<lambda>ts. ts @ [t]) d)"
  using assms by (auto simp: session_keys_def token_inv_def ticket_inv_def exists_where_def list_ex_iff)

interpretation sessions_sys: credential_inv session_keys
proof
  have same: "kdb session_keys (dbset f)" if "\<And>d. refreshTokens (f d) = refreshTokens d" "\<And>d. socketTickets (f d) = socketTickets d" for f
    by (rule kdb_dbset) (simp add: session_keys_def token_inv_def ticket_inv_def that)
  show "session_keys d'" if "refreshTokens d' = refreshTokens d" "socketTickets d' = socketTickets d" "session_keys d" for d d'
    using that by (simp add: session_keys_def token_inv_def ticket_inv_def)
  show "kdb session_keys (registerDevice e u dto)" for e u dto
    unfolding registerDevice_def register_tx_def create_device_def Let_def by (intro kdb_intros kdb_tx_body same) simp_all
  show "kdb session_keys (dbset (devices_update (update_where p f)))" for p f
    by (rule same) simp_all
  show "kdb session_keys (insert_prekey_skip e dv k)" for e dv k
    unfolding insert_prekey_skip_def Let_def by (intro kdb_intros same) simp_all
  show "kdb session_keys (dbset (consume_prekeys e ks))" for e ks
    by (rule same) (simp_all add: consume_prekeys_def)
  show "kdb session_keys (dbset (revoke_tokens e p))" for e p
    by (rule kdb_dbset) (simp add: session_keys_def token_inv_def ticket_inv_def revoke_tokens_def map_update_where)
  show "kdb session_keys (issueTokenPair e u mt fam)" for e u mt fam
    by (rule kdbI) (auto simp: issueTokenPair_def act_simps new_token_def intro!: session_keys_issue split: option.splits)
  show "kdb session_keys (createSocketTicket e user dv)" for e user dv
    by (rule kdbI) (auto simp: createSocketTicket_def act_simps Let_def intro!: session_keys_ticket)
  show "kdb session_keys (consumeSocketTicket e tk sock)" for e tk sock
    unfolding consumeSocketTicket_def consume_tx_def Let_def by (intro kdb_intros kdb_tx_body kdb_dbset)
      (simp_all add: session_keys_def token_inv_def ticket_inv_def map_update_where)
  show "kdb session_keys (processPrune e)" for e
    unfolding processPrune_def by (intro kdb_tx_body kdb_dbset) (simp add: session_keys_def token_inv_def ticket_inv_def prune_db_def delete_where_def Let_def distinct_map_filter)
qed

lemma session_keys_reachable: "system_step\<^sup>*\<^sup>* w w' \<Longrightarrow> token_inv (w_db w) \<Longrightarrow> ticket_inv (w_db w) \<Longrightarrow> token_inv (w_db w') \<and> ticket_inv (w_db w')"
  using sessions_sys.reachable [of w w'] by (simp add: session_keys_def)

end
