(* ===== verification/Validation.thy ===== *)
theory Validation
  imports Schema
begin

text \<open>
  Validation of requests.  Every class of \<open>src/**/dto\<close> is the list of its properties with their declared type and the decorators
  that stand before them; the global pipe of \<open>src/main.ts\<close> (\<open>whitelist\<close>, \<open>forbidNonWhitelisted\<close>, \<open>transform\<close>) hands a handler only what passes
  the decorators.  The pipe and the decorators are library code: \<open>conforms\<close> states what their documentation
  promises of an accepted body.  Nothing of the library connects the decorators to the declared types; \<open>guards\<close> decides, per property,
  whether the decorators enforce the type, and is shown sound.
\<close>

section \<open>Decorators\<close>

datatype decorator =
    IsOptional | IsDefined | IsNotEmpty
  | IsString | IsBoolean | IsObject | IsInt | IsNumber
  | IsUUID | IsISO8601 | IsDateString | IsPhoneNumber | MatchesDate
  | IsEnum "string list" | IsIn "string list"
  | Min int | Max int | MinLength nat | MaxLength nat | Length nat nat
  | IsArray | ArrayMinSize nat | ArrayMaxSize nat
  | TypeNumber
  | Each decorator
  | NestedEach "(string \<times> decorator list) list"

type_synonym properties = "(string \<times> decorator list) list"

text \<open>The recognisers of text formats, which are library code\<close>

record formats =
  is_uuid :: "string \<Rightarrow> bool"
  is_iso8601 :: "string \<Rightarrow> bool"
  is_dateString :: "string \<Rightarrow> bool"
  is_phone :: "string \<Rightarrow> bool"
  is_isoDay :: "string \<Rightarrow> bool"

section \<open>What an accepted body satisfies\<close>

text \<open>\<open>null\<close> and \<open>undefined\<close> pass a property that is optional, whatever its other decorators say.\<close>

definition absent :: "json option \<Rightarrow> bool" where
  "absent v \<longleftrightarrow> v = None \<or> v = Some JNull"

text \<open>Conversions and checks of elements demand nothing of a property that is absent.\<close>

fun demands :: "decorator \<Rightarrow> bool" where
  "demands IsOptional = False"
| "demands TypeNumber = False"
| "demands (Each d) = False"
| "demands (NestedEach ps) = False"
| "demands _ = True"

definition may_be_absent :: "decorator list \<Rightarrow> bool" where
  "may_be_absent ds \<longleftrightarrow> IsOptional \<in> set ds \<or> \<not> list_ex demands ds"

fun meets :: "formats \<Rightarrow> decorator \<Rightarrow> json \<Rightarrow> bool"
  and all_meet :: "formats \<Rightarrow> decorator list \<Rightarrow> json \<Rightarrow> bool"
  and all_properties :: "formats \<Rightarrow> properties \<Rightarrow> (string \<times> json) list \<Rightarrow> bool" where
  "meets F IsString v = (case v of JStr s \<Rightarrow> True | _ \<Rightarrow> False)"
| "meets F IsBoolean v = (case v of JBool b \<Rightarrow> True | _ \<Rightarrow> False)"
| "meets F IsObject v = (case v of JObj ms \<Rightarrow> True | _ \<Rightarrow> False)"
| "meets F IsInt v = (case v of JNum n \<Rightarrow> True | _ \<Rightarrow> False)"
| "meets F IsNumber v = (case v of JNum n \<Rightarrow> True | JFloat s \<Rightarrow> True | _ \<Rightarrow> False)"
| "meets F IsUUID v = (case v of JStr s \<Rightarrow> is_uuid F s | _ \<Rightarrow> False)"
| "meets F IsISO8601 v = (case v of JStr s \<Rightarrow> is_iso8601 F s | _ \<Rightarrow> False)"
| "meets F IsDateString v = (case v of JStr s \<Rightarrow> is_dateString F s | _ \<Rightarrow> False)"
| "meets F IsPhoneNumber v = (case v of JStr s \<Rightarrow> is_phone F s | _ \<Rightarrow> False)"
| "meets F MatchesDate v = (case v of JStr s \<Rightarrow> is_isoDay F s | _ \<Rightarrow> False)"
| "meets F (IsEnum xs) v = (case v of JStr s \<Rightarrow> s \<in> set xs | _ \<Rightarrow> False)"
| "meets F (IsIn xs) v = (case v of JStr s \<Rightarrow> s \<in> set xs | _ \<Rightarrow> False)"
| "meets F (Min k) v = (case v of JNum n \<Rightarrow> k \<le> n | JFloat s \<Rightarrow> True | _ \<Rightarrow> False)"
| "meets F (Max k) v = (case v of JNum n \<Rightarrow> n \<le> k | JFloat s \<Rightarrow> True | _ \<Rightarrow> False)"
| "meets F (MinLength k) v = (case v of JStr s \<Rightarrow> k \<le> length s | _ \<Rightarrow> False)"
| "meets F (MaxLength k) v = (case v of JStr s \<Rightarrow> length s \<le> k | _ \<Rightarrow> False)"
| "meets F (Length k l) v = (case v of JStr s \<Rightarrow> k \<le> length s \<and> length s \<le> l | _ \<Rightarrow> False)"
| "meets F IsArray v = (case v of JArr xs \<Rightarrow> True | _ \<Rightarrow> False)"
| "meets F (ArrayMinSize k) v = (case v of JArr xs \<Rightarrow> k \<le> length xs | _ \<Rightarrow> False)"
| "meets F (ArrayMaxSize k) v = (case v of JArr xs \<Rightarrow> length xs \<le> k | _ \<Rightarrow> False)"
| "meets F IsDefined v = (v \<noteq> JNull)"
| "meets F IsNotEmpty v = (v \<noteq> JNull \<and> v \<noteq> JStr [])"
| "meets F IsOptional v = True"
| "meets F TypeNumber v = True"
| "meets F (Each d) v = (case v of JArr xs \<Rightarrow> list_all (meets F d) xs | _ \<Rightarrow> False)"
| "meets F (NestedEach ps) v = (case v of
     JArr xs \<Rightarrow> list_all (\<lambda>x. case x of JNull \<Rightarrow> True | JObj ms \<Rightarrow> all_properties F ps ms | _ \<Rightarrow> False) xs
   | _ \<Rightarrow> False)"
| "all_meet F [] v = True"
| "all_meet F (d # ds) v = (meets F d v \<and> all_meet F ds v)"
| "all_properties F [] ms = True"
| "all_properties F ((n, ds) # ps) ms =
     ((if absent (map_of ms n) then may_be_absent ds else all_meet F ds (the (map_of ms n))) \<and> all_properties F ps ms)"

definition conforms :: "formats \<Rightarrow> properties \<Rightarrow> (string \<times> json) list \<Rightarrow> bool" where
  "conforms F ps ms \<longleftrightarrow> all_properties F ps ms \<and> fst ` set ms \<subseteq> fst ` set ps"

text \<open>The promise of the pipe: what it hands on is an object that conforms to the class, without other members.\<close>

definition documented_pipe :: "formats \<Rightarrow> (properties \<Rightarrow> json \<Rightarrow> json option) \<Rightarrow> bool" where
  "documented_pipe F pipe \<longleftrightarrow> (\<forall>ps body x. pipe ps body = Some x \<longrightarrow> (\<exists>ms. x = JObj ms \<and> conforms F ps ms))"

section \<open>Declared types\<close>

text \<open>The types that the classes declare, with the limits that their documentation decorators announce.\<close>

datatype ty =
    TString "nat option"
  | TInt "int option" "int option"
  | TNumber | TBoolean
  | TEnum "string list"
  | TUnknown
  | TArray ty
  | TClass "(string \<times> bool \<times> ty) list"

type_synonym members = "(string \<times> bool \<times> ty) list"

fun is_class :: "ty \<Rightarrow> bool" where
  "is_class (TClass fs) = True"
| "is_class _ = False"

text \<open>With \<open>z\<close>, \<open>null\<close> counts as an element of every array of objects.\<close>

fun has_type :: "bool \<Rightarrow> ty \<Rightarrow> json \<Rightarrow> bool"
  and has_members :: "bool \<Rightarrow> members \<Rightarrow> (string \<times> json) list \<Rightarrow> bool" where
  "has_type z (TString hi) v = (case v of JStr s \<Rightarrow> (case hi of None \<Rightarrow> True | Some k \<Rightarrow> length s \<le> k) | _ \<Rightarrow> False)"
| "has_type z (TInt lo hi) v = (case v of
     JNum n \<Rightarrow> (case lo of None \<Rightarrow> True | Some k \<Rightarrow> k \<le> n) \<and> (case hi of None \<Rightarrow> True | Some k \<Rightarrow> n \<le> k) | _ \<Rightarrow> False)"
| "has_type z TNumber v = (case v of JNum n \<Rightarrow> True | JFloat s \<Rightarrow> True | _ \<Rightarrow> False)"
| "has_type z TBoolean v = (case v of JBool b \<Rightarrow> True | _ \<Rightarrow> False)"
| "has_type z (TEnum xs) v = (case v of JStr s \<Rightarrow> s \<in> set xs | _ \<Rightarrow> False)"
| "has_type z TUnknown v = True"
| "has_type z (TArray t) v = (case v of JArr xs \<Rightarrow> list_all (\<lambda>x. z \<and> is_class t \<and> x = JNull \<or> has_type z t x) xs | _ \<Rightarrow> False)"
| "has_type z (TClass fs) v = (case v of JObj ms \<Rightarrow> has_members z fs ms | _ \<Rightarrow> False)"
| "has_members z [] ms = True"
| "has_members z ((n, opt, t) # fs) ms =
     ((if absent (map_of ms n) then opt else has_type z t (the (map_of ms n))) \<and> has_members z fs ms)"

section \<open>Do the decorators enforce the type?\<close>

fun forces_string :: "decorator \<Rightarrow> bool" where
  "forces_string IsString = True"
| "forces_string IsUUID = True"
| "forces_string IsISO8601 = True"
| "forces_string IsDateString = True"
| "forces_string IsPhoneNumber = True"
| "forces_string MatchesDate = True"
| "forces_string (IsEnum xs) = True"
| "forces_string (IsIn xs) = True"
| "forces_string _ = False"

fun caps_length :: "nat \<Rightarrow> decorator \<Rightarrow> bool" where
  "caps_length k (MaxLength l) = (l \<le> k)"
| "caps_length k (Length l m) = (m \<le> k)"
| "caps_length k _ = False"

fun at_least :: "int \<Rightarrow> decorator \<Rightarrow> bool" where
  "at_least k (Min n) = (k \<le> n)"
| "at_least k _ = False"

fun at_most :: "int \<Rightarrow> decorator \<Rightarrow> bool" where
  "at_most k (Max n) = (n \<le> k)"
| "at_most k _ = False"

fun only_from :: "string list \<Rightarrow> decorator \<Rightarrow> bool" where
  "only_from xs (IsEnum ys) = list_all (\<lambda>y. y \<in> set xs) ys"
| "only_from xs (IsIn ys) = list_all (\<lambda>y. y \<in> set xs) ys"
| "only_from xs _ = False"

fun guards :: "decorator list \<Rightarrow> ty \<Rightarrow> bool"
  and guards_members :: "properties \<Rightarrow> members \<Rightarrow> bool" where
  "guards ds (TString hi) = (list_ex forces_string ds \<and> (case hi of None \<Rightarrow> True | Some k \<Rightarrow> list_ex (caps_length k) ds))"
| "guards ds (TInt lo hi) = (IsInt \<in> set ds \<and> (case lo of None \<Rightarrow> True | Some k \<Rightarrow> list_ex (at_least k) ds)
     \<and> (case hi of None \<Rightarrow> True | Some k \<Rightarrow> list_ex (at_most k) ds))"
| "guards ds TNumber = (IsInt \<in> set ds \<or> IsNumber \<in> set ds)"
| "guards ds TBoolean = (IsBoolean \<in> set ds)"
| "guards ds (TEnum xs) = list_ex (only_from xs) ds"
| "guards ds TUnknown = True"
| "guards ds (TArray t) = list_ex (\<lambda>d. case d of
     Each d' \<Rightarrow> guards [d'] t
   | NestedEach ps \<Rightarrow> (case t of TClass fs \<Rightarrow> guards_members ps fs | _ \<Rightarrow> False)
   | _ \<Rightarrow> False) ds"
| "guards ds (TClass fs) = False"
| "guards_members ps [] = True"
| "guards_members ps ((n, opt, t) # fs) = ((case map_of ps n of
     None \<Rightarrow> False | Some ds \<Rightarrow> (may_be_absent ds \<longrightarrow> opt) \<and> guards ds t) \<and> guards_members ps fs)"

lemma all_meet_iff: "all_meet F ds v \<longleftrightarrow> (\<forall>d\<in>set ds. meets F d v)"
  by (induction ds) auto

lemma all_propertiesD:
  "all_properties F ps ms \<Longrightarrow> map_of ps n = Some ds \<Longrightarrow>
   if absent (map_of ms n) then may_be_absent ds else all_meet F ds (the (map_of ms n))"
  by (induction ps) (auto split: if_splits)

lemma meets_string: "forces_string d \<Longrightarrow> meets F d v \<Longrightarrow> \<exists>s. v = JStr s"
  by (cases d; cases v) auto

lemma guards_sound:
  "guards ds t \<Longrightarrow> all_meet F ds v \<Longrightarrow> has_type True t v"
  "guards_members ps fs \<Longrightarrow> all_properties F ps ms \<Longrightarrow> has_members True fs ms"
proof (induction ds t and ps fs arbitrary: v and ms rule: guards_guards_members.induct)
  case (1 ds hi)
  then obtain d where "d \<in> set ds" "forces_string d" "meets F d v" by (auto simp: list_ex_iff all_meet_iff)
  then obtain s where "v = JStr s" using meets_string by blast
  then show ?case using 1 by (fastforce simp: list_ex_iff all_meet_iff split: option.splits elim: caps_length.elims)
next
  case (2 ds lo hi)
  then have "meets F IsInt v" by (auto simp: all_meet_iff)
  then obtain n where "v = JNum n" by (cases v) auto
  then show ?case using 2 by (fastforce simp: list_ex_iff all_meet_iff split: option.splits elim: at_least.elims at_most.elims)
next
  case (3 ds)
  then have "meets F IsInt v \<or> meets F IsNumber v" by (auto simp: all_meet_iff)
  then show ?case by (cases v) auto
next
  case (4 ds)
  then have "meets F IsBoolean v" by (auto simp: all_meet_iff)
  then show ?case by (cases v) auto
next
  case (5 ds xs)
  then obtain d where "only_from xs d" "meets F d v" by (auto simp: list_ex_iff all_meet_iff)
  then show ?case by (cases d; cases v) (auto simp: list_all_iff)
next
  case (7 ds t)
  then obtain d where d: "d \<in> set ds" "meets F d v" "case d of Each d' \<Rightarrow> guards [d'] t
     | NestedEach ps \<Rightarrow> (case t of TClass fs \<Rightarrow> guards_members ps fs | _ \<Rightarrow> False) | _ \<Rightarrow> False" by (auto simp: list_ex_iff all_meet_iff)
  show ?case
  proof (cases d)
    case (Each d')
    with d obtain xs where "v = JArr xs" "list_all (meets F d') xs" by (cases v) auto
    with 7(1) [OF d(1) Each] d(3) Each show ?thesis by (auto simp: list_all_iff)
  next
    case (NestedEach ps)
    with d obtain xs fs where t: "v = JArr xs" "t = TClass fs" "guards_members ps fs"
        "list_all (\<lambda>x. case x of JNull \<Rightarrow> True | JObj ms \<Rightarrow> all_properties F ps ms | _ \<Rightarrow> False) xs"
      by (cases v; cases t) auto
    then have "x = JNull \<or> has_type True t x" if "x \<in> set xs" for x
      using that 7(2) [OF d(1) NestedEach t(2,3)] by (cases x) (auto simp: list_all_iff dest!: bspec)
    with t show ?thesis by (auto simp: list_all_iff)
  qed (use d(3) in auto)
next
  case (10 ps n opt t fs)
  then show ?case by (auto dest!: all_propertiesD split: option.splits if_splits)
qed auto

end
