(* ===== verification/Dto_Classes.thy ===== *)
theory Dto_Classes
  imports Validation
begin

text \<open>
  The classes of \<open>src/**/dto\<close> and of the controllers: for every property its name, whether it is declared optional, its declared type
  with the limits that the documentation decorators announce, and the decorators in their order.  A number that handlers count
  with is declared as an integer.  Texts are sequences of bytes in UTF-8.
\<close>

type_synonym dto_class = "(string \<times> bool \<times> ty \<times> decorator list) list"

definition properties_of :: "dto_class \<Rightarrow> properties" where
  "properties_of c = map (\<lambda>(n, opt, t, ds). (n, ds)) c"

definition declared :: "dto_class \<Rightarrow> members" where
  "declared c = map (\<lambda>(n, opt, t, ds). (n, opt, t)) c"

section \<open>Enumerations\<close>

definition MessageContentType_values :: "string list" where
  "MessageContentType_values = [''TEXT'', ''LOCATION'', ''VENUE'']"

definition DevicePlatform_values :: "string list" where
  "DevicePlatform_values = [''ANDROID'', ''IOS'', ''WEB'', ''MACOS'', ''WINDOWS'', ''LINUX'']"

definition PushPlatform_values :: "string list" where
  "PushPlatform_values = [''FCM'', ''APNS'', ''HMS'']"

definition ACK_STATUSES :: "string list" where
  "ACK_STATUSES = [''DELIVERED'', ''READ'']"

definition DeleteMessageScope_values :: "string list" where
  "DeleteMessageScope_values = [''FOR_ME'', ''FOR_EVERYONE'']"

definition MediaType_values :: "string list" where
  "MediaType_values = [''IMAGE'', ''VIDEO'', ''AUDIO'', ''DOCUMENT'']"

definition THREAD_TYPES :: "string list" where
  "THREAD_TYPES = [''direct'', ''group'']"

definition DailyMetricKind_values :: "string list" where
  "DailyMetricKind_values = [''MESSAGES_SENT_DIRECT'', ''MESSAGES_SENT_GROUP'', ''DAU'', ''NEW_USERS'', ''REPORTS_OPENED'', ''REPORTS_RESOLVED'', ''USERS_SUSPENDED'']"

definition UserRole_values :: "string list" where
  "UserRole_values = [''USER'', ''MODERATOR'', ''ADMIN'']"

definition ReportReason_values :: "string list" where
  "ReportReason_values = [''SPAM'', ''HARASSMENT'', ''HATE_SPEECH'', ''SEXUAL_CONTENT'', ''VIOLENCE'', ''IMPERSONATION'', ''OTHER'']"

definition AdminAuditAction_values :: "string list" where
  "AdminAuditAction_values = [''MESSAGE_TOMBSTONE'', ''MESSAGE_UNTOMBSTONE'', ''USER_SUSPEND'', ''USER_UNSUSPEND'', ''REPORT_DISMISS'', ''REPORT_REVIEW_START'', ''ROLE_PROMOTE'', ''ROLE_DEMOTE'', ''METRICS_ROLLUP'', ''STRIKE_RESET'']"

definition AdminAuditTargetType_values :: "string list" where
  "AdminAuditTargetType_values = [''MESSAGE'', ''USER'', ''REPORT'']"

definition ReportStatus_values :: "string list" where
  "ReportStatus_values = [''OPEN'', ''IN_REVIEW'', ''CLOSED'']"

definition ALLOWED_EMOJIS :: "string list" where
  "ALLOWED_EMOJIS = [
     [CHR 0xF0, CHR 0x9F, CHR 0x91, CHR 0x8D],
     [CHR 0xF0, CHR 0x9F, CHR 0x91, CHR 0x8E],
     [CHR 0xE2, CHR 0x9D, CHR 0xA4, CHR 0xEF, CHR 0xB8, CHR 0x8F],
     [CHR 0xF0, CHR 0x9F, CHR 0x94, CHR 0xA5],
     [CHR 0xF0, CHR 0x9F, CHR 0x98, CHR 0x82],
     [CHR 0xF0, CHR 0x9F, CHR 0x98, CHR 0xAE],
     [CHR 0xF0, CHR 0x9F, CHR 0x98, CHR 0xA2],
     [CHR 0xF0, CHR 0x9F, CHR 0x8E, CHR 0x89],
     [CHR 0xF0, CHR 0x9F, CHR 0x99, CHR 0x8F],
     [CHR 0xF0, CHR 0x9F, CHR 0x92, CHR 0xAF],
     [CHR 0xF0, CHR 0x9F, CHR 0x91, CHR 0x8F],
     [CHR 0xF0, CHR 0x9F, CHR 0xA4, CHR 0x94],
     [CHR 0xF0, CHR 0x9F, CHR 0x98, CHR 0x8D],
     [CHR 0xF0, CHR 0x9F, CHR 0xA5, CHR 0xB3],
     [CHR 0xF0, CHR 0x9F, CHR 0x98, CHR 0x8E],
     [CHR 0xF0, CHR 0x9F, CHR 0x92, CHR 0xAA],
     [CHR 0xE2, CHR 0x9C, CHR 0xA8],
     [CHR 0xF0, CHR 0x9F, CHR 0x9A, CHR 0x80],
     [CHR 0xF0, CHR 0x9F, CHR 0x91, CHR 0x80],
     [CHR 0xF0, CHR 0x9F, CHR 0x92, CHR 0x80]]"

section \<open>Classes\<close>

definition MessageEnvelopeDto :: dto_class where
  "MessageEnvelopeDto = [(''recipientDeviceId'', False, TString None, [IsUUID]),
     (''ciphertext'', False, TUnknown, [IsDefined])]"

definition SendMessageDto :: dto_class where
  "SendMessageDto = [(''senderDeviceId'', False, TString None, [IsUUID]),
     (''recipientUserId'', False, TString None, [IsUUID]),
     (''idempotencyKey'', False, TString None, [IsString, MinLength 8, MaxLength 128]),
     (''contentType'', True, TEnum MessageContentType_values, [IsOptional, IsEnum MessageContentType_values]),
     (''replyToMessageId'', True, TString None, [IsOptional, IsUUID]),
     (''mediaIds'', True, TArray (TString None), [IsOptional, IsArray, ArrayMaxSize 10, Each IsUUID]),
     (''envelopes'', False, TArray (TClass (declared MessageEnvelopeDto)), [IsArray, ArrayMinSize 1, NestedEach (properties_of MessageEnvelopeDto)])]"

definition LogoutDto :: dto_class where
  "LogoutDto = [(''refreshToken'', True, TString None, [IsOptional, IsString, MinLength 20]),
     (''deviceId'', True, TString None, [IsOptional, IsString])]"

definition RefreshTokenDto :: dto_class where
  "RefreshTokenDto = [(''refreshToken'', False, TString None, [IsString, MinLength 20])]"

definition RequestOtpDto :: dto_class where
  "RequestOtpDto = [(''phone'', False, TString None, [IsString, IsPhoneNumber])]"

definition VerifyOtpDto :: dto_class where
  "VerifyOtpDto = [(''phone'', False, TString None, [IsString, IsPhoneNumber]),
     (''code'', False, TString None, [IsString, Length 4 8])]"

definition PutBackupDto :: dto_class where
  "PutBackupDto = [(''version'', False, TInt None None, [IsInt, Min 1]),
     (''bucketKey'', False, TString None, [IsString, MinLength 1]),
     (''sha256'', False, TString None, [IsString, MinLength 16, MaxLength 256]),
     (''sizeBytes'', False, TInt None None, [IsInt, Min 1])]"

definition UploadUrlDto :: dto_class where
  "UploadUrlDto = [(''sizeBytes'', False, TInt None None, [IsInt, Min 1]),
     (''version'', False, TInt None None, [IsInt, Min 1])]"

definition RegisterDeviceDto :: dto_class where
  "RegisterDeviceDto = [(''deviceId'', True, TString None, [IsOptional, IsUUID]),
     (''platform'', False, TEnum DevicePlatform_values, [IsEnum DevicePlatform_values]),
     (''displayName'', True, TString None, [IsOptional, IsString]),
     (''identityPublicKey'', False, TString None, [IsString, MinLength 16]),
     (''pushToken'', True, TString None, [IsOptional, IsString]),
     (''pushPlatform'', True, TEnum PushPlatform_values, [IsOptional, IsEnum PushPlatform_values]),
     (''pushActive'', True, TBoolean, [IsOptional, IsBoolean])]"

definition ThreadMessagesQueryDto :: dto_class where
  "ThreadMessagesQueryDto = [(''limit'', True, TInt None None, [IsOptional, TypeNumber, IsInt, Min 1, Max 100]),
     (''beforeSequence'', True, TInt None None, [IsOptional, TypeNumber, IsInt]),
     (''afterSequence'', True, TInt None None, [IsOptional, TypeNumber, IsInt])]"

definition CreateGroupDto :: dto_class where
  "CreateGroupDto = [(''encryptedMetadata'', False, TUnknown, [IsDefined]),
     (''members'', False, TArray (TString None), [IsArray, Each IsUUID])]"

definition EditGroupMessageDto :: dto_class where
  "EditGroupMessageDto = [(''senderDeviceId'', False, TString None, [IsUUID]),
     (''idempotencyKey'', False, TString None, [IsString, MinLength 8, MaxLength 128]),
     (''ciphertext'', False, TUnknown, [IsDefined])]"

definition SendGroupMessageDto :: dto_class where
  "SendGroupMessageDto = [(''senderDeviceId'', False, TString None, [IsUUID]),
     (''idempotencyKey'', False, TString None, [IsString, MinLength 8, MaxLength 128]),
     (''contentType'', True, TEnum MessageContentType_values, [IsOptional, IsEnum MessageContentType_values]),
     (''replyToMessageId'', True, TString None, [IsOptional, IsUUID]),
     (''mediaIds'', True, TArray (TString None), [IsOptional, IsArray, ArrayMaxSize 10, Each IsUUID]),
     (''ciphertext'', False, TUnknown, [IsDefined])]"

definition UpdateGroupDto :: dto_class where
  "UpdateGroupDto = [(''encryptedMetadata'', False, TUnknown, [IsDefined])]"

definition GroupMessagesQueryDto :: dto_class where
  "GroupMessagesQueryDto = [(''limit'', True, TInt None None, [IsOptional, TypeNumber, IsInt, Min 1, Max 100]),
     (''beforeSequence'', True, TInt None None, [IsOptional, TypeNumber, IsInt]),
     (''afterSequence'', True, TInt None None, [IsOptional, TypeNumber, IsInt])]"

definition AckMessageDto :: dto_class where
  "AckMessageDto = [(''deviceId'', False, TString None, [IsUUID]),
     (''status'', False, TEnum ACK_STATUSES, [IsIn ACK_STATUSES])]"

definition CompleteMediaDto :: dto_class where
  "CompleteMediaDto = [(''sizeBytes'', False, TInt None None, [TypeNumber, IsInt, Min 1])]"

definition DeleteMessageDto :: dto_class where
  "DeleteMessageDto = [(''deviceId'', False, TString None, [IsUUID]),
     (''scope'', False, TEnum DeleteMessageScope_values, [IsEnum DeleteMessageScope_values])]"

definition EditMessageEnvelopeDto :: dto_class where
  "EditMessageEnvelopeDto = [(''recipientDeviceId'', False, TString None, [IsUUID]),
     (''ciphertext'', False, TUnknown, [IsDefined])]"

definition EditMessageDto :: dto_class where
  "EditMessageDto = [(''senderDeviceId'', False, TString None, [IsUUID]),
     (''idempotencyKey'', False, TString None, [IsString, MinLength 8, MaxLength 128]),
     (''envelopes'', False, TArray (TClass (declared EditMessageEnvelopeDto)), [IsArray, ArrayMinSize 1, NestedEach (properties_of EditMessageEnvelopeDto)])]"

definition ForwardTargetDto :: dto_class where
  "ForwardTargetDto = [(''type'', False, TEnum [''direct'', ''group''], [IsString, IsIn [''direct'', ''group'']]),
     (''recipientUserId'', True, TString None, [IsOptional, IsUUID]),
     (''groupId'', True, TString None, [IsOptional, IsUUID]),
     (''envelopes'', True, TArray (TClass (declared MessageEnvelopeDto)), [IsOptional, IsArray, ArrayMinSize 1, NestedEach (properties_of MessageEnvelopeDto)]),
     (''ciphertext'', True, TUnknown, [IsOptional, IsDefined])]"

definition ForwardMessageDto :: dto_class where
  "ForwardMessageDto = [(''sourceMessageId'', False, TString None, [IsUUID]),
     (''senderDeviceId'', False, TString None, [IsUUID]),
     (''idempotencyKey'', False, TString None, [IsString, MinLength 8, MaxLength 128]),
     (''targets'', False, TArray (TClass (declared ForwardTargetDto)), [IsArray, ArrayMinSize 1, ArrayMaxSize 20, NestedEach (properties_of ForwardTargetDto)])]"

definition InitMediaDto :: dto_class where
  "InitMediaDto = [(''mediaType'', False, TEnum MediaType_values, [IsEnum MediaType_values]),
     (''filename'', False, TString None, [IsString, IsNotEmpty, MaxLength 256]),
     (''mimeType'', False, TString None, [IsString, IsNotEmpty, MaxLength 128]),
     (''sizeBytes'', False, TInt None None, [TypeNumber, IsInt, Min 1, Max (100 * 1024 * 1024)]),
     (''mediaCiphertextHash'', False, TString None, [IsString, IsNotEmpty, MaxLength 256]),
     (''thumbnailCiphertextHash'', True, TString None, [IsOptional, IsString, MaxLength 256]),
     (''width'', True, TInt None None, [IsOptional, TypeNumber, IsInt, Min 1]),
     (''height'', True, TInt None None, [IsOptional, TypeNumber, IsInt, Min 1]),
     (''duration'', True, TInt None None, [IsOptional, TypeNumber, IsInt, Min 1])]"

definition MarkAllReadDto :: dto_class where
  "MarkAllReadDto = [(''threadId'', False, TString None, [IsUUID]),
     (''threadType'', False, TEnum THREAD_TYPES, [IsIn THREAD_TYPES]),
     (''deviceId'', False, TString None, [IsUUID])]"

definition PendingQueryDto :: dto_class where
  "PendingQueryDto = [(''deviceId'', False, TString None, [IsUUID]),
     (''after'', True, TString None, [IsOptional, IsString]),
     (''limit'', True, TInt None None, [IsOptional, TypeNumber, IsInt, Min 1, Max 200])]"

definition SyncQueryDto :: dto_class where
  "SyncQueryDto = [(''deviceId'', False, TString None, [IsUUID]),
     (''since'', False, TString None, [IsDateString]),
     (''limit'', True, TInt None None, [IsOptional])]"

definition ListMineQueryDto :: dto_class where
  "ListMineQueryDto = [(''limit'', True, TInt (Some 1) (Some 100), [IsOptional, TypeNumber, IsInt, Min 1, Max 100])]"

definition AnalyticsQueryDto :: dto_class where
  "AnalyticsQueryDto = [(''kind'', False, TEnum DailyMetricKind_values, [IsEnum DailyMetricKind_values]),
     (''from'', True, TString None, [IsOptional, IsISO8601]),
     (''to'', True, TString None, [IsOptional, IsISO8601]),
     (''dimension'', True, TString (Some 64), [IsOptional]),
     (''days'', True, TInt (Some 1) (Some 366), [IsOptional, TypeNumber, IsInt, Min 1, Max 366])]"

definition ChangeUserRoleDto :: dto_class where
  "ChangeUserRoleDto = [(''role'', False, TEnum UserRole_values, [IsEnum UserRole_values]),
     (''reason'', True, TString (Some 1000), [IsOptional, IsString, MaxLength 1000])]"

definition AdminActionTargetDto :: dto_class where
  "AdminActionTargetDto = [(''reportId'', True, TString None, [IsOptional, IsUUID])]"

definition CreateReportDto :: dto_class where
  "CreateReportDto = [(''messageId'', False, TString None, [IsUUID]),
     (''reason'', False, TEnum ReportReason_values, [IsEnum ReportReason_values]),
     (''freeText'', True, TString (Some 2000), [IsOptional, IsString, MaxLength 2000])]"

definition DismissReportDto :: dto_class where
  "DismissReportDto = [(''reason'', True, TString (Some 1000), [IsOptional, IsString, MaxLength 1000])]"

definition ListAuditLogQueryDto :: dto_class where
  "ListAuditLogQueryDto = [(''action'', True, TEnum AdminAuditAction_values, [IsOptional, IsEnum AdminAuditAction_values]),
     (''targetType'', True, TEnum AdminAuditTargetType_values, [IsOptional, IsEnum AdminAuditTargetType_values]),
     (''actorUserId'', True, TString None, [IsOptional, IsUUID]),
     (''targetId'', True, TString None, [IsOptional, IsUUID]),
     (''from'', True, TString None, [IsOptional, IsISO8601]),
     (''to'', True, TString None, [IsOptional, IsISO8601]),
     (''searchText'', True, TString None, [IsOptional, IsString]),
     (''cursor'', True, TString None, [IsOptional, IsString]),
     (''limit'', True, TInt (Some 1) (Some 100), [IsOptional, TypeNumber, IsInt, Min 1, Max 100])]"

definition ListReportsQueryDto :: dto_class where
  "ListReportsQueryDto = [(''status'', True, TEnum ReportStatus_values, [IsOptional, IsEnum ReportStatus_values]),
     (''reason'', True, TEnum ReportReason_values, [IsOptional, IsEnum ReportReason_values]),
     (''cursor'', True, TString None, [IsOptional, IsString]),
     (''limit'', True, TInt (Some 1) (Some 100), [IsOptional, TypeNumber, IsInt, Min 1, Max 100])]"

definition ResetStrikesDto :: dto_class where
  "ResetStrikesDto = [(''reason'', False, TString None, [IsString, IsNotEmpty, MaxLength 500])]"

definition RollupDateDto :: dto_class where
  "RollupDateDto = [(''date'', False, TString None, [IsNotEmpty, MatchesDate])]"

definition SuspendUserDto :: dto_class where
  "SuspendUserDto = [(''reason'', True, TString (Some 1000), [IsOptional, IsString, MaxLength 1000]),
     (''expiresAt'', True, TString None, [IsOptional, IsISO8601]),
     (''reportId'', True, TString None, [IsOptional, IsUUID])]"

definition TombstoneMessageDto :: dto_class where
  "TombstoneMessageDto = [(''reason'', True, TString (Some 1000), [IsOptional, IsString, MaxLength 1000]),
     (''reportId'', True, TString None, [IsOptional, IsString])]"

definition UnsuspendUserDto :: dto_class where
  "UnsuspendUserDto = [(''reason'', True, TString (Some 1000), [IsOptional, IsString, MaxLength 1000])]"

definition OneTimePrekeyDto :: dto_class where
  "OneTimePrekeyDto = [(''keyId'', False, TInt None None, [IsInt, Min 1]),
     (''publicKey'', False, TString None, [IsString, MinLength 16])]"

definition RefillPrekeysDto :: dto_class where
  "RefillPrekeysDto = [(''prekeys'', False, TArray (TClass (declared OneTimePrekeyDto)), [IsArray, ArrayMinSize 1, ArrayMaxSize 200, NestedEach (properties_of OneTimePrekeyDto)])]"

definition RotateSignedPrekeyDto :: dto_class where
  "RotateSignedPrekeyDto = [(''keyId'', False, TInt None None, [IsInt, Min 1]),
     (''publicKey'', False, TString None, [IsString, MinLength 16]),
     (''signature'', False, TString None, [IsString, MinLength 16])]"

definition SendReactionDto :: dto_class where
  "SendReactionDto = [(''emoji'', False, TEnum ALLOWED_EMOJIS, [IsString, IsIn ALLOWED_EMOJIS])]"

definition CreateRealtimeTokenDto :: dto_class where
  "CreateRealtimeTokenDto = [(''deviceId'', False, TString None, [IsUUID])]"

definition TypingDto :: dto_class where
  "TypingDto = [(''recipientUserId'', True, TString None, [IsOptional, IsUUID]),
     (''groupId'', True, TString None, [IsOptional, IsUUID])]"

definition PresignedUploadDto :: dto_class where
  "PresignedUploadDto = [(''filename'', False, TString None, [IsString, IsNotEmpty]),
     (''mimeType'', False, TString None, [IsString, IsNotEmpty]),
     (''sizeBytes'', False, TNumber, [IsNumber, Min 1]),
     (''purpose'', False, TEnum [''avatar'', ''media''], [IsString, IsIn [''avatar'', ''media'']])]"

definition UpdateProfileDto :: dto_class where
  "UpdateProfileDto = [(''username'', True, TString None, [IsOptional, IsString, Length 3 30]),
     (''profileAvatarUrl'', True, TString None, [IsOptional, IsString]),
     (''encryptedProfile'', True, TUnknown, [IsOptional, IsObject]),
     (''profileKeyHash'', True, TString None, [IsOptional, IsString])]"

definition SyncContactsDto :: dto_class where
  "SyncContactsDto = [(''phoneHashes'', True, TArray (TString None), [IsOptional, IsArray, Each IsString]),
     (''phones'', True, TArray (TString None), [IsOptional, IsArray, Each IsString])]"


section \<open>Accepted bodies have their declared type\<close>

text \<open>The classes that handlers declare for a body or a query\<close>

definition body_classes :: "dto_class list" where
  "body_classes = [SendMessageDto, LogoutDto, RefreshTokenDto, RequestOtpDto, VerifyOtpDto, PutBackupDto, UploadUrlDto,
     RegisterDeviceDto, ThreadMessagesQueryDto, CreateGroupDto, EditGroupMessageDto, SendGroupMessageDto,
     UpdateGroupDto, GroupMessagesQueryDto, AckMessageDto, CompleteMediaDto, DeleteMessageDto, EditMessageDto,
     ForwardMessageDto, InitMediaDto, MarkAllReadDto, PendingQueryDto, SyncQueryDto, ListMineQueryDto,
     AnalyticsQueryDto, ChangeUserRoleDto, CreateReportDto, DismissReportDto, ListAuditLogQueryDto, ListReportsQueryDto,
     ResetStrikesDto, RollupDateDto, SuspendUserDto, TombstoneMessageDto, UnsuspendUserDto, RefillPrekeysDto,
     RotateSignedPrekeyDto, SendReactionDto, CreateRealtimeTokenDto, PresignedUploadDto, UpdateProfileDto,
     SyncContactsDto]"


lemma bodies_guarded: "c \<in> set body_classes \<Longrightarrow> c \<noteq> SyncQueryDto \<Longrightarrow> c \<noteq> AnalyticsQueryDto \<Longrightarrow> guards_members (properties_of c) (declared c)"
proof -
  have "list_all (\<lambda>c. c = SyncQueryDto \<or> c = AnalyticsQueryDto \<or> guards_members (properties_of c) (declared c)) body_classes"
    by code_simp
  then show "c \<in> set body_classes \<Longrightarrow> c \<noteq> SyncQueryDto \<Longrightarrow> c \<noteq> AnalyticsQueryDto \<Longrightarrow> guards_members (properties_of c) (declared c)"
    by (auto simp: list_all_iff)
qed


text \<open>A pipe that keeps the promise, and a message that it accepts\<close>

definition demo_formats :: formats where
  "demo_formats = \<lparr>is_uuid = (\<lambda>s. length s = 36), is_iso8601 = (\<lambda>s. 10 \<le> length s), is_dateString = (\<lambda>s. 10 \<le> length s),
     is_phone = (\<lambda>s. take 1 s = ''+''), is_isoDay = (\<lambda>s. length s = 10)\<rparr>"

definition demo_pipe :: "properties \<Rightarrow> json \<Rightarrow> json option" where
  "demo_pipe ps body = (case body of JObj ms \<Rightarrow> if conforms demo_formats ps ms then Some body else None | _ \<Rightarrow> None)"

lemma demo_pipe_documented: "documented_pipe demo_formats demo_pipe"
  by (auto simp: documented_pipe_def demo_pipe_def split: json.splits if_splits)

definition demo_uuid :: string where
  "demo_uuid = replicate 36 (CHR ''a'')"

definition demo_message_body :: "json list \<Rightarrow> json" where
  "demo_message_body es = JObj [(''senderDeviceId'', JStr demo_uuid), (''recipientUserId'', JStr demo_uuid),
     (''idempotencyKey'', JStr ''12345678''), (''replyToMessageId'', JNull), (''envelopes'', JArr es)]"

definition demo_envelope_body :: json where
  "demo_envelope_body = JObj [(''recipientDeviceId'', JStr demo_uuid), (''ciphertext'', JObj [])]"


section \<open>Where the declared type is not enforced\<close>

text \<open>A \<open>null\<close> among the envelopes is accepted, although the declared type has no \<open>null\<close> there.\<close>

lemma null_envelope_accepted:
  "demo_pipe (properties_of SendMessageDto) (demo_message_body [JNull]) = Some (demo_message_body [JNull])
     \<and> \<not> has_type False (TClass (declared SendMessageDto)) (demo_message_body [JNull])"
  by code_simp

text \<open>The limit of a synchronisation can be any text, the dimension of an analytics query any value.\<close>

lemma unchecked_queries:
  "conforms demo_formats (properties_of SyncQueryDto) [(''deviceId'', JStr demo_uuid), (''since'', JStr ''2026-01-01''), (''limit'', JStr ''ten'')]
     \<and> \<not> has_members True (declared SyncQueryDto) [(''deviceId'', JStr demo_uuid), (''since'', JStr ''2026-01-01''), (''limit'', JStr ''ten'')]"
  "conforms demo_formats (properties_of AnalyticsQueryDto) [(''kind'', JStr ''DAU''), (''dimension'', JArr [])]
     \<and> \<not> has_members True (declared AnalyticsQueryDto) [(''kind'', JStr ''DAU''), (''dimension'', JArr [])]"
  by code_simp+

end
