(* ===== verification/Startup.thy ===== *)
theory Startup
  imports Housekeeping Keys Media Http_Edge Telegram
begin

text \<open>
  What happens before the first request: the configuration is completed with the defaults of
  \<open>src/common/config/env.validation.ts\<close>, \<open>src/main.ts\<close> puts a gate in front of the queue dashboard, and the Telegram bot is switched on or off.
\<close>

section \<open>The configuration\<close>

definition orElse :: "'a option \<Rightarrow> 'a \<Rightarrow> 'a option" where
  "orElse x y = Some (coalesce x y)"

text \<open>The keys with a default; the others stay as they are.\<close>

definition envValidationSchema :: "config \<Rightarrow> config" where
  "envValidationSchema c = c\<lparr>NODE_ENV := orElse (NODE_ENV c) ''development'',
     REFRESH_TOKEN_TTL_DAYS := orElse (REFRESH_TOKEN_TTL_DAYS c) 30,
     WEBSOCKET_TICKET_TTL_SECONDS := orElse (WEBSOCKET_TICKET_TTL_SECONDS c) 60,
     OTP_TTL_SECONDS := orElse (OTP_TTL_SECONDS c) 300,
     OTP_RESEND_COOLDOWN_SECONDS := orElse (OTP_RESEND_COOLDOWN_SECONDS c) 120,
     OTP_MAX_ATTEMPTS := orElse (OTP_MAX_ATTEMPTS c) 5,
     OTP_LOCKOUT_SECONDS := orElse (OTP_LOCKOUT_SECONDS c) 900,
     MAX_ACTIVE_DEVICES := orElse (MAX_ACTIVE_DEVICES c) 3,
     PUSH_PROVIDER := orElse (PUSH_PROVIDER c) ''logger'',
     R2_PRESIGNED_GET_TTL_SECONDS := orElse (R2_PRESIGNED_GET_TTL_SECONDS c) 300,
     MESSAGE_EDIT_DELETE_LIMIT_HOURS := orElse (MESSAGE_EDIT_DELETE_LIMIT_HOURS c) 48,
     ENABLE_MESSAGE_EDIT_DELETE_LIMIT := orElse (ENABLE_MESSAGE_EDIT_DELETE_LIMIT c) True,
     MEDIA_MAX_ATTACHMENTS_PER_MESSAGE := orElse (MEDIA_MAX_ATTACHMENTS_PER_MESSAGE c) 10,
     MEDIA_PENDING_TIMEOUT_HOURS := orElse (MEDIA_PENDING_TIMEOUT_HOURS c) 24,
     REPORTS_DAILY_LIMIT := orElse (REPORTS_DAILY_LIMIT c) 200,
     REPORTS_PER_IP_PER_MINUTE := orElse (REPORTS_PER_IP_PER_MINUTE c) 50,
     REPORT_RETENTION_DAYS := orElse (REPORT_RETENTION_DAYS c) 365,
     DAILY_METRICS_RETENTION_DAYS := orElse (DAILY_METRICS_RETENTION_DAYS c) 365\<rparr>"

abbreviation completed :: "env \<Rightarrow> env" where
  "completed e \<equiv> e\<lparr>cfg := envValidationSchema (cfg e)\<rparr>"

text \<open>The services have fallbacks of their own for missing keys.  They agree with the schema: whatever the operator sets, completing the
  configuration changes no limit, no lifetime and no decision.\<close>

lemma orElse_coalesce [simp]: "coalesce (orElse x y) y = coalesce x y"
  by (simp add: orElse_def)

lemma schema_reads [simp]:
  "PREKEY_MAX_TOTAL (envValidationSchema c) = PREKEY_MAX_TOTAL c" "OTP_MOCK_CODE (envValidationSchema c) = OTP_MOCK_CODE c"
  "NODE_ENV (envValidationSchema c) = Some ''production'' \<longleftrightarrow> NODE_ENV c = Some ''production''"
  "PHONE_HASH_PEPPER (envValidationSchema c) = PHONE_HASH_PEPPER c" "TELEGRAM_BOT_USERNAME (envValidationSchema c) = TELEGRAM_BOT_USERNAME c"
  by (simp_all add: envValidationSchema_def, cases "NODE_ENV c", simp_all add: orElse_def)

lemma schema_defaults [simp]:
  "coalesce (OTP_TTL_SECONDS (envValidationSchema c)) 300 = coalesce (OTP_TTL_SECONDS c) 300"
  "coalesce (OTP_MAX_ATTEMPTS (envValidationSchema c)) 5 = coalesce (OTP_MAX_ATTEMPTS c) 5"
  "coalesce (OTP_LOCKOUT_SECONDS (envValidationSchema c)) 900 = coalesce (OTP_LOCKOUT_SECONDS c) 900"
  "coalesce (OTP_RESEND_COOLDOWN_SECONDS (envValidationSchema c)) 120 = coalesce (OTP_RESEND_COOLDOWN_SECONDS c) 120"
  "coalesce (REFRESH_TOKEN_TTL_DAYS (envValidationSchema c)) 30 = coalesce (REFRESH_TOKEN_TTL_DAYS c) 30"
  "coalesce (WEBSOCKET_TICKET_TTL_SECONDS (envValidationSchema c)) 60 = coalesce (WEBSOCKET_TICKET_TTL_SECONDS c) 60"
  "coalesce (R2_PRESIGNED_GET_TTL_SECONDS (envValidationSchema c)) 300 = coalesce (R2_PRESIGNED_GET_TTL_SECONDS c) 300"
  "coalesce (MESSAGE_EDIT_DELETE_LIMIT_HOURS (envValidationSchema c)) 48 = coalesce (MESSAGE_EDIT_DELETE_LIMIT_HOURS c) 48"
  "coalesce (ENABLE_MESSAGE_EDIT_DELETE_LIMIT (envValidationSchema c)) True = coalesce (ENABLE_MESSAGE_EDIT_DELETE_LIMIT c) True"
  "coalesce (MEDIA_MAX_ATTACHMENTS_PER_MESSAGE (envValidationSchema c)) 10 = coalesce (MEDIA_MAX_ATTACHMENTS_PER_MESSAGE c) 10"
  "coalesce (MEDIA_PENDING_TIMEOUT_HOURS (envValidationSchema c)) 24 = coalesce (MEDIA_PENDING_TIMEOUT_HOURS c) 24"
  "coalesce (REPORTS_DAILY_LIMIT (envValidationSchema c)) 200 = coalesce (REPORTS_DAILY_LIMIT c) 200"
  "coalesce (REPORTS_PER_IP_PER_MINUTE (envValidationSchema c)) 50 = coalesce (REPORTS_PER_IP_PER_MINUTE c) 50"
  "coalesce (REPORT_RETENTION_DAYS (envValidationSchema c)) 365 = coalesce (REPORT_RETENTION_DAYS c) 365"
  "coalesce (DAILY_METRICS_RETENTION_DAYS (envValidationSchema c)) 365 = coalesce (DAILY_METRICS_RETENTION_DAYS c) 365"
  by (simp_all add: envValidationSchema_def)

lemma limits_agree:
  "otp_ttl (completed e) = otp_ttl e" "otp_max (completed e) = otp_max e" "otp_lockout (completed e) = otp_lockout e"
  "maxActiveDevices (completed e) = maxActiveDevices e" "maxPrekeys (completed e) = maxPrekeys e"
  "daily_limit (completed e) = daily_limit e" "ip_limit (completed e) = ip_limit e" "pendingTimeoutMs (completed e) = pendingTimeoutMs e"
  "within_limit (completed e) msg = within_limit e msg" "prune_db (completed e) d = prune_db e d"
  by (simp_all add: otp_ttl_def otp_max_def otp_lockout_def maxPrekeys_def daily_limit_def ip_limit_def pendingTimeoutMs_def within_limit_def prune_db_def)
     (cases "MAX_ACTIVE_DEVICES (cfg e)"; simp add: maxActiveDevices_def envValidationSchema_def orElse_def)

lemma sessions_agree:
  "fresh (completed e) = fresh e" "new_token (completed e) i u tok fam mt = new_token e i u tok fam mt"
  "createSocketTicket (completed e) user dv = createSocketTicket e user dv"
  by (simp_all add: fresh_def new_token_def createSocketTicket_def)

section \<open>The queue dashboard\<close>

text \<open>The middleware in front of the dashboard answers itself or passes the request on.\<close>

definition queues_gate :: "json option \<Rightarrow> string \<Rightarrow> http_error option" where
  "queues_gate headerValue internalApiKey = (let result = validateInternalApiKey headerValue internalApiKey in
     if result \<noteq> Key_ok then Some \<lparr>he_statusCode = 403, he_message = api_key_message result\<rparr> else None)"

text \<open>It agrees with the guard behind the exception filter: the same requests pass, and a refusal has the same status and message.\<close>

lemma queues_gate_agrees:
  "queues_gate h k = (case fst (internalCanActivate h k w) of Inl er \<Rightarrow> Some (catchException er) | Inr _ \<Rightarrow> None)"
  by (auto simp: queues_gate_def internalCanActivate_def Let_def act_simps catchException_def)

section \<open>The Telegram bot\<close>

text \<open>Whether the bot is created, and the address it registers\<close>

definition bot_enabled :: "string option \<Rightarrow> bool" where
  "bot_enabled token = truthy token"

definition strip_slash :: "string \<Rightarrow> string" where
  "strip_slash s = (if s \<noteq> [] \<and> last s = CHR ''/'' then butlast s else s)"

definition webhookUrl :: "string \<Rightarrow> string option \<Rightarrow> string" where
  "webhookUrl baseUrl path = strip_slash baseUrl @ coalesce path ''/telegram/webhook''"

record webhook =
  wh_url :: string
  wh_secret_token :: "string option"
  wh_allowed_updates :: "string list"
  wh_drop_pending :: bool

text \<open>\<open>onModuleInit\<close>: without a token nothing is registered; a missing address stops the start.  A failure of the registration itself is
  logged and ignored.\<close>

definition botOnModuleInit :: "string option \<Rightarrow> string option \<Rightarrow> string option \<Rightarrow> string option \<Rightarrow> error + webhook option" where
  "botOnModuleInit token url path secret =
     (if \<not> bot_enabled token then Inr None
      else case url of
        None \<Rightarrow> Inl (OtherError (''Configuration key '' @ [CHR 0x22] @ ''TELEGRAM_WEBHOOK_URL'' @ [CHR 0x22] @ '' does not exist''))
      | Some baseUrl \<Rightarrow> let webhookSecret = coalesce secret [] in
          Inr (Some \<lparr>wh_url = webhookUrl baseUrl path, wh_secret_token = (if webhookSecret = [] then None else Some webhookSecret),
            wh_allowed_updates = [''message''], wh_drop_pending = True\<rparr>))"

text \<open>The platform echoes the secret that was registered, and exactly a caller who presents it is let in; where none was registered everybody is.\<close>

lemma webhook_secret_agrees:
  assumes "botOnModuleInit token url path (TELEGRAM_WEBHOOK_SECRET (cfg e)) = Inr (Some h)"
  shows "secret_ok e secretToken \<longleftrightarrow> wh_secret_token h = None \<or> secretToken = wh_secret_token h"
  using assms by (auto simp: botOnModuleInit_def secret_ok_def Let_def truthy_def coalesce_def split: option.splits if_splits)

end
