(* ===== verification/Infrastructure.thy ===== *)
theory Infrastructure
  imports Startup Push Moderation "HOL-Library.AList"
begin

text \<open>
  The parts around the services: rate limits (\<open>src/app.module.ts\<close> and the decorators of the controllers), the queues with the
  attempts that the modules give their jobs and the counters of the workers, the connection to Redis, the health check, the
  initialisation of Firebase and of the object store, the settings of \<open>src/main.ts\<close>, the log line of a request, and the selections of
  \<open>src/common/utils/map.util.ts\<close>.
\<close>

section \<open>Rate limits\<close>

record throttler =
  tl_name :: string
  tl_ttl :: int
  tl_limit :: nat

definition throttlers :: "throttler list" where
  "throttlers = [\<lparr>tl_name = ''default'', tl_ttl = 60000, tl_limit = 60\<rparr>, \<lparr>tl_name = ''auth'', tl_ttl = 60000, tl_limit = 5\<rparr>]"

text \<open>The handlers with a decorator of their own, and all others\<close>

datatype handler_name = Otp_request | Otp_verify | Token_refresh | User_search | Telegram_webhook | Other_handler

fun throttle_override :: "handler_name \<Rightarrow> (string \<times> nat) option" where
  "throttle_override Otp_request = Some (''auth'', 20)"
| "throttle_override Otp_verify = Some (''auth'', 20)"
| "throttle_override Token_refresh = Some (''auth'', 20)"
| "throttle_override User_search = Some (''default'', 60)"
| "throttle_override _ = None"

text \<open>The guard is global and checks every throttler at every handler that does not skip it.\<close>

definition throttle_limits :: "handler_name \<Rightarrow> nat list" where
  "throttle_limits h = (if h = Telegram_webhook then [] else map (\<lambda>t. case throttle_override h of
     Some (n, l) \<Rightarrow> if n = tl_name t then l else tl_limit t | None \<Rightarrow> tl_limit t) throttlers)"

text \<open>How many of \<open>n\<close> requests of one client to one handler within a minute are let through\<close>

fun admitted :: "handler_name \<Rightarrow> nat \<Rightarrow> nat" where
  "admitted h 0 = 0"
| "admitted h (Suc n) = (let k = admitted h n in if list_all (\<lambda>l. k < l) (throttle_limits h) then Suc k else k)"

lemma admitted_min:
  assumes "throttle_limits h \<noteq> []"
  shows "admitted h n = min n (Min (set (throttle_limits h)))"
proof (induction n)
  case (Suc n)
  have "list_all (\<lambda>l. k < l) (throttle_limits h) \<longleftrightarrow> k < Min (set (throttle_limits h))" for k
    using assms by (simp add: list_all_iff)
  with Suc show ?case by (auto simp: Let_def)
qed simp

text \<open>The throttler named for logins binds everything else: logins get 20 requests a minute, all other handlers 5, not 60.\<close>

lemma logins_admitted_more:
  "admitted Otp_request n = min n 20" "admitted Otp_verify n = min n 20" "admitted Token_refresh n = min n 20"
  "admitted User_search n = min n 5" "admitted Other_handler n = min n 5" "admitted Telegram_webhook n = n"
  by (simp_all add: admitted_min throttle_limits_def throttlers_def) (induction n; simp add: throttle_limits_def Let_def)

section \<open>Queues\<close>

datatype backoff = Fixed int | Exponential int

record job_options =
  jo_attempts :: nat
  jo_backoff :: "backoff option"

text \<open>Where a queue is registered decides the options of the jobs added there; the library gives a job one attempt unless told otherwise.\<close>

definition no_options :: job_options where
  "no_options = \<lparr>jo_attempts = 1, jo_backoff = None\<rparr>"

definition exponential :: "nat \<Rightarrow> int \<Rightarrow> job_options" where
  "exponential n d = \<lparr>jo_attempts = n, jo_backoff = Some (Exponential d)\<rparr>"

type_synonym module_queues = "(queue_name \<times> job_options) list"

definition GroupsModule :: module_queues where
  "GroupsModule = [(GROUP_FANOUT, exponential 3 2000), (GROUP_EDIT_FANOUT, exponential 3 2000)]"

definition MessagesModule :: module_queues where
  "MessagesModule = [(STORAGE_CLEANUP, no_options), (GROUP_FANOUT, exponential 3 2000)]"

definition BackupsModule :: module_queues where
  "BackupsModule = [(STORAGE_CLEANUP, exponential 5 10000)]"

definition PushModule :: module_queues where
  "PushModule = [(PUSH_NOTIFICATIONS, \<lparr>jo_attempts = 3, jo_backoff = Some (Fixed 10000)\<rparr>)]"

definition UnreadModule :: module_queues where
  "UnreadModule = [(UNREAD_RECALC, exponential 3 2000)]"

definition ReactionsModule :: module_queues where
  "ReactionsModule = [(REACTION_FANOUT, exponential 3 2000)]"

definition TelegramModule :: module_queues where
  "TelegramModule = [(TELEGRAM_OTP, exponential 3 5000)]"

definition AuthModule :: module_queues where
  "AuthModule = [(TELEGRAM_OTP, no_options)]"

definition prune_options :: job_options where
  "prune_options = exponential 3 60000"

definition media_cleanup_options :: job_options where
  "media_cleanup_options = no_options"

text \<open>The counters\<close>

record queue_metrics =
  qm_completed :: "string \<Rightarrow> nat"
  qm_failed :: "string \<Rightarrow> nat"

definition recordCompleted :: "string \<Rightarrow> queue_metrics \<Rightarrow> queue_metrics" where
  "recordCompleted queue m = m\<lparr>qm_completed := (qm_completed m)(queue := qm_completed m queue + 1)\<rparr>"

definition recordFailed :: "string \<Rightarrow> queue_metrics \<Rightarrow> queue_metrics" where
  "recordFailed queue m = m\<lparr>qm_failed := (qm_failed m)(queue := qm_failed m queue + 1)\<rparr>"

text \<open>The life of a job: it is processed until an attempt succeeds or its attempts are used up, and the worker's callbacks count each
  attempt.  The attempts see different clocks and moods of the outside, so the work is a function of the number of the attempt.\<close>

function run_job :: "nat \<Rightarrow> string \<Rightarrow> (nat \<Rightarrow> 'a svc) \<Rightarrow> nat \<Rightarrow> world \<times> queue_metrics \<Rightarrow> bool \<times> world \<times> queue_metrics" where
  "run_job n queue process k (w, m) = (case process k w of
     (Inr _, w') \<Rightarrow> (True, w', recordCompleted queue m)
   | (Inl _, w') \<Rightarrow> if Suc k < n then run_job n queue process (Suc k) (w', recordFailed queue m)
       else (False, w', recordFailed queue m))"
  by pat_completeness auto
termination by (relation "measure (\<lambda>(n, q, p, k, s). n - k)") auto

lemma run_job_counts:
  assumes "run_job n queue process k (w, m) = (ok, w', m')"
  shows "qm_completed m' queue = qm_completed m queue + (if ok then 1 else 0)
    \<and> qm_failed m' queue \<le> qm_failed m queue + (max n (Suc k) - k)
    \<and> (\<forall>q. q \<noteq> queue \<longrightarrow> qm_completed m' q = qm_completed m q \<and> qm_failed m' q = qm_failed m q)"
  using assms
proof (induction n queue process k "(w, m)" arbitrary: w m rule: run_job.induct)
  case (1 n queue process k w m)
  obtain r w1 where run: "process k w = (r, w1)" by fastforce
  show ?case
  proof (cases r)
    case (Inr x)
    with 1(2) run show ?thesis by (auto simp: recordCompleted_def)
  next
    case (Inl er)
    with 1 run show ?thesis by (fastforce simp: recordFailed_def split: if_splits)
  qed
qed

text \<open>A job succeeds as soon as one of its attempts does.\<close>

lemma run_job_succeeds:
  assumes "k \<le> j" and "j < n" and "\<And>v. \<not> isl (fst (process j v))"
  shows "fst (run_job n queue process k (w, m))"
  using assms
proof (induction n queue process k "(w, m)" arbitrary: w m rule: run_job.induct)
  case (1 n queue process k w m)
  obtain r w1 where run: "process k w = (r, w1)" by fastforce
  show ?case
  proof (cases r)
    case (Inl er)
    then have "k \<noteq> j" using 1(4) [of w] run by auto
    with 1 run Inl show ?thesis by auto
  qed (simp add: run)
qed

text \<open>A login code is added to the queue by the module of the logins, whose jobs have one attempt: when the first delivery fails there is no second one,
  although the module of the bot registers the same queue with three attempts.  The objects of deleted messages are in the same position: the
  module of the messages gives their deletion one attempt, the module of the backups five.\<close>

lemma otp_not_retried:
  assumes "map_of AuthModule TELEGRAM_OTP = Some opts \<or> map_of MessagesModule STORAGE_CLEANUP = Some opts" and "process 0 w = (Inl er, w')"
  shows "run_job (jo_attempts opts) queue process 0 (w, m) = (False, w', recordFailed queue m)"
  using assms by (auto simp: no_options_def AuthModule_def MessagesModule_def)

lemma otp_attempts: "map_of TelegramModule TELEGRAM_OTP = Some (exponential 3 5000)" "map_of BackupsModule STORAGE_CLEANUP = Some (exponential 5 10000)"
  by (simp_all add: TelegramModule_def BackupsModule_def)

section \<open>The connection to Redis\<close>

definition retryStrategy :: "int \<Rightarrow> int" where
  "retryStrategy t = min (t * 50) 2000"

definition reconnectOnError :: "string \<Rightarrow> bool" where
  "reconnectOnError message = list_ex (\<lambda>code. contains code message) [''ECONNREFUSED'', ''ETIMEDOUT'', ''ECONNRESET'', ''EPIPE'']"

record redis_client =
  rc_connected :: bool
  rc_status :: string

definition onReady :: "redis_client \<Rightarrow> redis_client" where
  "onReady c = c\<lparr>rc_connected := True\<rparr>"

definition onError :: "redis_client \<Rightarrow> redis_client" where
  "onError c = c\<lparr>rc_connected := False\<rparr>"

definition isHealthy :: "redis_client \<Rightarrow> bool" where
  "isHealthy c \<longleftrightarrow> rc_connected c \<and> rc_status c = ''ready''"

lemma retryStrategy_bounds: "1 \<le> t \<Longrightarrow> 50 \<le> retryStrategy t \<and> retryStrategy t \<le> 2000"
  by (simp add: retryStrategy_def)

text \<open>The address of the queues: the parts of the URL, whose parser is the platform's\<close>

record url =
  url_hostname :: string
  url_port :: string
  url_username :: string
  url_password :: string
  url_pathname :: string

record redis_connection =
  cn_host :: string
  cn_port :: nat
  cn_username :: "string option"
  cn_password :: "string option"
  cn_db :: nat

text \<open>\<open>parseInt(s, 10)\<close>: the longest prefix of digits, \<open>NaN\<close> when there is none\<close>

definition parseInt :: "string \<Rightarrow> nat option" where
  "parseInt s = (let ds = takeWhile is_digit s in
     if ds = [] then None else Some (foldl (\<lambda>n c. 10 * n + (of_char c - 48)) 0 ds))"

definition or_default :: "nat option \<Rightarrow> nat \<Rightarrow> nat" where
  "or_default n k = (case n of None \<Rightarrow> k | Some m \<Rightarrow> if m = 0 then k else m)"

definition bull_connection :: "url \<Rightarrow> redis_connection" where
  "bull_connection u = \<lparr>cn_host = url_hostname u, cn_port = or_default (parseInt (url_port u)) 6379,
     cn_username = (if url_username u = [] then None else Some (url_username u)),
     cn_password = (if url_password u = [] then None else Some (url_password u)),
     cn_db = (if url_pathname u = [] then 0 else or_default (parseInt (drop 1 (url_pathname u))) 0)\<rparr>"

lemma bull_defaults:
  "cn_port (bull_connection \<lparr>url_hostname = h, url_port = [], url_username = u, url_password = p, url_pathname = ''/''\<rparr>) = 6379"
  "cn_db (bull_connection \<lparr>url_hostname = h, url_port = [], url_username = u, url_password = p, url_pathname = ''/''\<rparr>) = 0"
  "cn_db (bull_connection \<lparr>url_hostname = h, url_port = ''6380'', url_username = u, url_password = p, url_pathname = ''/2''\<rparr>) = 2"
  by (simp_all add: bull_connection_def or_default_def parseInt_def is_digit_def)

section \<open>Health\<close>

datatype health_status = Up string | Down string string

definition prismaPing :: "string \<Rightarrow> string option \<Rightarrow> health_status" where
  "prismaPing key failure = (case failure of None \<Rightarrow> Up key | Some er \<Rightarrow> Down key er)"

definition redisPing :: "string \<Rightarrow> string + string \<Rightarrow> health_status" where
  "redisPing key answer = (case answer of
     Inl er \<Rightarrow> Down key er
   | Inr result \<Rightarrow> if result \<noteq> ''PONG'' then Down key (''Unexpected PING response: '' @ result) else Up key)"

text \<open>The library runs all indicators and answers 200 when each is up, 503 otherwise.\<close>

definition health_check :: "string option \<Rightarrow> string + string \<Rightarrow> int \<times> health_status list" where
  "health_check db answer = (let ss = [prismaPing ''postgres'' db, redisPing ''redis'' answer] in
     (if list_all (\<lambda>s. case s of Up k \<Rightarrow> True | Down k er \<Rightarrow> False) ss then 200 else 503, ss))"

lemma healthy_iff: "fst (health_check db answer) = 200 \<longleftrightarrow> db = None \<and> answer = Inr ''PONG''"
  by (auto simp: health_check_def prismaPing_def redisPing_def split: option.splits sum.splits)

section \<open>Firebase\<close>

text \<open>Whether the provider is initialised; parsing the credentials and the initialisation are library code that may throw.\<close>

definition fcmOnModuleInit :: "string option \<Rightarrow> string option \<Rightarrow> (string \<Rightarrow> bool) \<Rightarrow> bool" where
  "fcmOnModuleInit provider serviceAccountJson initialise =
     (if provider \<noteq> Some ''fcm'' then False
      else if \<not> truthy serviceAccountJson then False
      else initialise (coalesce serviceAccountJson []))"

text \<open>Without credentials pushes are only logged: no token is sent and none is cleared.\<close>

lemma fcm_without_credentials:
  assumes "fcm_ready fcm = fcmOnModuleInit (PUSH_PROVIDER (cfg e)) acc ini" and "\<not> truthy acc"
  shows "w_db (snd (processPush e fcm ty ts w)) = w_db w \<and> (\<forall>msg. fst (processPush e fcm ty ts w) \<noteq> Inr (Pushed msg))"
  using assms by (auto simp: processPush_def Let_def fcmOnModuleInit_def sendFcmWakeup_def sendSilentFcmWakeup_def logWakeup_def logSilentWakeup_def act_simps)

section \<open>The server\<close>

record server_settings =
  ss_trustProxy :: "int option"
  ss_contentSecurityPolicy :: bool
  ss_corsOrigin :: "string option"
  ss_port :: int

text \<open>\<open>bootstrap\<close>; no origin means that every origin is reflected.\<close>

definition bootstrap :: "string option \<Rightarrow> int option \<Rightarrow> string option \<Rightarrow> int option \<Rightarrow> server_settings" where
  "bootstrap nodeEnv trustProxyHops appOrigin port = (let hops = coalesce trustProxyHops 0 in
     \<lparr>ss_trustProxy = (if 0 < hops then Some hops else None), ss_contentSecurityPolicy = (nodeEnv = Some ''production''),
      ss_corsOrigin = appOrigin, ss_port = coalesce port 3000\<rparr>)"

text \<open>\<open>HttpLoggingInterceptor\<close>: the line of a request, for an answer or an error\<close>

definition http_log_line :: "string \<Rightarrow> string \<Rightarrow> int \<Rightarrow> int \<Rightarrow> uuid option \<Rightarrow> string option \<Rightarrow> string" where
  "http_log_line method path status ms userId er = method @ '' '' @ path @ '' '' @ show_int status @ '' '' @ show_int ms @ ''ms user=''
     @ coalesce userId ''anonymous'' @ (case er of None \<Rightarrow> [] | Some message \<Rightarrow> '' err='' @ message)"

section \<open>Object storage\<close>

record r2_settings =
  rs_region :: string
  rs_endpoint :: "string option"
  rs_bucket :: string
  rs_putTtl :: int
  rs_getTtl :: int

definition r2OnModuleInit :: "string option \<Rightarrow> string option \<Rightarrow> int option \<Rightarrow> int option \<Rightarrow> r2_settings" where
  "r2OnModuleInit endpoint bucket putTtl getTtl = \<lparr>rs_region = ''auto'', rs_endpoint = endpoint, rs_bucket = coalesce bucket ''birgap-backups'',
     rs_putTtl = coalesce putTtl 900, rs_getTtl = coalesce getTtl 300\<rparr>"

section \<open>Selections\<close>

text \<open>\<open>buildSelect\<close> of \<open>src/common/utils/map.util.ts\<close>: the selection of columns for the database client; assigning to a property of an object
  replaces it.\<close>

datatype select_value = SelectTrue | Select "(string \<times> select_value) list"

definition select_fields :: "string list \<Rightarrow> (string \<times> select_value) list" where
  "select_fields names = fold (\<lambda>field select. AList.update field SelectTrue select) names []"

definition buildSelect :: "string list \<Rightarrow> (string \<times> string list) list option \<Rightarrow> (string \<times> select_value) list" where
  "buildSelect names relations = (let select = select_fields names in case relations of
     None \<Rightarrow> select
   | Some rels \<Rightarrow> fold (\<lambda>(rel, relFields) select. AList.update rel (Select (select_fields relFields)) select) rels select)"

lemma select_fields_map: "map_of (fold (\<lambda>f s. AList.update f SelectTrue s) names s0) k = (if k \<in> set names then Some SelectTrue else map_of s0 k)"
  by (induction names arbitrary: s0) (auto simp: AList.update_conv')

text \<open>A relation is selected with its columns, also when a column of the same name was asked for, and nothing else is selected.\<close>

lemma buildSelect_map:
  assumes "distinct (map fst rels)"
  shows "map_of (buildSelect names (Some rels)) k = (case map_of rels k of
     Some relFields \<Rightarrow> Some (Select (buildSelect relFields None))
   | None \<Rightarrow> if k \<in> set names then Some SelectTrue else None)"
proof -
  have "map_of (fold (\<lambda>(rel, relFields) s. AList.update rel (Select (select_fields relFields)) s) rels s0) k
      = (case map_of rels k of Some relFields \<Rightarrow> Some (Select (select_fields relFields)) | None \<Rightarrow> map_of s0 k)" for s0
    using assms
  proof (induction rels arbitrary: s0)
    case (Cons x rels)
    obtain r ns where x: "x = (r, ns)" by fastforce
    show ?case
    proof (cases "k = r")
      case True
      then have "map_of rels k = None" using Cons.prems x by (simp add: map_of_eq_None_iff)
      then show ?thesis using Cons True x by (simp add: AList.update_conv')
    qed (use Cons x in \<open>simp add: AList.update_conv' split: option.split\<close>)
  qed simp
  then show ?thesis using select_fields_map [of names "[]" k]
    by (simp add: buildSelect_def select_fields_def Let_def split: option.split)
qed

end
