(* ===== verification/Scripts.thy ===== *)
theory Scripts
  imports Moderation
begin

text \<open>
  The operator's scripts under \<open>prisma\<close>: \<open>scripts/admin.ts\<close> changes the role of an account,
  and \<open>scripts/backfill-admin-audit-log.ts\<close> copies the rows of a retired table into the audit log in batches.
\<close>

section \<open>\<open>scripts/admin.ts\<close>\<close>

datatype cli_command = Promote | Demote

record cli_args =
  ca_command :: cli_command
  ca_phone :: string
  ca_role :: "UserRole option"
  ca_reason :: "string option"

text \<open>\<open>rest[rest.indexOf(flag) + 1]\<close> when the flag is there\<close>

fun arg_after :: "string \<Rightarrow> string list \<Rightarrow> string option" where
  "arg_after flag (x # xs) = (if x = flag then (case xs of [] \<Rightarrow> None | y # ys \<Rightarrow> Some y) else arg_after flag xs)"
| "arg_after flag [] = None"

definition parse_role :: "string \<Rightarrow> UserRole option" where
  "parse_role s = List.find (\<lambda>r. role_name r = s) [USER, MODERATOR, ADMIN]"

text \<open>The arguments after the interpreter and the script\<close>

fun parseArgs :: "string list \<Rightarrow> error + cli_args" where
  "parseArgs (command # rest) =
     (if command \<noteq> ''promote'' \<and> command \<noteq> ''demote'' then Inl (OtherError ''Usage'')
      else case rest of
        [] \<Rightarrow> Inl (OtherError ''Phone argument is required'')
      | phone # _ \<Rightarrow>
          if phone = [] then Inl (OtherError ''Phone argument is required'')
          else let role = arg_after ''--role'' rest; reason = arg_after ''--reason'' rest in
            if truthy role \<and> parse_role (coalesce role []) = None then Inl (OtherError ''Invalid --role'')
            else Inr \<lparr>ca_command = (if command = ''promote'' then Promote else Demote), ca_phone = phone,
                   ca_role = (if truthy role then parse_role (coalesce role []) else None), ca_reason = reason\<rparr>)"
| "parseArgs [] = Inl (OtherError ''Usage'')"

definition hashPhone :: "env \<Rightarrow> string \<Rightarrow> string" where
  "hashPhone e phone = sha256 e phone"

fun cli_rank :: "UserRole \<Rightarrow> int" where
  "cli_rank ADMIN = 2"
| "cli_rank MODERATOR = 1"
| "cli_rank USER = 0"

definition cli_change :: "env \<Rightarrow> string \<Rightarrow> cli_args \<Rightarrow> user_row \<Rightarrow> UserRole \<Rightarrow> unit svc" where
  "cli_change e operator a user newRole =
     whenA (newRole \<noteq> u_role user)
       (bnd (update_user (u_id user) (\<lambda>u. u\<lparr>u_role := newRole, u_updatedAt := now e\<rparr>)) (\<lambda>_.
        audit e None (if cli_rank (u_role user) < cli_rank newRole then ROLE_PROMOTE else ROLE_DEMOTE) T_USER (u_id user) (ca_reason a)
          (JObj [(''source'', JStr ''cli''), (''operator'', JStr operator), (''from'', JStr (role_name (u_role user))),
                 (''to'', JStr (role_name newRole))])))"

definition admin_main :: "env \<Rightarrow> string \<Rightarrow> string list \<Rightarrow> unit svc" where
  "admin_main e operator argv = (case parseArgs argv of
     Inl er \<Rightarrow> throw er
   | Inr a \<Rightarrow> bnd (dbget (\<lambda>d. find_user_by_hash d (hashPhone e (ca_phone a)))) (\<lambda>found.
       bnd (require found (OtherError ''no user found'')) (\<lambda>user.
       case ca_command a of
         Demote \<Rightarrow> cli_change e operator a user (coalesce (ca_role a) USER)
       | Promote \<Rightarrow> cli_change e operator a user (coalesce (ca_role a) ADMIN))))"

text \<open>Accounts are stored under the keyed hash of the normalised number, the script looks for the plain hash of the number as
  typed.  Unless one of the stored hashes happens to be a plain one, it never finds anybody.\<close>

lemma cli_finds_nobody:
  assumes "\<forall>u\<in>set (users (w_db w)). \<forall>p. u_phoneHash u \<noteq> sha256 e p"
  shows "isl (fst (admin_main e operator argv w)) \<and> snd (admin_main e operator argv w) = w"
proof -
  have "find_user_by_hash (w_db w) (hashPhone e p) = None" for p
    using assms by (auto simp: find_user_by_hash_def hashPhone_def find_None_iff)
  then show ?thesis by (auto simp: admin_main_def act_simps split: sum.split)
qed

text \<open>A change that is made is audited, as a promotion exactly when the rank rises.\<close>

lemma cli_audited:
  assumes "cli_change e operator a user newRole w = (Inr x, w')" and "newRole \<noteq> u_role user"
  shows "\<exists>row. adminAuditLog (w_db w') = adminAuditLog (w_db w) @ [row] \<and> al_targetId row = u_id user
    \<and> (al_action row = ROLE_PROMOTE \<longleftrightarrow> roleRank (u_role user) < roleRank newRole)"
  using assms by (cases "u_role user"; cases newRole) (auto simp: cli_change_def update_user_def audit_def audit_write_def ok_simps Let_def)

section \<open>\<open>scripts/backfill-admin-audit-log.ts\<close>\<close>

record legacy_row =
  lr_id :: uuid
  lr_messageId :: uuid
  lr_adminUserId :: uuid
  lr_deletedAt :: time

definition BATCH_SIZE :: nat where
  "BATCH_SIZE = 500"

definition json_at :: "string \<Rightarrow> json \<Rightarrow> json option" where
  "json_at k j = (case j of JObj kvs \<Rightarrow> map_of kvs k | _ \<Rightarrow> None)"

definition copied_from :: "uuid \<Rightarrow> audit_row \<Rightarrow> bool" where
  "copied_from originalId a \<longleftrightarrow> al_action a = MESSAGE_TOMBSTONE \<and> al_targetType a = T_MESSAGE
     \<and> json_at ''originalId'' (al_metadata a) = Some (JStr originalId)"

definition alreadyBackfilled :: "db \<Rightarrow> uuid \<Rightarrow> bool" where
  "alreadyBackfilled d originalId = exists_where (copied_from originalId) (adminAuditLog d)"

text \<open>One round of the loop; the answer says whether a row was inserted.\<close>

definition backfill_row :: "env \<Rightarrow> legacy_row \<Rightarrow> bool svc" where
  "backfill_row e row = bnd (dbget (\<lambda>d. alreadyBackfilled d (lr_id row))) (\<lambda>seen.
     if seen then ret False
     else bnd (fresh e) (\<lambda>i. thn (dbset (adminAuditLog_update (\<lambda>xs. xs @ [
        \<lparr>al_id = i, al_actorUserId = Some (lr_adminUserId row), al_action = MESSAGE_TOMBSTONE, al_targetType = T_MESSAGE,
         al_targetId = lr_messageId row, al_reason = None,
         al_metadata = JObj [(''source'', JStr ''legacy''), (''originalId'', JStr (lr_id row)), (''scope'', JStr ''group'')],
         al_createdAt = lr_deletedAt row\<rparr>]))) (ret True)))"

definition past_cursor :: "uuid option \<Rightarrow> legacy_row \<Rightarrow> bool" where
  "past_cursor c row = (case c of None \<Rightarrow> True | Some s \<Rightarrow> s < lr_id row)"

definition next_batch :: "legacy_row list \<Rightarrow> uuid option \<Rightarrow> legacy_row list" where
  "next_batch table cursor = take BATCH_SIZE (filter (past_cursor cursor) (sort_key lr_id table))"

lemma past_last_less:
  assumes "next_batch table cursor \<noteq> []"
  shows "length (filter (past_cursor (Some (lr_id (last (next_batch table cursor))))) table) < length (filter (past_cursor cursor) table)"
proof -
  let ?l = "last (next_batch table cursor)"
  have "?l \<in> set (next_batch table cursor)" using assms by simp
  then have l: "?l \<in> set table" "past_cursor cursor ?l" by (auto simp: next_batch_def dest!: in_set_takeD)
  have "past_cursor (Some (lr_id ?l)) r \<Longrightarrow> past_cursor cursor r" for r
    using l(2) by (auto simp: past_cursor_def split: option.splits)
  then have "filter (past_cursor (Some (lr_id ?l))) table = filter (past_cursor (Some (lr_id ?l))) (filter (past_cursor cursor) table)"
    by (auto intro!: filter_cong)
  moreover have "?l \<in> set (filter (past_cursor cursor) table)" "\<not> past_cursor (Some (lr_id ?l)) ?l"
    using l by (simp_all add: past_cursor_def)
  ultimately show ?thesis by (metis length_filter_less)
qed

text \<open>The loop over the batches ends, since every batch moves the cursor past at least one row.  The retired table does not
  change meanwhile.\<close>

function batches :: "legacy_row list \<Rightarrow> uuid option \<Rightarrow> legacy_row list list" where
  "batches table cursor = (let batch = next_batch table cursor in
     if batch = [] then [] else batch # batches table (Some (lr_id (last batch))))"
  by auto
termination
  by (relation "measure (\<lambda>(table, cursor). length (filter (past_cursor cursor) table))") (auto simp: past_last_less)

declare batches.simps [simp del]

text \<open>The answer counts the rows seen, inserted and skipped.\<close>

definition backfill :: "env \<Rightarrow> legacy_row list \<Rightarrow> (nat \<times> nat \<times> nat) svc" where
  "backfill e table = bnd (map_act (map_act (backfill_row e)) (batches table None)) (\<lambda>rs.
     ret (length (concat rs), count_where id (concat rs), count_where Not (concat rs)))"

lemma filter_past_take:
  fixes key :: "'a \<Rightarrow> 'b::linorder"
  assumes "sorted_wrt (<) (map key s)" and "take n s \<noteq> []"
  shows "filter (\<lambda>x. key (last (take n s)) < key x) s = drop n s"
proof -
  obtain p x where t: "take n s = p @ [x]" using assms(2) by (metis append_butlast_last_id)
  then have s: "s = (p @ [x]) @ drop n s" by (metis append_take_drop_id)
  have "sorted_wrt (<) (map key ((p @ [x]) @ drop n s))" using assms(1) s by metis
  then have "\<forall>y\<in>set p. key y < key x" "\<forall>y\<in>set (drop n s). key x < key y" by (auto simp: sorted_wrt_append)
  then have "filter (\<lambda>y. key x < key y) ((p @ [x]) @ drop n s) = drop n s" by (auto simp: filter_empty_conv filter_id_conv)
  with s t show ?thesis by simp
qed

lemma sorted_rows: "distinct (map lr_id table) \<Longrightarrow> sorted_wrt (<) (map lr_id (filter p (sort_key lr_id table)))"
proof -
  assume "distinct (map lr_id table)"
  then have "distinct (map lr_id (filter p (sort_key lr_id table)))" by (simp add: distinct_map inj_on_def)
  moreover have "sorted (map lr_id (filter p (sort_key lr_id table)))" by (rule sorted_filter) simp
  ultimately show ?thesis by (simp add: strict_sorted_iff)
qed

lemma concat_batches:
  "distinct (map lr_id table) \<Longrightarrow> concat (batches table c) = filter (past_cursor c) (sort_key lr_id table)"
proof (induction table c rule: batches.induct)
  case (1 t c)
  let ?s = "filter (past_cursor c) (sort_key lr_id t)" and ?b = "next_batch t c"
  show ?case
  proof (cases "?b = []")
    case True
    then show ?thesis by (subst batches.simps) (auto simp: next_batch_def BATCH_SIZE_def)
  next
    case False
    have "past_cursor (Some (lr_id (last ?b))) r \<Longrightarrow> past_cursor c r" for r
    proof -
      have "last ?b \<in> set ?b" using False by simp
      then have "past_cursor c (last ?b)" by (auto simp: next_batch_def dest!: in_set_takeD)
      then show "past_cursor (Some (lr_id (last ?b))) r \<Longrightarrow> past_cursor c r" by (auto simp: past_cursor_def split: option.splits)
    qed
    then have "filter (past_cursor (Some (lr_id (last ?b)))) (sort_key lr_id t) = filter (\<lambda>x. lr_id (last ?b) < lr_id x) ?s"
      by (auto simp: past_cursor_def intro!: filter_cong)
    also have "\<dots> = drop BATCH_SIZE ?s"
      using filter_past_take [OF sorted_rows [OF 1(2)], of BATCH_SIZE "past_cursor c"] False unfolding next_batch_def by blast
    finally have "concat (batches t (Some (lr_id (last ?b)))) = drop BATCH_SIZE ?s" using 1 False by auto
    then show ?thesis using False by (subst batches.simps) (simp add: next_batch_def Let_def)
  qed
qed

section \<open>Every retired row is copied once\<close>

definition copies :: "db \<Rightarrow> uuid \<Rightarrow> nat" where
  "copies d i = count_where (copied_from i) (adminAuditLog d)"

lemma backfilled_copies: "alreadyBackfilled d i \<longleftrightarrow> copies d i \<noteq> 0"
  by (auto simp: alreadyBackfilled_def copies_def count_where_def filter_empty_conv)

lemma backfill_row_run:
  "\<exists>w'. backfill_row e r w = (Inr (\<not> alreadyBackfilled (w_db w) (lr_id r)), w')
    \<and> (\<forall>i. copies (w_db w') i = (if i = lr_id r \<and> copies (w_db w) i = 0 then 1 else copies (w_db w) i))"
  by (cases "alreadyBackfilled (w_db w) (lr_id r)")
     (auto simp: backfill_row_def act_simps backfilled_copies, auto simp: copies_def count_where_append copied_from_def json_at_def)

lemma backfill_rows_run:
  "distinct (map lr_id rs) \<Longrightarrow> \<exists>w'. map_act (backfill_row e) rs w = (Inr (map (\<lambda>r. \<not> alreadyBackfilled (w_db w) (lr_id r)) rs), w')
    \<and> (\<forall>i. copies (w_db w') i = (if i \<in> lr_id ` set rs \<and> copies (w_db w) i = 0 then 1 else copies (w_db w) i))"
proof (induction rs arbitrary: w)
  case (Cons r rs)
  obtain w1 where w1: "backfill_row e r w = (Inr (\<not> alreadyBackfilled (w_db w) (lr_id r)), w1)"
    "\<And>i. copies (w_db w1) i = (if i = lr_id r \<and> copies (w_db w) i = 0 then 1 else copies (w_db w) i)"
    using backfill_row_run [of e r w] by blast
  obtain w' where w': "map_act (backfill_row e) rs w1 = (Inr (map (\<lambda>r. \<not> alreadyBackfilled (w_db w1) (lr_id r)) rs), w')"
    "\<And>i. copies (w_db w') i = (if i \<in> lr_id ` set rs \<and> copies (w_db w1) i = 0 then 1 else copies (w_db w1) i)"
    using Cons.IH [of w1] Cons.prems by auto
  have "map (\<lambda>r. \<not> alreadyBackfilled (w_db w1) (lr_id r)) rs = map (\<lambda>r. \<not> alreadyBackfilled (w_db w) (lr_id r)) rs"
    using Cons.prems by (auto simp: backfilled_copies w1(2) image_iff)
  with w1 w' show ?case by (auto simp: act_simps)
qed (simp add: act_simps)

lemma map_act_concat:
  "map_act (map_act f) xss w = (Inr yss, w') \<Longrightarrow> map_act f (concat xss) w = (Inr (concat yss), w')"
proof (induction xss arbitrary: yss w)
  case (Cons xs xss)
  have app: "map_act f us v = (Inr as, v1) \<Longrightarrow> map_act f vs v1 = (Inr bs, v2) \<Longrightarrow> map_act f (us @ vs) v = (Inr (as @ bs), v2)" for us vs v as v1 bs v2
  proof (induction us arbitrary: v as)
    case (Cons u us)
    from Cons.prems(1) obtain b v3 cs where "f u v = (Inr b, v3)" "map_act f us v3 = (Inr cs, v1)" "as = b # cs" by (auto simp: ok_simps)
    with Cons.IH [OF _ Cons.prems(2)] show ?case by (auto simp: act_simps)
  qed (simp add: act_simps)
  from Cons.prems obtain ys w1 zss where "map_act f xs w = (Inr ys, w1)" "map_act (map_act f) xss w1 = (Inr zss, w')" "yss = ys # zss"
    by (auto simp: ok_simps)
  with Cons.IH show ?case by (auto intro: app)
qed (simp add: act_simps)

lemma map_act_runs:
  assumes "\<And>x v. x \<in> set xs \<Longrightarrow> \<not> isl (fst (f x v))"
  shows "\<not> isl (fst (map_act f xs w))"
  using assms
proof (induction xs arbitrary: w)
  case (Cons x xs)
  obtain y v where "f x w = (Inr y, v)" using run_okE [of "f x" w] Cons.prems by auto
  moreover obtain ys v' where "map_act f xs v = (Inr ys, v')" using run_okE [of "map_act f xs" v] Cons by auto
  ultimately show ?case by (simp add: act_simps)
qed (simp add: act_simps)

lemma backfill_run:
  assumes "distinct (map lr_id table)"
  shows "\<exists>w'. backfill e table w = (Inr (length table, count_where (\<lambda>r. \<not> alreadyBackfilled (w_db w) (lr_id r)) table,
        count_where (\<lambda>r. alreadyBackfilled (w_db w) (lr_id r)) table), w')
    \<and> (\<forall>i. copies (w_db w') i = (if i \<in> lr_id ` set table \<and> copies (w_db w) i = 0 then 1 else copies (w_db w) i))"
proof -
  let ?rs = "sort_key lr_id table" and ?new = "\<lambda>r. \<not> alreadyBackfilled (w_db w) (lr_id r)"
  have all: "concat (batches table None) = ?rs" using concat_batches [OF assms, of None] by (simp add: past_cursor_def)
  have dist: "distinct (map lr_id ?rs)" using assms by (simp add: distinct_map)
  have row: "\<not> isl (fst (backfill_row e r v))" for r v using backfill_row_run [of e r v] by auto
  then have "\<not> isl (fst (map_act (map_act (backfill_row e)) (batches table None) w))" by (intro map_act_runs) auto
  then obtain fss w' where run: "map_act (map_act (backfill_row e)) (batches table None) w = (Inr fss, w')" by (rule run_okE)
  from map_act_concat [OF run] backfill_rows_run [OF dist, of e w]
  have "concat fss = map ?new ?rs" and cps: "\<forall>i. copies (w_db w') i = (if i \<in> lr_id ` set table \<and> copies (w_db w) i = 0 then 1 else copies (w_db w) i)"
    by (auto simp: all)
  moreover have "count_where p (map ?new ?rs) = count_where (p \<circ> ?new) table" for p
    unfolding count_where_def filter_map length_map by (metis filter_sort length_sort)
  ultimately show ?thesis using run by (auto simp: backfill_def act_simps comp_def)
qed

text \<open>The script ends and copies every row of the retired table: afterwards each has exactly one copy in the audit log, however often
  the script ran before, and running it again inserts nothing.\<close>

lemma backfill_exact:
  assumes "distinct (map lr_id table)" and "\<forall>r\<in>set table. copies (w_db w) (lr_id r) \<le> 1"
  shows "\<exists>n k w'. backfill e table w = (Inr (length table, n, k), w') \<and> n + k = length table
    \<and> (\<forall>r\<in>set table. copies (w_db w') (lr_id r) = 1)
    \<and> fst (backfill e' table w') = Inr (length table, 0, length table)"
proof -
  from backfill_run [OF assms(1), of e w] obtain n k w' where run: "backfill e table w = (Inr (length table, n, k), w')"
    and nk: "n = count_where (\<lambda>r. \<not> alreadyBackfilled (w_db w) (lr_id r)) table" "k = count_where (\<lambda>r. alreadyBackfilled (w_db w) (lr_id r)) table"
    and cps: "\<forall>i. copies (w_db w') i = (if i \<in> lr_id ` set table \<and> copies (w_db w) i = 0 then 1 else copies (w_db w) i)" by blast
  have one: "\<forall>r\<in>set table. copies (w_db w') (lr_id r) = 1" using assms(2) by (auto simp: cps le_Suc_eq)
  have "n + k = length table" unfolding nk count_where_def using sum_length_filter_compl [of "\<lambda>r. alreadyBackfilled (w_db w) (lr_id r)" table] by simp
  moreover have "filter (\<lambda>r. \<not> alreadyBackfilled (w_db w') (lr_id r)) table = []" "filter (\<lambda>r. alreadyBackfilled (w_db w') (lr_id r)) table = table"
    using one by (simp_all add: backfilled_copies filter_empty_conv filter_id_conv)
  then have "fst (backfill e' table w') = Inr (length table, 0, length table)"
    using backfill_run [OF assms(1), of e' w'] by (auto simp: count_where_def)
  ultimately show ?thesis using run one by blast
qed

end
