(* ===== verification/Seed.thy ===== *)
theory Seed
  imports Auth Group_Chat Reactions
begin

text \<open>
  \<open>prisma/seed.ts\<close> fills a development database: four accounts with a device each, one conversation and one group, with envelopes
  that the client can decrypt.  The primitives of \<open>node:crypto\<close>, the encodings of buffers and \<open>JSON.stringify\<close> are arguments; what is drawn at random
  is numbered by the supply of the world.
\<close>

record node_crypto =
  nc_publicKey :: "nat \<Rightarrow> string"
  nc_computeSecret :: "nat \<Rightarrow> string \<Rightarrow> string"
  nc_hkdf :: "string \<Rightarrow> string \<Rightarrow> string"
  nc_gcm :: "string \<Rightarrow> string \<Rightarrow> string \<Rightarrow> string \<times> string"
  nc_randomBytes :: "nat \<Rightarrow> nat \<Rightarrow> string"
  nc_base64 :: "string \<Rightarrow> string"
  nc_unbase64 :: "string \<Rightarrow> string"
  nc_stringify :: "json \<Rightarrow> string"

definition draw :: "nat svc" where
  "draw w = (Inr (w_supply w), w\<lparr>w_supply := Suc (w_supply w)\<rparr>)"

section \<open>Encryption as the client does it\<close>

text \<open>The uncompressed point without its first byte\<close>

definition generateP256KeyPair :: "node_crypto \<Rightarrow> string svc" where
  "generateP256KeyPair c = bnd draw (\<lambda>n. ret (nc_base64 c (drop 1 (nc_publicKey c n))))"

definition aesGcmSeal :: "node_crypto \<Rightarrow> string \<Rightarrow> string \<Rightarrow> string svc" where
  "aesGcmSeal c plaintext key = bnd draw (\<lambda>n.
     let nonce = nc_randomBytes c n 12; (ct, tag) = nc_gcm c key nonce plaintext in ret (nonce @ ct @ tag))"

definition eciesEncrypt :: "node_crypto \<Rightarrow> string \<Rightarrow> string \<Rightarrow> string svc" where
  "eciesEncrypt c plaintext recipientPublicKey = (let recipientRaw = nc_unbase64 c recipientPublicKey in
     thn (ensure (length recipientRaw = 64) (OtherError ''recipient key is not a raw P-256 public key''))
    (bnd draw (\<lambda>ephemeral.
     let sharedSecret = nc_computeSecret c ephemeral (CHR 0x04 # recipientRaw);
         symmetricKey = nc_hkdf c sharedSecret ''BirGap-E2EE-v2'' in
     bnd (aesGcmSeal c plaintext symmetricKey) (\<lambda>sealed.
     ret (nc_base64 c (nc_stringify c (JObj [(''version'', JNum 2),
       (''ephemeralKey'', JStr (nc_base64 c (drop 1 (nc_publicKey c ephemeral)))),
       (''signedPrekeyId'', JNull), (''ciphertext'', JStr (nc_base64 c sealed))])))))))"

definition dmCiphertext :: "node_crypto \<Rightarrow> string \<Rightarrow> string \<Rightarrow> json svc" where
  "dmCiphertext c txt recipientPublicKey = bnd (eciesEncrypt c txt recipientPublicKey) (\<lambda>body.
     ret (JObj [(''type'', JStr ''signal-message''), (''body'', JStr body)]))"

definition groupCiphertext :: "node_crypto \<Rightarrow> string \<Rightarrow> string \<Rightarrow> json svc" where
  "groupCiphertext c txt groupKey = bnd (aesGcmSeal c txt groupKey) (\<lambda>sealed.
     ret (JObj [(''type'', JStr ''group-v1''), (''body'', JStr (nc_base64 c sealed))]))"

definition isRawP256 :: "node_crypto \<Rightarrow> string \<Rightarrow> bool" where
  "isRawP256 c key \<longleftrightarrow> key \<noteq> [] \<and> length (nc_unbase64 c key) = 64"

section \<open>Accounts and devices\<close>

record seed_user =
  sn_phone :: string
  sn_username :: string
  sn_role :: UserRole

definition USERS :: "seed_user list" where
  "USERS = [\<lparr>sn_phone = ''+998901112233'', sn_username = ''aziz'', sn_role = ADMIN\<rparr>,
     \<lparr>sn_phone = ''+998902223344'', sn_username = ''dilnoza'', sn_role = USER\<rparr>,
     \<lparr>sn_phone = ''+998903334455'', sn_username = ''jasur'', sn_role = USER\<rparr>,
     \<lparr>sn_phone = ''+998904445566'', sn_username = ''malika'', sn_role = USER\<rparr>]"

record seeded_user =
  sx_id :: uuid
  sx_phone :: string
  sx_deviceId :: uuid
  sx_devicePublicKey :: string
  sx_username :: string

definition hashPhone :: "env \<Rightarrow> string option \<Rightarrow> string \<Rightarrow> string" where
  "hashPhone e pepper phone = hmacSha256 e (normalizePhone phone) (coalesce pepper ''dev-seed-pepper-not-for-prod'')"

definition new_seed_user :: "env \<Rightarrow> uuid \<Rightarrow> string \<Rightarrow> seed_user \<Rightarrow> user_row" where
  "new_seed_user e i phoneHash u = \<lparr>u_id = i, u_phoneHash = phoneHash, u_phoneMasked = Some (maskPhone (sn_phone u)), u_status = ACTIVE,
     u_role = sn_role u, u_createdAt = now e, u_updatedAt = now e, u_username = Some (sn_username u), u_profileAvatarUrl = None,
     u_encryptedProfile = None, u_profileKeyHash = None, u_strikeCount = 0, u_lastStrikeAt = None\<rparr>"

text \<open>\<open>user.upsert({ where: { phoneHash }, update: {}, create })\<close>\<close>

definition upsert_seed_user :: "env \<Rightarrow> string \<Rightarrow> seed_user \<Rightarrow> uuid svc" where
  "upsert_seed_user e phoneHash u = bnd (dbget (\<lambda>d. find_user_by_hash d phoneHash)) (\<lambda>found. case found of
     Some user \<Rightarrow> ret (u_id user)
   | None \<Rightarrow> bnd (fresh e) (\<lambda>i. bnd (dbget id) (\<lambda>d.
       thn (ensure (find_user d i = None \<and> \<not> exists_where (\<lambda>x. u_username x = Some (sn_username u)) (users d)) (PrismaError ''P2002''))
      (thn (dbset (users_update (\<lambda>us. us @ [new_seed_user e i phoneHash u]))) (ret i)))))"

definition first_device :: "db \<Rightarrow> uuid \<Rightarrow> device_row option" where
  "first_device d userId = List.find (\<lambda>x. d_userId x = userId) (devices d)"

definition new_seed_device :: "env \<Rightarrow> uuid \<Rightarrow> uuid \<Rightarrow> seed_user \<Rightarrow> string \<Rightarrow> device_row" where
  "new_seed_device e i userId u key = \<lparr>d_id = i, d_userId = userId, d_platform = ANDROID,
     d_displayName = Some (sn_username u @ [CHR 0x27] @ ''s phone''), d_identityPublicKey = key, d_pushToken = None, d_pushPlatform = None,
     d_pushActive = False, d_active = True, d_lastSeenAt = None, d_createdAt = now e\<rparr>"

text \<open>The first device of the account, created when there is none and healed when its key is not a raw point\<close>

definition seed_device :: "env \<Rightarrow> node_crypto \<Rightarrow> uuid \<Rightarrow> seed_user \<Rightarrow> device_row svc" where
  "seed_device e c userId u = bnd (dbget (\<lambda>d. first_device d userId)) (\<lambda>found. case found of
     None \<Rightarrow> bnd (generateP256KeyPair c) (\<lambda>key. bnd (fresh e) (\<lambda>i. bnd (dbget id) (\<lambda>d.
       let device = new_seed_device e i userId u key in
       thn (ensure (find_device d i = None) (PrismaError ''P2002''))
      (thn (dbset (devices_update (\<lambda>ds. ds @ [device]))) (ret device)))))
   | Some device \<Rightarrow> if \<not> isRawP256 c (d_identityPublicKey device)
       then bnd (generateP256KeyPair c) (\<lambda>key.
         thn (dbset (devices_update (update_where (\<lambda>x. d_id x = d_id device) (\<lambda>x. x\<lparr>d_identityPublicKey := key\<rparr>))))
             (ret (device\<lparr>d_identityPublicKey := key\<rparr>)))
       else ret device)"

definition seed_one :: "env \<Rightarrow> node_crypto \<Rightarrow> string option \<Rightarrow> seed_user \<Rightarrow> seeded_user svc" where
  "seed_one e c pepper u =
     bnd (upsert_seed_user e (hashPhone e pepper (sn_phone u)) u) (\<lambda>i.
     bnd (seed_device e c i u) (\<lambda>device.
     ret \<lparr>sx_id = i, sx_phone = sn_phone u, sx_deviceId = d_id device, sx_devicePublicKey = d_identityPublicKey device,
          sx_username = sn_username u\<rparr>))"

definition seedUsersAndDevices :: "env \<Rightarrow> node_crypto \<Rightarrow> string option \<Rightarrow> seeded_user list svc" where
  "seedUsersAndDevices e c pepper = map_act (seed_one e c pepper) USERS"

section \<open>The conversation\<close>

definition seed_line :: "env \<Rightarrow> node_crypto \<Rightarrow> uuid \<Rightarrow> seeded_user \<Rightarrow> seeded_user \<Rightarrow> string \<Rightarrow> int \<Rightarrow> unit svc" where
  "seed_line e c threadId sender recipient txt sq =
     bnd (fresh e) (\<lambda>i. bnd (fresh e) (\<lambda>key.
     thn (create_message (new_message e i (Some threadId) None (sx_id sender) (sx_deviceId sender) key sq TEXT None False))
    (bnd (dmCiphertext c txt (sx_devicePublicKey recipient)) (\<lambda>ct.
     bnd (create_envelope e i (sx_id recipient) (sx_deviceId recipient) ct) (\<lambda>_. ret ())))))"

definition seedDirectThread :: "env \<Rightarrow> node_crypto \<Rightarrow> seeded_user \<Rightarrow> seeded_user \<Rightarrow> uuid svc" where
  "seedDirectThread e c a b =
     bnd (dbget (\<lambda>d. List.find (\<lambda>t. th_userAId t = sx_id a \<and> th_userBId t = sx_id b \<or> th_userAId t = sx_id b \<and> th_userBId t = sx_id a) (directThreads d))) (\<lambda>existing.
     case existing of
       Some t \<Rightarrow> ret (th_id t)
     | None \<Rightarrow> bnd (create_thread e (sx_id a) (sx_id b)) (\<lambda>t.
         thn (seed_line e c (th_id t) a b ''Salom! Qandaysan?'' 1)
        (thn (seed_line e c (th_id t) b a (''Zo'' @ [CHR 0x27] @ ''r, rahmat! O'' @ [CHR 0x27] @ ''zing-chi?'') 2)
        (thn (seed_line e c (th_id t) a b (''Yaxshi, ishlar ko'' @ [CHR 0x27] @ ''p :)'') 3)
        (thn (dbset (directThreads_update (update_where (\<lambda>x. th_id x = th_id t) (\<lambda>x. x\<lparr>th_latestSequence := 3, th_updatedAt := now e\<rparr>))))
             (ret (th_id t)))))))"

section \<open>The group\<close>

definition GROUP_NAME :: string where
  "GROUP_NAME = ''BirGap do'' @ [CHR 0x27] @ ''stlar''"

text \<open>The key of the group wrapped for every active device with a raw key\<close>

definition wrap_key :: "node_crypto \<Rightarrow> string \<Rightarrow> device_row \<Rightarrow> (string \<times> json) svc" where
  "wrap_key c groupKey device = bnd (eciesEncrypt c groupKey (d_identityPublicKey device)) (\<lambda>w.
     ret (d_id device, JObj [(''w'', JStr w), (''pk'', JStr (d_identityPublicKey device))]))"

definition buildGroupMetadata :: "node_crypto \<Rightarrow> string \<Rightarrow> json svc" where
  "buildGroupMetadata c groupKey =
     bnd (dbget (\<lambda>d. filter (\<lambda>x. d_active x \<and> isRawP256 c (d_identityPublicKey x)) (devices d))) (\<lambda>ds.
     bnd (map_act (wrap_key c groupKey) ds) (\<lambda>keys.
     bnd (aesGcmSeal c (nc_stringify c (JObj [(''name'', JStr GROUP_NAME)])) groupKey) (\<lambda>payload.
     ret (JObj [(''v'', JNum 2), (''payload'', JStr (nc_base64 c payload)), (''keys'', JObj keys)]))))"

text \<open>\<open>members: { every: { userId: { in } }, some: {} }\<close>\<close>

definition seed_group_found :: "db \<Rightarrow> uuid list \<Rightarrow> group_row option" where
  "seed_group_found d ids = List.find (\<lambda>g. members_of d (g_id g) \<noteq> [] \<and> list_all (\<lambda>m. gm_userId m \<in> set ids) (members_of d (g_id g))) (groups d)"

definition has_version :: "json \<Rightarrow> bool" where
  "has_version j = (case j of JObj ms \<Rightarrow> map_of ms ''v'' \<noteq> None | _ \<Rightarrow> False)"

definition seed_texts :: "string list" where
  "seed_texts = [''Guruhga xush kelibsiz!'', ''Rahmat, salom hammaga'']"

definition reseal :: "node_crypto \<Rightarrow> string \<Rightarrow> nat \<times> message_row \<Rightarrow> unit svc" where
  "reseal c groupKey = (\<lambda>(i, m). bnd (groupCiphertext c (seed_texts ! (i mod length seed_texts)) groupKey) (\<lambda>ct.
     dbset (messageEnvelopes_update (update_where (\<lambda>x. e_messageId x = m_id m) (\<lambda>x. x\<lparr>e_ciphertext := ct\<rparr>)))))"

text \<open>A group of the retired script: fresh metadata, and its messages sealed again\<close>

definition heal_group :: "env \<Rightarrow> node_crypto \<Rightarrow> string \<Rightarrow> json \<Rightarrow> group_row \<Rightarrow> unit svc" where
  "heal_group e c groupKey metadata g = whenA (\<not> has_version (g_encryptedMetadata g))
     (thn (dbset (groups_update (update_where (\<lambda>x. g_id x = g_id g) (\<lambda>x. x\<lparr>g_encryptedMetadata := metadata, g_updatedAt := now e\<rparr>))))
     (bnd (dbget (\<lambda>d. filter (\<lambda>m. m_groupId m = Some (g_id g)) (messages d))) (\<lambda>ms.
      for_each (enumerate 0 ms) (reseal c groupKey))))"

definition seed_group_line :: "env \<Rightarrow> node_crypto \<Rightarrow> string \<Rightarrow> uuid \<Rightarrow> seeded_user list \<Rightarrow> seeded_user \<Rightarrow> string \<Rightarrow> int \<Rightarrow> uuid svc" where
  "seed_group_line e c groupKey groupId members sender txt sq =
     bnd (fresh e) (\<lambda>i. bnd (fresh e) (\<lambda>key.
     thn (create_message (new_message e i None (Some groupId) (sx_id sender) (sx_deviceId sender) key sq TEXT None False))
    (thn (for_each (filter (\<lambda>m. sx_id m \<noteq> sx_id sender) members) (\<lambda>r.
       bnd (groupCiphertext c txt groupKey) (\<lambda>ct. bnd (create_envelope e i (sx_id r) (sx_deviceId r) ct) (\<lambda>_. ret ()))))
         (ret i))))"

definition create_seed_group :: "env \<Rightarrow> json \<Rightarrow> seeded_user list \<Rightarrow> uuid svc" where
  "create_seed_group e metadata members = bnd (fresh e) (\<lambda>i. bnd (dbget id) (\<lambda>d.
     thn (ensure (find_group d i = None) (PrismaError ''P2002''))
    (thn (dbset (groups_update (\<lambda>gs. gs @ [\<lparr>g_id = i, g_encryptedMetadata = metadata, g_createdAt = now e, g_updatedAt = now e\<rparr>])))
    (thn (insert_members (map (\<lambda>(k, m). \<lparr>gm_groupId = i, gm_userId = sx_id m, gm_role = (if k = 0 then G_ADMIN else G_MEMBER), gm_joinedAt = now e\<rparr>)
            (enumerate 0 members)))
         (ret i)))))"

definition thumbs_up :: string where
  "thumbs_up = [CHR 0xF0, CHR 0x9F, CHR 0x91, CHR 0x8D]"

definition seedGroup :: "env \<Rightarrow> node_crypto \<Rightarrow> seeded_user list \<Rightarrow> uuid svc" where
  "seedGroup e c members = bnd draw (\<lambda>n. let groupKey = nc_randomBytes c n 32 in
     bnd (buildGroupMetadata c groupKey) (\<lambda>metadata.
     bnd (dbget (\<lambda>d. seed_group_found d (map sx_id members))) (\<lambda>existing. case existing of
       Some g \<Rightarrow> thn (heal_group e c groupKey metadata g) (ret (g_id g))
     | None \<Rightarrow> bnd (create_seed_group e metadata members) (\<lambda>i.
         bnd (seed_group_line e c groupKey i members (members ! 0) (seed_texts ! 0) 1) (\<lambda>firstMessageId.
         bnd (seed_group_line e c groupKey i members (members ! 1) (seed_texts ! 1) 2) (\<lambda>_.
         bnd (upsert_reaction e (sx_id (members ! 1)) firstMessageId thumbs_up) (\<lambda>_. ret i)))))))"

definition seed_main :: "env \<Rightarrow> node_crypto \<Rightarrow> string option \<Rightarrow> unit svc" where
  "seed_main e c pepper = bnd (seedUsersAndDevices e c pepper) (\<lambda>users.
     bnd (seedDirectThread e c (users ! 0) (users ! 1)) (\<lambda>_.
     bnd (seedGroup e c users) (\<lambda>_. ret ())))"

section \<open>Running it again\<close>

text \<open>What is assumed of the platform: a public key has 65 bytes, and the encoding of a non-empty buffer is a non-empty text that decodes to it.\<close>

definition sound_crypto :: "node_crypto \<Rightarrow> bool" where
  "sound_crypto c \<longleftrightarrow> (\<forall>n. length (nc_publicKey c n) = 65) \<and> (\<forall>s. s \<noteq> [] \<longrightarrow> nc_base64 c s \<noteq> [] \<and> nc_unbase64 c (nc_base64 c s) = s)"

definition seeded :: "node_crypto \<Rightarrow> string \<Rightarrow> db \<Rightarrow> bool" where
  "seeded c h d \<longleftrightarrow> (\<exists>user device. find_user_by_hash d h = Some user \<and> first_device d (u_id user) = Some device \<and> isRawP256 c (d_identityPublicKey device))"

lemma fresh_key_raw: "sound_crypto c \<Longrightarrow> isRawP256 c (nc_base64 c (drop 1 (nc_publicKey c n)))"
proof -
  assume c: "sound_crypto c"
  then have "length (drop 1 (nc_publicKey c n)) = 64" by (simp add: sound_crypto_def)
  moreover from this have "drop 1 (nc_publicKey c n) \<noteq> []" by fastforce
  ultimately show ?thesis using c by (simp add: sound_crypto_def isRawP256_def)
qed

lemma seeded_writes [kdb_intros]:
  "kdb (seeded c h) (dbset (users_update (\<lambda>us. us @ [u])))" "kdb (seeded c h) (dbset (devices_update (\<lambda>ds. ds @ [x])))"
  by (auto simp: seeded_def find_user_by_hash_def first_device_def find_append intro!: kdb_dbset)

lemma seeded_healed: "isRawP256 c key \<Longrightarrow> kdb (seeded c h) (dbset (devices_update (update_where p (\<lambda>x. x\<lparr>d_identityPublicKey := key\<rparr>))))"
proof (rule kdb_dbset)
  fix d assume key: "isRawP256 c key" and "seeded c h d"
  then obtain usr dv where "find_user_by_hash d h = Some usr" "first_device d (u_id usr) = Some dv" "isRawP256 c (d_identityPublicKey dv)"
    by (auto simp: seeded_def)
  with key show "seeded c h (devices_update (update_where p (\<lambda>x. x\<lparr>d_identityPublicKey := key\<rparr>)) d)"
    by (cases "p dv") (simp_all add: seeded_def find_user_by_hash_def first_device_def find_update_where)
qed

lemma generate_run: "bnd (generateP256KeyPair c) f w = f (nc_base64 c (drop 1 (nc_publicKey c (w_supply w)))) (w\<lparr>w_supply := Suc (w_supply w)\<rparr>)"
  by (simp add: generateP256KeyPair_def draw_def act_simps)

lemma kdb_generate: "(\<And>n. kdb P (f (nc_base64 c (drop 1 (nc_publicKey c n))))) \<Longrightarrow> kdb P (bnd (generateP256KeyPair c) f)"
  by (rule kdbI) (simp add: generate_run kdbD)

lemma seeded_kept: "sound_crypto c \<Longrightarrow> kdb (seeded c h) (seed_one e c pepper u)"
  unfolding seed_one_def upsert_seed_user_def seed_device_def Let_def
  by (rule kdb_bnd, intro kdb_intros, rule kdb_bnd) (auto intro!: kdb_intros kdb_generate seeded_healed fresh_key_raw split: option.split)

lemma seed_device_raw:
  assumes "seed_device e c i u w = (Inr dv, w')" and "sound_crypto c"
  shows "users (w_db w') = users (w_db w) \<and> (\<exists>x. first_device (w_db w') i = Some x \<and> isRawP256 c (d_identityPublicKey x))"
proof (cases "first_device (w_db w) i")
  case None
  with assms(1) fresh_key_raw [OF assms(2)] show ?thesis
    by (auto simp: seed_device_def ok_simps generate_run Let_def first_device_def find_append new_seed_device_def)
next
  case (Some x)
  show ?thesis
  proof (cases "isRawP256 c (d_identityPublicKey x)")
    case True
    with Some assms(1) show ?thesis by (auto simp: seed_device_def ok_simps)
  next
    case False
    with Some assms(1) fresh_key_raw [OF assms(2)] show ?thesis
      by (auto simp: seed_device_def ok_simps generate_run first_device_def find_update_where)
  qed
qed

text \<open>Once run, an account is there with a device whose key is raw.\<close>

lemma seed_one_seeds:
  assumes "seed_one e c pepper u w = (Inr x, w')" and "sound_crypto c"
  shows "seeded c (hashPhone e pepper (sn_phone u)) (w_db w')"
proof -
  let ?h = "hashPhone e pepper (sn_phone u)"
  from assms(1) obtain i w1 dv where r: "upsert_seed_user e ?h u w = (Inr i, w1)" "seed_device e c i u w1 = (Inr dv, w')"
    by (auto simp: seed_one_def bnd_ok ret_ok)
  from r(1) obtain usr where usr: "find_user_by_hash (w_db w1) ?h = Some usr" "u_id usr = i"
    by (auto simp: upsert_seed_user_def ok_simps find_user_by_hash_def find_append new_seed_user_def split: option.splits)
  from seed_device_raw [OF r(2) assms(2)] usr show ?thesis by (auto simp: seeded_def find_user_by_hash_def)
qed

lemma seed_one_again: "seeded c (hashPhone e pepper (sn_phone u)) (w_db w) \<Longrightarrow> \<exists>x. seed_one e c pepper u w = (Inr x, w)"
  by (auto simp: seeded_def seed_one_def upsert_seed_user_def seed_device_def act_simps)

text \<open>The accounts are seeded once: after a run that succeeded, every further run of this part leaves the world as it is, whoever else has been added
  meanwhile.\<close>

lemma seeded_all:
  "map_act (seed_one e c pepper) us w = (Inr xs, w') \<Longrightarrow> sound_crypto c \<Longrightarrow> u \<in> set us \<Longrightarrow> seeded c (hashPhone e pepper (sn_phone u)) (w_db w')"
proof (induction us arbitrary: w xs)
  case (Cons v us)
  from Cons.prems(1) obtain y w1 ys where r: "seed_one e c pepper v w = (Inr y, w1)" "map_act (seed_one e c pepper) us w1 = (Inr ys, w')"
    by (auto simp: ok_simps)
  have "kdb (seeded c h) (map_act (seed_one e c pepper) us)" for h
    by (rule kdb_map_act) (rule seeded_kept [OF Cons.prems(2)])
  from kdb_result [OF this seed_one_seeds [OF r(1) Cons.prems(2)] r(2)] Cons.IH [OF r(2) Cons.prems(2)] Cons.prems(3) show ?case by auto
qed simp

lemma seed_accounts_once:
  assumes "seedUsersAndDevices e c pepper w = (Inr xs, w')" and "sound_crypto c" and "hmacSha256 e' = hmacSha256 e"
    and "\<And>h. seeded c h (w_db w') \<Longrightarrow> seeded c h (w_db v)"
  shows "\<exists>ys. seedUsersAndDevices e' c pepper v = (Inr ys, v)"
proof -
  have "\<exists>ys. map_act (seed_one e' c pepper) us v = (Inr ys, v)" if "set us \<subseteq> set USERS" for us
    using that
  proof (induction us)
    case (Cons u us)
    have "seeded c (hashPhone e' pepper (sn_phone u)) (w_db v)"
      using seeded_all [OF assms(1) [unfolded seedUsersAndDevices_def] assms(2), of u] Cons.prems assms(3,4) by (simp add: hashPhone_def)
    from seed_one_again [OF this] Cons show ?case by (auto simp: act_simps)
  qed (simp add: act_simps)
  then show ?thesis by (simp add: seedUsersAndDevices_def)
qed

section \<open>The order of the pair\<close>

text \<open>The script stores the pair in the order of its own list.  Where the first identifier is the greater one, the thread is
  not in canonical order: the services do not find it and open a second one for the same pair.\<close>

lemma seed_not_canonical:
  assumes "seedDirectThread e c a b w = (Inr t, w')" and "sx_id b < sx_id a"
    and "\<not> (\<exists>t\<in>set (directThreads (w_db w)). {th_userAId t, th_userBId t} = {sx_id a, sx_id b})"
  shows "\<not> thread_inv (w_db w')"
proof -
  have enc: "kdb P (dmCiphertext c m k)" for P m k
    unfolding dmCiphertext_def eciesEncrypt_def aesGcmSeal_def Let_def by (intro kdb_intros; (rule kdbI, simp add: draw_def)?)
  have line: "directThreads (w_db v') = directThreads (w_db v)" if "seed_line e c i x y m n v = (Inr u, v')" for i x y m n v u v'
  proof -
    have "kdb (\<lambda>d. directThreads d = directThreads (w_db v)) (seed_line e c i x y m n)"
      unfolding seed_line_def create_message_def create_envelope_def Let_def by (intro kdb_intros enc kdb_dbset; simp)
    from kdb_result [OF this refl that] show ?thesis .
  qed
  have "List.find (\<lambda>t. th_userAId t = sx_id a \<and> th_userBId t = sx_id b \<or> th_userAId t = sx_id b \<and> th_userBId t = sx_id a) (directThreads (w_db w)) = None"
    using assms(3) by (auto simp: find_None_iff insert_commute)
  with assms(1) have "\<exists>x\<in>set (directThreads (w_db w')). th_userAId x = sx_id a \<and> th_userBId x = sx_id b"
    by (auto simp: seedDirectThread_def ok_simps create_thread_def Let_def dest!: line)
  with assms(2) show ?thesis unfolding thread_inv_def by (metis order_less_asym)
qed

end
