(* ===== verification/Spec2Isabelle.thy ===== *)
theory Spec2Isabelle
  imports Accountability System_Credentials Dto_Classes Infrastructure Scripts Seed
begin

text \<open>
  A verification of the BirGap messenger backend, an end-to-end encrypted chat server in TypeScript (NestJS, Prisma over
  PostgreSQL, Redis, BullMQ queues, Socket.IO).  The server stores messages as one envelope of ciphertext per recipient
  device, never their content.  The HTTP interface calls services; services read and write the database in
  transactions, emit events that the realtime gateway turns into socket frames, put jobs into queues that workers take,
  publish kicks over Redis, and cache or register things in Redis.

  \<^bold>\<open>The model.\<close>  A service method is an action: a function from the world to an error or an answer and a new world
  (theory \<open>Prelude\<close>).  The world (theory \<open>Schema\<close>) holds the database, one row record per model of \<open>prisma/schema.prisma\<close>
  and one list per table, together with the emitted events, the enqueued jobs, the publications and the
  contents of Redis.  A transaction that fails restores the database and nothing else.  Every HTTP exception, every
  constraint violation (\<open>P2002\<close>, \<open>P2003\<close>, \<open>P2025\<close>) and every other thrown error is a value of the type \<open>error\<close>.  What comes from outside
  is an argument: the clock and the configuration of a call, the generator of identifiers, the hash functions
  and the token signer and verifier, whether a queue and Redis accept a call, the object store, Firebase, Telegram, and
  how the database client treats a null in a compound key.  Identifiers and texts are strings, times are integers in
  milliseconds, and numbers are unbounded: JavaScript numbers stay far below the limit of exactness here, and the only
  64-bit column, the envelope sequence, is drawn from a counter.

  \<^bold>\<open>The theories.\<close>
  \<^item> \<open>Prelude\<close>, \<open>Schema\<close>, \<open>Store\<close>, \<open>Util\<close>: actions and the rules that run them, invert their success and show what they
    keep; tables, events and jobs; lookups, insertions with their constraints and the invariant \<open>chat_inv\<close> of the message tables;
    \<open>src/common/utils\<close> and \<open>src/messages/thread.util.ts\<close>.  \<open>Demo\<close> is the example deployment of the witnesses.
  \<^item> \<open>Media\<close>, \<open>Unread\<close>, \<open>Messages\<close>, \<open>Messages_Send\<close>, \<open>Messages_Ops\<close>: \<open>src/messages\<close>, \<open>src/unread\<close> and \<open>src/storage/r2.service.ts\<close>: sending,
    forwarding, fetching, synchronising, acknowledging, editing and deleting.  Shown: a send delivers one envelope to every active device of the
    recipient and is idempotent, also against a racing duplicate; a failed send leaves no trace; following the cursor
    returns every pending envelope once (locale \<open>cursor_query\<close>).
  \<^item> \<open>Threads\<close>, \<open>Group_Chat\<close>: \<open>src/direct-threads\<close> and \<open>src/groups\<close> with both fan-out workers: gapless numbering, pages of history, fan-out that a
    retry does not repeat, and a member cache that agrees with the table.  The locale \<open>numbered\<close> states what a page relies on, and is interpreted for
    threads and groups.
  \<^item> \<open>Auth\<close>: \<open>src/auth\<close>, the bearer guard and the socket tickets of \<open>src/realtime/realtime.service.ts\<close>: one-time codes and their bound on guesses, token
    rotation and reuse detection, logout, tickets that open one connection (locale \<open>one_shot\<close>).
  \<^item> \<open>Moderation\<close>, \<open>Suspensions\<close>, \<open>Report_Flow\<close>, \<open>Metrics\<close>: \<open>src/moderation\<close>: reports that only advance, the daily limit, suspensions with their cascade and their
    reactivation, role changes, the audit log, cursors that end and miss nothing (locale \<open>cursor_pages\<close>, interpreted for the report queue and the audit log), and the
    daily figures.
  \<^item> \<open>Reactions\<close>, \<open>Keys\<close>: \<open>src/reactions\<close> refines a map from user and message to emoji, with an exact cache; \<open>src/devices\<close>, \<open>src/prekeys\<close> and \<open>src/users\<close>: no one-time prekey is
    handed out twice (locale \<open>dispenser\<close>).
  \<^item> \<open>Sockets\<close>, \<open>Gateway\<close>, \<open>Push\<close>: the socket registry of \<open>src/redis/redis.service.ts\<close> refines a set of open sockets;
    \<open>src/realtime/realtime.gateway.ts\<close> as a step relation over sockets, rooms and frames; \<open>src/push\<close> wakes exactly the devices it should.
  \<^item> \<open>Housekeeping\<close>, \<open>Storage_Api\<close>, \<open>Telegram\<close>, \<open>Http_Edge\<close>, \<open>Scripts\<close>, \<open>Seed\<close>: nightly jobs, backups and stored objects, the bot that delivers codes, the internal
    key and the exception filter, the scripts under \<open>prisma/scripts\<close> and the development seed \<open>prisma/seed.ts\<close>.
  \<^item> \<open>Validation\<close>, \<open>Dto_Classes\<close>: what the validation pipe promises of an accepted body, and every class of a request as the list of its
    properties with their declared types and their decorators.  Whether decorators enforce a type is decided by a function that is shown sound; shown for all bodies: what a
    handler gets has the declared type and keeps the announced limits.
  \<^item> \<open>Startup\<close>, \<open>Infrastructure\<close>: the defaults of the configuration, the start of the bot, the gate of the queue dashboard, rate limits, the attempts of queued jobs and their
    counters, the Redis connection, the health check, the start of Firebase and the settings of the server.
  \<^item> \<open>Routes\<close>: every controller as a function from requests to service calls behind its guards.
  \<^item> \<open>System\<close>, \<open>System_Accounts\<close>, \<open>Accountability\<close>, \<open>System_Credentials\<close> and this theory: a step of the whole program is a request, a job taken by a worker, a scheduled task
    or a socket; the invariants of the message tables, of the suspensions, of the one-time prekeys and of the sessions hold in every reachable state, and the audit log accounts for
    what happened between two states.  The locale \<open>program_inv\<close> lists what the program does to the tables that those theorems are about and derives that every step
    keeps a predicate that those operations keep; \<open>content_inv\<close>, \<open>account_inv\<close> and \<open>credential_inv\<close> are its specialisations to accounts and messages,
    to accounts alone and to devices, prekeys, tokens and tickets, and each is interpreted for the predicates concerned.

  \<^bold>\<open>Loops and bounds.\<close>  Loops over rows are structural recursion.  The chunks of the edit fan-out and the batches of the
  backfill are functions with termination proofs; the walks along a cursor have fuel, and the theorems give the
  fuel that is enough, one more than there are rows.

  \<^bold>\<open>Concurrency.\<close>  A service call runs as one step.  The races that the code handles are modelled where they matter: an insertion that finds
  its key taken, jobs that are delivered twice or late, and Redis or a queue that fails in the middle of a call.

  \<^bold>\<open>Not modelled.\<close>  The dependency injection between modules; the text of log lines but that of the HTTP interceptor; the export of the
  Prometheus counters; the delays between attempts of a job (the attempts are modelled); the socket transport and its Redis adapter between instances; helmet, Swagger and the queue
  dashboard, which are libraries that \<open>src/main.ts\<close> switches on; the ranges that Joi checks of the configuration; the implementation of the decorators
  and of the pipe, of which only the documented promise is used.
\<close>

section \<open>The program as a whole\<close>

text \<open>C1: The conversations stay sound.  Starting from sound message tables, after any sequence of requests by
  whatever callers, jobs taken by workers in any order and any number of times, scheduled tasks and socket
  connections, successful or not, the message tables are sound: identifiers are unique, no device has used
  an idempotency key twice, every message belongs to one thread or one group, the messages of every thread and every
  group are numbered from 1 without gap or repetition, there is one thread per pair of users, replies stay
  in their conversation and are one level deep, and a device has at most one envelope of a message.\<close>

theorem chat_reachable:
  assumes "system_step\<^sup>*\<^sup>* w w'" and "chat_inv (w_db w)"
  shows "chat_inv (w_db w')"
  using assms by (induction rule: rtranclp_induct) (auto intro: chat_step)

text \<open>Ann, with a session, sends Bob a message through the interface.\<close>

theorem chat_reachable_witness:
  "\<exists>w'. system_step\<^sup>*\<^sup>* demo_session_world w' \<and> length (messages (w_db w')) = 1 \<and> chat_inv (w_db w')"
proof -
  let ?m = "serve demo_env demo_outside (Some ''Bearer ann.s1'') (Messages_api (PostMessage demo_send))"
  obtain r w' where run: "?m demo_session_world = (r, w')" by fastforce
  have "length (messages (w_db (snd (?m demo_session_world)))) = 1" by code_simp
  moreover have "chat_inv (w_db demo_session_world)"
    by (rule same_chat_inv [OF _ demo_chat_inv]) (simp add: same_chat_def demo_session_world_def)
  moreover have "system_step\<^sup>*\<^sup>* demo_session_world w'" using run by (intro r_into_rtranclp request)
  ultimately show ?thesis using chat_reachable run by auto
qed

text \<open>C2: Suspended accounts are locked out.  In every state that the whole program can reach from one where status and
  suspensions agree, a user is \<open>SUSPENDED\<close> exactly when a suspension of the user is not revoked, no user has
  two of them, so lifting one never leaves another in force, and the guard in front of every route admits nobody with a suspension that is
  not revoked, whatever token is presented.\<close>

theorem suspension_reachable:
  assumes "system_step\<^sup>*\<^sup>* w w'" and "susp_inv (w_db w)"
  shows "(\<forall>u\<in>set (users (w_db w')). (u_status u = SUSPENDED) = (\<exists>s\<in>set (userSuspensions (w_db w')). su_userId s = u_id u \<and> su_revokedAt s = None)
      \<and> length (filter (\<lambda>s. su_userId s = u_id u \<and> su_revokedAt s = None) (userSuspensions (w_db w'))) \<le> 1)
    \<and> (\<forall>e verify header a w''. canActivate e verify header w' = (Inr a, w'') \<longrightarrow>
         (\<forall>s\<in>set (userSuspensions (w_db w')). su_userId s = au_userId a \<longrightarrow> su_revokedAt s \<noteq> None))"
proof -
  have inv: "susp_inv (w_db w')" using assms by (rule susp.reachable)
  have "su_revokedAt s \<noteq> None"
    if adm: "canActivate e verify header w' = (Inr a, w'')" and s: "s \<in> set (userSuspensions (w_db w'))" "su_userId s = au_userId a" for e verify header a w'' s
  proof -
    from adm obtain usr where "find_user (w_db w') (au_userId a) = Some usr" "u_status usr \<noteq> SUSPENDED" by (auto simp: guard_admits)
    with susp_inv_account [OF inv, of usr] s show ?thesis by (auto dest: find_userD)
  qed
  with susp_inv_account [OF inv] show ?thesis by blast
qed

text \<open>Ann suspends Bob through the interface; Bob's token is not admitted any more.\<close>

theorem suspension_reachable_witness:
  "\<exists>w'. system_step\<^sup>*\<^sup>* demo_mod_world w' \<and> (\<exists>s\<in>set (userSuspensions (w_db w')). su_userId s = ''bob'' \<and> su_revokedAt s = None)
     \<and> (\<forall>e verify header a w''. canActivate e verify header w' = (Inr a, w'') \<longrightarrow> au_userId a \<noteq> ''bob'')"
proof -
  let ?m = "serve demo_env demo_outside (Some ''Bearer ann.s1'') (Admin_api (Suspend ''bob'' (demo_suspend None)))"
  obtain r w' where run: "?m demo_mod_world = (r, w')" by fastforce
  have "list_ex (\<lambda>s. su_userId s = ''bob'' \<and> su_revokedAt s = None) (userSuspensions (w_db (snd (?m demo_mod_world))))" by code_simp
  then obtain s where s: "s \<in> set (userSuspensions (w_db w'))" "su_userId s = ''bob''" "su_revokedAt s = None" by (auto simp: list_ex_iff run)
  have steps: "system_step\<^sup>*\<^sup>* demo_mod_world w'" using run by (intro r_into_rtranclp request)
  have "au_userId a \<noteq> ''bob''" if "canActivate e verify header w' = (Inr a, w'')" for e verify header a w''
    using suspension_reachable [OF steps demo_susp_inv, THEN conjunct2] that s by (metis option.distinct(1))
  with steps s show ?thesis by blast
qed



text \<open>C9: No one-time prekey is ever given to two requests.  A bundle fetch hands out pairwise different prekeys, and whatever the program does between
  two fetches by whatever callers (refills, rotations, registrations, deactivations, logins, moderation, nightly jobs, anything else), the second hands
  out none that the first did.\<close>

theorem prekey_never_twice:
  assumes "prekey_inv (w_db w0)" and "system_step\<^sup>*\<^sup>* w0 w1" and fetch: "getDeviceKeyBundles e u w1 = (Inr bs, w2)"
    and "system_step\<^sup>*\<^sup>* w2 w3" and again: "getDeviceKeyBundles e' u' w3 = (Inr bs', w4)"
  shows "distinct (bundle_keys bs) \<and> set (bundle_keys bs) \<inter> set (bundle_keys bs') = {}"
proof -
  have s1: "stock {} (w_db w1)" using assms(1,2) prekeys_sys.reachable [of w0 w1 "{}"] by (simp add: stock_def)
  have "stock {} (w_db w2)" using stock_fetch s1 fetch by (rule kdb_result)
  then have s2: "stock (set (bundle_keys bs)) (w_db w2)" using fetch_keys(3) [OF s1 fetch] by (simp add: stock_def)
  from prekeys_sys.reachable [OF assms(4) s2] have s3: "stock {} (w_db w3)" "\<forall>k\<in>set (bundle_keys bs). consumed (w_db w3) k"
    by (simp_all add: stock_def)
  with fetch_keys(1) [OF s1 fetch] fetch_keys(2) [OF s3(1) again] show ?thesis by blast
qed

text \<open>Ann stocks up her phone through the interface; two fetches of her bundles get different prekeys.\<close>

theorem prekey_never_twice_witness:
  "\<exists>w1 bs w2 bs' w4. system_step\<^sup>*\<^sup>* demo_session_world w1 \<and> getDeviceKeyBundles demo_env ''ann'' w1 = (Inr bs, w2)
     \<and> getDeviceKeyBundles demo_env ''ann'' w2 = (Inr bs', w4) \<and> bundle_keys bs = [(''a1'', 1)] \<and> bundle_keys bs' = [(''a1'', 2)]
     \<and> set (bundle_keys bs) \<inter> set (bundle_keys bs') = {}"
proof -
  let ?m = "serve demo_env demo_outside (Some ''Bearer ann.s1'') (Prekeys_api (PostPrekeys ''a1'' demo_keys))"
  let ?f = "getDeviceKeyBundles demo_env ''ann''"
  let ?keys = "\<lambda>m w. case fst (m w) of Inr bs \<Rightarrow> Some (bundle_keys bs) | Inl _ \<Rightarrow> None"
  obtain r w1 where run: "?m demo_session_world = (r, w1)" by fastforce
  have k1: "?keys ?f (snd (?m demo_session_world)) = Some [(''a1'', 1)]" by code_simp
  have k2: "?keys ?f (snd (?f (snd (?m demo_session_world)))) = Some [(''a1'', 2)]" by code_simp
  from k1 obtain bs w2 where b1: "?f w1 = (Inr bs, w2)" "bundle_keys bs = [(''a1'', 1)]" by (cases "?f w1") (auto simp: run split: sum.splits)
  from k2 b1 obtain bs' w4 where b2: "?f w2 = (Inr bs', w4)" "bundle_keys bs' = [(''a1'', 2)]" by (cases "?f w2") (auto simp: run split: sum.splits)
  have inv: "prekey_inv (w_db demo_session_world)" by code_simp
  have steps: "system_step\<^sup>*\<^sup>* demo_session_world w1" using run by (intro r_into_rtranclp request)
  from prekey_never_twice [OF inv steps b1(1) rtranclp.rtrancl_refl b2(1)] steps b1 b2 show ?thesis by blast
qed

end
